(* ===== verification/Prelude.thy ===== *)
theory Prelude
  imports Main "HOL-Library.Word" "HOL-Library.Multiset" "HOL-Library.Monad_Syntax"
begin

text \<open>
  Vocabulary shared by every theory of the development: the machine integers of the
  32-bit ARM targets the modules are built for, the result type of the modelled functions,
  and the generic lemmas on words, page rounding and lists.
\<close>

unbundle bit_operations_syntax

section \<open>Machine integers and results\<close>

type_synonym u8 = "8 word"
type_synonym u16 = "16 word"
type_synonym u32 = "32 word"
type_synonym u64 = "64 word"

text \<open>
  The kernel's error numbers, named as the code names them (the code returns their
  negation).
\<close>

datatype errno =
    EFAULT | EINVAL | ENOMEM | ERESTARTSYS | EAGAIN | EBUSY | EIO | ENODEV | ENOSPC
  | EACCES | ENOTTY | EPROTO | ETIMEDOUT | EPERM | ENXIO

text \<open>
  What the C code does where it has no defined result. A modelled function that reaches
  such a point returns \<open>Crash\<close>; it never continues with an arbitrary value.
\<close>

datatype fault =
    Null_deref      \<comment> \<open>a NULL pointer is dereferenced\<close>
  | Out_of_bounds   \<comment> \<open>an array or a buffer is accessed outside its extent\<close>
  | Endless_loop    \<comment> \<open>a loop over a list never reaches the end\<close>
  | Use_after_free  \<comment> \<open>freed memory is read, written or freed again\<close>
  | Div_by_zero     \<comment> \<open>an integer division by zero\<close>
  | Not_locked      \<comment> \<open>a mutex that is not held is unlocked\<close>
  | Not_requested   \<comment> \<open>a GPIO the driver does not have is given back\<close>
  | Uninitialised   \<comment> \<open>an uninitialised variable decides the result\<close>

datatype 'a res = Done 'a | Fail errno | Crash fault

named_theorems handler_defs \<open>definitions of the system-call handlers\<close>
named_theorems page_simps \<open>rewriting of page rounding and alignment masks to nat\<close>

section \<open>Words\<close>

lemma unat_and_mask [page_simps]:
  "unat (x AND (2 ^ k - 1) :: 'a::len word) = unat x mod 2 ^ k"
proof -
  have "x AND (2 ^ k - 1) = take_bit k x"
    by (simp only: take_bit_eq_mask mask_eq_exp_minus_1)
  then have "unat (x AND (2 ^ k - 1)) = take_bit k (unat x)"
    by (simp only: unsigned_take_bit_eq)
  then show ?thesis
    by (simp only: take_bit_eq_mod)
qed

lemma unat_and_4095 [page_simps]: "unat (x AND 4095 :: u32) = unat x mod 4096"
  using unat_and_mask [of x 12] by simp

lemma and_4095_eq_0 [page_simps]: "(x AND 4095 = (0 :: u32)) = (4096 dvd unat x)"
proof -
  have "(x AND 4095 = 0) = (unat (x AND 4095) = 0)"
    by (rule unat_eq_zero [symmetric])
  then show ?thesis
    by (simp add: unat_and_4095 mod_eq_0_iff_dvd)
qed

lemma unat_plus_no_wrap:
  "unat x + unat y < 2 ^ 32 \<Longrightarrow> unat (x + y :: u32) = unat x + unat y"
  using unat_add_lem [of x y] by simp

lemma unat_minus_no_wrap:
  "unat y \<le> unat x \<Longrightarrow> unat (x - y :: u32) = unat x - unat y"
  by (simp add: unat_sub word_le_nat_alt)

lemma unat_less_2p32 [simp]: "unat (x :: u32) < 4294967296"
  using unsigned_less [of x] by simp

lemma unat_le_max_u32 [simp]: "unat (x :: u32) \<le> 4294967295"
  using unat_less_2p32 [of x] by linarith

lemma unat_and_not_mask: "unat (x AND NOT (mask k) :: u32) = unat x div 2 ^ k * 2 ^ k"
proof -
  have "x AND NOT (mask k) = push_bit k (drop_bit k x)"
    by (rule bit_word_eqI) (auto simp: bit_simps)
  moreover have t: "take_bit 32 (unat x) = unat x" by (rule take_bit_nat_eq_self) simp
  moreover have "unat x div 2 ^ k * 2 ^ k < 2 ^ 32"
    using le_less_trans [OF div_times_less_eq_dividend unat_less_2p32 [of x]] by simp
  moreover have "unat (push_bit k (drop_bit k x)) = take_bit 32 (push_bit k (drop_bit k (unat x)))"
    using t by (simp add: unsigned_push_bit_eq unsigned_drop_bit_eq del: push_bit_of_nat)
  ultimately show ?thesis
    by (simp add: push_bit_eq_mult [where ?'a = nat] drop_bit_eq_div [where ?'a = nat] take_bit_nat_eq_self)
qed

lemma unat_of_nat_u32: "n < 2 ^ 32 \<Longrightarrow> unat (of_nat n :: u32) = n"
  by (simp add: unat_of_nat take_bit_nat_eq_self)

text \<open>A word is rounded up to a multiple of the page size the way the code does it.\<close>

definition PAGE_SIZE :: u32 where
  "PAGE_SIZE = 4096"

definition PAGE_SHIFT :: nat where
  "PAGE_SHIFT = 12"

definition PAGE_ALIGN :: "u32 \<Rightarrow> u32" where
  "PAGE_ALIGN x = (x + (PAGE_SIZE - 1)) AND NOT (PAGE_SIZE - 1)"

definition round_page :: "nat \<Rightarrow> nat" where
  "round_page n = (if n mod 4096 = 0 then n else n + (4096 - n mod 4096))"

lemma round_page_dvd [simp]: "4096 dvd round_page n"
proof (cases "n mod 4096 = 0")
  case True
  then show ?thesis by (simp add: round_page_def mod_eq_0_iff_dvd)
next
  case False
  have "n mod 4096 < 4096" by simp
  then have "n + (4096 - n mod 4096) = 4096 * (n div 4096) + 4096"
    using mult_div_mod_eq [of 4096 n] by linarith
  with False show ?thesis by (simp add: round_page_def)
qed

lemma round_page_ge: "n \<le> round_page n"
proof (cases "n mod 4096 = 0")
  case True
  then show ?thesis by (simp add: round_page_def)
next
  case False
  then have "round_page n = n + (4096 - n mod 4096)"
    by (simp only: round_page_def if_False)
  then show ?thesis by (simp only: le_add1)
qed

lemma round_page_less: "round_page n < n + 4096"
  by (auto simp: round_page_def)

lemma round_page_pos: "0 < n \<Longrightarrow> 0 < round_page n"
  using round_page_ge [of n] by linarith

lemma round_page_id: "4096 dvd n \<Longrightarrow> round_page n = n"
  by (simp add: round_page_def)

lemma round_page_least:
  assumes "n \<le> m" and "4096 dvd m"
  shows "round_page n \<le> m"
proof -
  obtain q where q: "round_page n = 4096 * q"
    using round_page_dvd [of n] by (rule dvdE)
  obtain r where r: "m = 4096 * r"
    using assms(2) by (rule dvdE)
  have "round_page n < m + 4096"
    using round_page_less [of n] assms(1) by linarith
  then have "q < r + 1" using q r by linarith
  then show ?thesis using q r by simp
qed

end
