(* ===== verification/HeapMem.thy ===== *)
theory HeapMem
  imports Prelude
begin

text \<open>
  The heap of one memory block, \<open>HeapMem_alloc\<close> and \<open>HeapMem_free\<close> of
  \<open>cmemk/cmemk.c\<close>, at the level of the C code: a singly linked list of headers that
  live in the managed memory itself. The store maps a location to the header that the
  code reads and writes there. A location is the static \<open>heap_head[bi]\<close> or an address
  inside the block; all addresses the heap hands out are multiples of the page size, so
  two different headers never share bytes.
\<close>

section \<open>Headers and the store\<close>

definition HEAP_ALIGN :: u32 where
  "HEAP_ALIGN = PAGE_SIZE"

record HeapMem_Header =
  hdr_next :: u32
  hdr_size :: u32

datatype hloc = HeadAt nat | BlockAt u32

type_synonym hmem = "hloc \<Rightarrow> HeapMem_Header"

definition set_next :: "hmem \<Rightarrow> hloc \<Rightarrow> u32 \<Rightarrow> hmem" where
  "set_next m l v = m(l := (m l)\<lparr>hdr_next := v\<rparr>)"

definition set_size :: "hmem \<Rightarrow> hloc \<Rightarrow> u32 \<Rightarrow> hmem" where
  "set_size m l v = m(l := (m l)\<lparr>hdr_size := v\<rparr>)"

lemma hdr_next_set_next [simp]:
  "hdr_next (set_next m l v l') = (if l' = l then v else hdr_next (m l'))"
  by (simp add: set_next_def)

lemma hdr_size_set_next [simp]: "hdr_size (set_next m l v l') = hdr_size (m l')"
  by (simp add: set_next_def)

lemma hdr_next_set_size [simp]: "hdr_next (set_size m l v l') = hdr_next (m l')"
  by (simp add: set_size_def)

lemma hdr_size_set_size [simp]:
  "hdr_size (set_size m l v l') = (if l' = l then v else hdr_size (m l'))"
  by (simp add: set_size_def)

section \<open>Allocation\<close>

text \<open>The requested size and alignment, adjusted at the head of \<open>HeapMem_alloc\<close>.\<close>

definition adjust_size :: "u32 \<Rightarrow> u32" where
  "adjust_size reqSize =
     (let adjSize = reqSize; offset = adjSize AND (HEAP_ALIGN - 1)
      in if offset \<noteq> 0 then adjSize + (HEAP_ALIGN - offset) else adjSize)"

definition adjust_align :: "u32 \<Rightarrow> u32" where
  "adjust_align reqAlign =
     (let adjAlign = reqAlign
      in if adjAlign AND (HEAP_ALIGN - 1) \<noteq> 0 then HEAP_ALIGN else adjAlign)"

definition align_offset :: "u32 \<Rightarrow> u32 \<Rightarrow> u32" where
  "align_offset adjAlign cur =
     (let offset = cur AND (adjAlign - 1)
      in if offset \<noteq> 0 then adjAlign - offset else offset)"

text \<open>
  Taking the allocation out of the block at \<open>cur\<close>, which is big enough. The header
  writes are in the order of the code: \<open>newHeader\<close> may be \<open>cur\<close> itself when the
  adjusted size is zero.
\<close>

definition carve :: "hmem \<Rightarrow> hloc \<Rightarrow> u32 \<Rightarrow> u32 \<Rightarrow> u32 \<Rightarrow> hmem" where
  "carve m prev cur adjSize offset =
     (let curSize = hdr_size (m (BlockAt cur));
          allocAddr = cur + offset;
          remainSize = curSize - adjSize - offset;
          newHeader = allocAddr + adjSize
      in if offset \<noteq> 0 then
           let m1 = set_size m (BlockAt cur) offset
           in if remainSize \<noteq> 0 then
                let m2 = set_next m1 (BlockAt newHeader) (hdr_next (m1 (BlockAt cur)));
                    m3 = set_size m2 (BlockAt newHeader) remainSize
                in set_next m3 (BlockAt cur) newHeader
              else m1
         else
           if remainSize \<noteq> 0 then
             let m1 = set_next m (BlockAt newHeader) (hdr_next (m (BlockAt cur)));
                 m2 = set_size m1 (BlockAt newHeader) remainSize
             in set_next m2 prev newHeader
           else set_next m prev (hdr_next (m (BlockAt cur))))"

text \<open>
  The loop over the free list. \<open>None\<close>: the loop does not end (a cyclic list). The
  address 0 is NULL: no block is big enough.
\<close>

partial_function (option) alloc_loop ::
    "u32 \<Rightarrow> u32 \<Rightarrow> bool \<Rightarrow> hmem \<Rightarrow> hloc \<Rightarrow> u32 \<Rightarrow> (hmem \<times> u32) option" where
  "alloc_loop adjSize adjAlign dryrun m prevHeader curHeader =
     (if curHeader \<noteq> 0 then
        let curSize = hdr_size (m (BlockAt curHeader));
            offset = align_offset adjAlign curHeader
        in if curSize \<ge> adjSize + offset then
             (if dryrun then Some (m, curHeader + offset)
              else Some (carve m prevHeader curHeader adjSize offset, curHeader + offset))
           else
             alloc_loop adjSize adjAlign dryrun m (BlockAt curHeader)
               (hdr_next (m (BlockAt curHeader)))
      else Some (m, 0))"

definition HeapMem_alloc :: "nat \<Rightarrow> u32 \<Rightarrow> u32 \<Rightarrow> bool \<Rightarrow> hmem \<Rightarrow> (hmem \<times> u32) option" where
  "HeapMem_alloc bi reqSize reqAlign dryrun m =
     alloc_loop (adjust_size reqSize) (adjust_align reqAlign) dryrun m
       (HeadAt bi) (hdr_next (m (HeadAt bi)))"

section \<open>Release\<close>

text \<open>
  The walk down the free list to the place of the block, the last header below it and the
  first above it; and the linking with the two joins of contiguous blocks.
\<close>

partial_function (option) free_walk ::
    "hmem \<Rightarrow> u32 \<Rightarrow> hloc \<Rightarrow> u32 \<Rightarrow> (hloc \<times> u32) option" where
  "free_walk m newHeader curHeader nextHeader =
     (if nextHeader \<noteq> 0 \<and> nextHeader < newHeader then
        free_walk m newHeader (BlockAt nextHeader) (hdr_next (m (BlockAt nextHeader)))
      else Some (curHeader, nextHeader))"

definition join_upper :: "hmem \<Rightarrow> u32 \<Rightarrow> u32 \<Rightarrow> u32 \<Rightarrow> hmem" where
  "join_upper m newHeader sz nextHeader =
     (if nextHeader \<noteq> 0 \<and> newHeader + sz = nextHeader then
        let m1 = set_next m (BlockAt newHeader) (hdr_next (m (BlockAt nextHeader)))
        in set_size m1 (BlockAt newHeader)
             (hdr_size (m1 (BlockAt newHeader)) + hdr_size (m1 (BlockAt nextHeader)))
      else m)"

definition join_lower :: "hmem \<Rightarrow> hloc \<Rightarrow> u32 \<Rightarrow> hmem" where
  "join_lower m curHeader newHeader =
     (case curHeader of
        HeadAt _ \<Rightarrow> m
      | BlockAt cur \<Rightarrow>
          if cur + hdr_size (m (BlockAt cur)) = newHeader then
            let m1 = set_next m (BlockAt cur) (hdr_next (m (BlockAt newHeader)))
            in set_size m1 (BlockAt cur)
                 (hdr_size (m1 (BlockAt cur)) + hdr_size (m1 (BlockAt newHeader)))
          else m)"

definition link_block :: "hmem \<Rightarrow> u32 \<Rightarrow> u32 \<Rightarrow> hloc \<Rightarrow> u32 \<Rightarrow> hmem" where
  "link_block m newHeader sz curHeader nextHeader =
     (let m1 = set_next m (BlockAt newHeader) nextHeader;
          m2 = set_size m1 (BlockAt newHeader) sz;
          m3 = set_next m2 curHeader newHeader;
          m4 = join_upper m3 newHeader sz nextHeader
      in join_lower m4 curHeader newHeader)"

definition HeapMem_free :: "nat \<Rightarrow> u32 \<Rightarrow> u32 \<Rightarrow> hmem \<Rightarrow> hmem option" where
  "HeapMem_free bi addr reqSize m =
     (let sz = adjust_size reqSize
      in case free_walk m addr (HeadAt bi) (hdr_next (m (HeadAt bi))) of
           None \<Rightarrow> None
         | Some (curHeader, nextHeader) \<Rightarrow>
             Some (link_block m addr sz curHeader nextHeader))"

end
