(* ===== verification/FreeList.thy ===== *)
theory FreeList
  imports Prelude
begin

text \<open>
  What the heap of \<open>cmemk/cmemk.c\<close> promises, without pointers: the free memory of a
  block is a list of pairs (address, size) of natural numbers. The list is the canonical
  description of a set of bytes: sorted, page aligned, and with a gap between any two
  neighbours (contiguous free blocks are joined). Allocation is first fit, release inserts
  and joins. \<open>HeapRefine\<close> proves that the C code's header list implements these two
  functions.
\<close>

section \<open>Block lists\<close>

type_synonym block = "nat \<times> nat"

fun wf_blocks :: "nat \<Rightarrow> nat \<Rightarrow> block list \<Rightarrow> bool" where
  "wf_blocks lo hi [] = True"
| "wf_blocks lo hi ((a, s) # bs) =
     (lo \<le> a \<and> 0 < s \<and> 4096 dvd a \<and> 4096 dvd s \<and> a + s \<le> hi
      \<and> wf_blocks (Suc (a + s)) hi bs)"

definition bytes :: "block list \<Rightarrow> nat set" where
  "bytes bs = (\<Union>(a, s)\<in>set bs. {a..<a + s})"

lemma bytes_Nil [simp]: "bytes [] = {}"
  by (simp add: bytes_def)

lemma bytes_Cons [simp]: "bytes ((a, s) # bs) = {a..<a + s} \<union> bytes bs"
  by (simp add: bytes_def)

lemma bytes_append [simp]: "bytes (xs @ ys) = bytes xs \<union> bytes ys"
  by (simp add: bytes_def)

lemma wf_blocks_bytes: "wf_blocks lo hi bs \<Longrightarrow> bytes bs \<subseteq> {lo..<hi}"
  by (induction lo hi bs rule: wf_blocks.induct) auto

lemma wf_blocks_lower: "wf_blocks lo hi bs \<Longrightarrow> lo' \<le> lo \<Longrightarrow> wf_blocks lo' hi bs"
  by (cases bs) auto

lemma wf_blocks_tail_bytes:
  "wf_blocks lo hi ((a, s) # bs) \<Longrightarrow> x \<in> bytes bs \<Longrightarrow> a + s < x"
  using wf_blocks_bytes [of "Suc (a + s)" hi bs] by auto

text \<open>
  Two well-formed lists that describe the same bytes are equal: the free list is a
  canonical form of the free memory.
\<close>

lemma wf_blocks_min:
  assumes "wf_blocks lo hi ((a, s) # bs)"
  shows "a \<in> bytes ((a, s) # bs)" and "\<forall>x \<in> bytes ((a, s) # bs). a \<le> x"
  using assms by (auto dest: wf_blocks_tail_bytes [OF assms])

lemma wf_blocks_end:
  assumes "wf_blocks lo hi ((a, s) # bs)"
  shows "a + s \<notin> bytes ((a, s) # bs)"
  using wf_blocks_tail_bytes [OF assms, of "a + s"] by auto

lemma wf_blocks_tail_eq:
  assumes "wf_blocks lo hi ((a, s) # bs)"
  shows "bytes bs = bytes ((a, s) # bs) - {a..<a + s}"
  using wf_blocks_tail_bytes [OF assms] by fastforce

lemma wf_blocks_head_size:
  assumes "wf_blocks lo hi ((a, s) # xs)" and "wf_blocks lo' hi' ((a, t) # ys)"
    and "bytes ((a, s) # xs) = bytes ((a, t) # ys)"
  shows "s \<le> t"
proof (rule ccontr)
  assume "\<not> s \<le> t"
  then have "a + t \<in> bytes ((a, s) # xs)" by simp
  with assms(3) wf_blocks_end [OF assms(2)] show False by simp
qed

lemma wf_blocks_canonical:
  assumes "wf_blocks lo hi xs" and "wf_blocks lo hi ys" and "bytes xs = bytes ys"
  shows "xs = ys"
  using assms
proof (induction xs arbitrary: lo ys)
  case Nil
  then show ?case by (cases ys) (auto simp: bytes_def)
next
  case (Cons x xs)
  obtain a s where x: "x = (a, s)" by (cases x)
  from Cons.prems x have "bytes ys \<noteq> {}" using wf_blocks_min(1) [of lo hi a s xs] by auto
  then obtain b t ys' where ys: "ys = (b, t) # ys'" by (cases ys) auto
  note wx = Cons.prems(1) [unfolded x] and wy = Cons.prems(2) [unfolded ys]
    and eq = Cons.prems(3) [unfolded x ys]
  have ab: "a = b"
    using wf_blocks_min [OF wx] wf_blocks_min [OF wy] eq by (metis le_antisym)
  have st: "s = t"
    using wf_blocks_head_size [OF wx wy [folded ab] eq [folded ab]]
      wf_blocks_head_size [OF wy [folded ab] wx eq [folded ab, symmetric]] by simp
  have "bytes xs = bytes ys'"
    using wf_blocks_tail_eq [OF wx] wf_blocks_tail_eq [OF wy] eq ab st by simp
  moreover have "wf_blocks (Suc (a + s)) hi xs" "wf_blocks (Suc (a + s)) hi ys'"
    using wx wy ab st by auto
  ultimately have "xs = ys'" using Cons.IH by blast
  with x ys ab st show ?case by simp
qed

text \<open>A range of free bytes lies in one block of the list.\<close>

lemma range_in_block:
  assumes "wf_blocks lo hi xs" and "0 < n" and "{r..<r + n} \<subseteq> bytes xs"
  shows "\<exists>(a, s) \<in> set xs. a \<le> r \<and> r + n \<le> a + s"
  using assms
proof (induction lo hi xs rule: wf_blocks.induct)
  case (2 lo hi a s bs)
  show ?case
  proof (cases "r < a + s")
    case True
    have "r \<in> {r..<r + n}" using 2(3) by simp
    with 2(4) have "r \<in> bytes ((a, s) # bs)" by blast
    then have "a \<le> r" using wf_blocks_min(2) [OF 2(2)] by blast
    moreover have "r + n \<le> a + s"
    proof (rule ccontr)
      assume "\<not> r + n \<le> a + s"
      then have "a + s \<in> {r..<r + n}" using True by simp
      then show False using 2(4) wf_blocks_end [OF 2(2)] by blast
    qed
    ultimately show ?thesis by auto
  next
    case False
    then have "{r..<r + n} \<subseteq> bytes bs" using 2(4) by auto
    then show ?thesis using 2(1,2,3) by auto
  qed
qed auto

section \<open>First-fit allocation\<close>

definition pad :: "nat \<Rightarrow> nat \<Rightarrow> nat" where
  "pad al a = (if a mod al = 0 then 0 else al - a mod al)"

definition split_block :: "nat \<Rightarrow> nat \<Rightarrow> nat \<Rightarrow> nat \<Rightarrow> block list" where
  "split_block a s n off =
     (if off \<noteq> 0 then [(a, off)] else []) @
     (if s - n - off \<noteq> 0 then [(a + off + n, s - n - off)] else [])"

fun first_fit :: "nat \<Rightarrow> nat \<Rightarrow> block list \<Rightarrow> block list \<times> nat option" where
  "first_fit n al [] = ([], None)"
| "first_fit n al ((a, s) # bs) =
     (if n + pad al a \<le> s then (split_block a s n (pad al a) @ bs, Some (a + pad al a))
      else case first_fit n al bs of (bs', r) \<Rightarrow> ((a, s) # bs', r))"

lemma pad_less: "0 < al \<Longrightarrow> pad al a < al"
  by (simp add: pad_def)

lemma pad_aligns: "0 < al \<Longrightarrow> al dvd a + pad al a"
proof -
  assume al: "0 < al"
  have "a + pad al a = al * (a div al) + (a mod al + pad al a)"
    using mult_div_mod_eq [of al a] by linarith
  moreover have "al dvd a mod al + pad al a"
    using al by (auto simp: pad_def less_imp_le)
  ultimately show ?thesis by (metis dvd_add dvd_triv_left)
qed

lemma pad_least:
  assumes "0 < al" and "a \<le> r" and "al dvd r"
  shows "a + pad al a \<le> r"
proof (cases "a mod al = 0")
  case True
  then show ?thesis using assms(2) by (simp add: pad_def)
next
  case False
  obtain q where q: "r = al * q" using assms(3) by (rule dvdE)
  have "\<not> q \<le> a div al"
  proof
    assume "q \<le> a div al"
    then have "al * q \<le> al * (a div al)" by simp
    then have "r \<le> al * (a div al)" by (simp add: q)
    then have "a mod al = 0" using assms(2) mult_div_mod_eq [of al a] by linarith
    with False show False by simp
  qed
  then have "al * (a div al + 1) \<le> al * q" by (intro mult_le_mono2) simp
  then have "al * (a div al) + al \<le> r" using q by simp
  moreover have "a + pad al a = al * (a div al) + al"
    using False mult_div_mod_eq [of al a] mod_less_divisor [OF assms(1), of a]
    unfolding pad_def by (simp only: if_False)
  ultimately show ?thesis by simp
qed

lemma pad_page: "4096 dvd al \<Longrightarrow> 4096 dvd a \<Longrightarrow> 4096 dvd pad al a"
  by (auto simp: pad_def dvd_mod intro: dvd_diff_nat)

text \<open>The two remainders of a block: well formed in its place, and nothing is lost.\<close>

lemma split_block_bytes:
  "n + off \<le> s \<Longrightarrow> bytes (split_block a s n off) = {a..<a + s} - {a + off..<a + off + n}"
  by (auto simp: split_block_def)

lemma split_block_wf:
  assumes "wf_blocks lo hi ((a, s) # bs)" and "n + off \<le> s" and "0 < n"
    and "4096 dvd n" and "4096 dvd off"
  shows "wf_blocks lo hi (split_block a s n off @ bs)"
proof -
  have "4096 dvd s - n - off" "4096 dvd a + off + n" "4096 dvd a + n"
    using assms by auto
  moreover have "wf_blocks l hi bs" if "l \<le> Suc (a + s)" for l
    using assms(1) that wf_blocks_lower by auto
  ultimately show ?thesis
    using assms by (auto simp: split_block_def)
qed

lemma first_fit_wf:
  assumes "wf_blocks lo hi xs" and "first_fit n al xs = (ys, r)"
    and "0 < n" and "4096 dvd n" and "4096 dvd al"
  shows "wf_blocks lo hi ys"
  using assms(1,2)
proof (induction xs arbitrary: lo ys)
  case (Cons x xs)
  obtain a s where x: "x = (a, s)" by (cases x)
  show ?case
  proof (cases "n + pad al a \<le> s")
    case True
    then have "ys = split_block a s n (pad al a) @ xs" using Cons.prems x by simp
    moreover have "4096 dvd pad al a" using Cons.prems x assms(5) by (simp add: pad_page)
    ultimately show ?thesis
      using Cons.prems(1) x True assms(3,4) split_block_wf [of lo hi a s xs n "pad al a"]
      by simp
  next
    case False
    with Cons x show ?thesis by (auto split: prod.splits)
  qed
qed simp

lemma first_fit_bytes:
  assumes "wf_blocks lo hi xs" and "first_fit n al xs = (ys, Some r)"
  shows "bytes ys = bytes xs - {r..<r + n} \<and> {r..<r + n} \<subseteq> bytes xs"
  using assms
proof (induction xs arbitrary: lo ys)
  case (Cons x xs)
  obtain a s where x: "x = (a, s)" by (cases x)
  have tail: "y \<in> bytes xs \<Longrightarrow> a + s < y" for y
    using wf_blocks_tail_bytes [of lo hi a s xs] Cons.prems(1) x by simp
  show ?case
  proof (cases "n + pad al a \<le> s")
    case True
    with Cons.prems x have "ys = split_block a s n (pad al a) @ xs" "r = a + pad al a"
      by auto
    then show ?thesis
      using True x by (auto simp: split_block_bytes dest!: tail)
  next
    case False
    with Cons.prems x obtain ys' where "ys = (a, s) # ys'" "first_fit n al xs = (ys', Some r)"
      by (auto split: prod.splits)
    with Cons.IH [of "Suc (a + s)" ys'] Cons.prems(1) x show ?thesis
      by (auto dest!: tail)
  qed
qed simp

lemma first_fit_aligned:
  "first_fit n al xs = (ys, Some r) \<Longrightarrow> 0 < al \<Longrightarrow> al dvd r"
  by (induction xs arbitrary: ys) (auto simp: pad_aligns split: prod.splits if_splits)

lemma first_fit_None_unchanged: "first_fit n al xs = (ys, None) \<Longrightarrow> ys = xs"
  by (induction xs arbitrary: ys) (auto split: prod.splits if_splits)

text \<open>Allocation fails only when no aligned range of free bytes is long enough.\<close>

lemma first_fit_None:
  assumes "first_fit n al xs = (ys, None)" and "(a, s) \<in> set xs"
  shows "s < n + pad al a"
  using assms by (induction xs arbitrary: ys) (auto split: prod.splits if_splits)

lemma first_fit_complete:
  assumes "wf_blocks lo hi xs" and "first_fit n al xs = (ys, None)"
    and "0 < n" and "0 < al" and "al dvd r"
  shows "\<not> {r..<r + n} \<subseteq> bytes xs"
proof
  assume "{r..<r + n} \<subseteq> bytes xs"
  then obtain a s where as: "(a, s) \<in> set xs" "a \<le> r" "r + n \<le> a + s"
    using range_in_block [OF assms(1,3)] by blast
  have "a + pad al a \<le> r" using pad_least [OF assms(4) as(2) assms(5)] .
  with first_fit_None [OF assms(2) as(1)] as(3) show False by linarith
qed

text \<open>A list that describes a whole interval is one block.\<close>

lemma wf_blocks_interval:
  assumes "wf_blocks lo hi xs" and "bytes xs = {lo..<hi}" and "lo < hi"
  shows "xs = [(lo, hi - lo)]"
proof (cases xs)
  case Nil
  then show ?thesis using assms(2,3) by simp
next
  case (Cons x ys)
  obtain a s where x: "x = (a, s)" by (cases x)
  have wf: "wf_blocks lo hi ((a, s) # ys)" using assms(1) Cons x by simp
  have min: "\<forall>y\<in>bytes xs. a \<le> y" using wf_blocks_min(2) [OF wf] Cons x by simp
  have a: "a = lo" using min assms(2,3) wf by (auto intro: antisym)
  have "bytes ((a, s) # ys) = {lo..<hi}" using assms(2) Cons x by simp
  then have "a + s \<notin> {lo..<hi}" using wf_blocks_end [OF wf] by (simp only: not_False_eq_True)
  then have s: "a + s = hi" using a wf by auto
  have "ys = []" using wf s by (cases ys) auto
  then show ?thesis using Cons x a s by auto
qed

section \<open>Release with joining of contiguous blocks\<close>

text \<open>
  \<open>insert_after a n b s xs\<close> releases \<open>(a, n)\<close> into a list whose block \<open>(b, s)\<close> lies
  below \<open>a\<close> and is followed by \<open>xs\<close>.
\<close>

fun join_up :: "nat \<Rightarrow> nat \<Rightarrow> block list \<Rightarrow> block list" where
  "join_up a n [] = [(a, n)]"
| "join_up a n ((b, s) # bs) = (if a + n = b then (a, n + s) # bs else (a, n) # (b, s) # bs)"

fun join_down :: "nat \<Rightarrow> nat \<Rightarrow> block list \<Rightarrow> block list" where
  "join_down b s [] = [(b, s)]"
| "join_down b s ((a, n) # bs) = (if b + s = a then (b, s + n) # bs else (b, s) # (a, n) # bs)"

fun insert_after :: "nat \<Rightarrow> nat \<Rightarrow> nat \<Rightarrow> nat \<Rightarrow> block list \<Rightarrow> block list" where
  "insert_after a n b s [] = join_down b s (join_up a n [])"
| "insert_after a n b s ((c, t) # xs) =
     (if c < a then (b, s) # insert_after a n c t xs
      else join_down b s (join_up a n ((c, t) # xs)))"

fun insert_free :: "nat \<Rightarrow> nat \<Rightarrow> block list \<Rightarrow> block list" where
  "insert_free a n [] = join_up a n []"
| "insert_free a n ((c, t) # xs) =
     (if c < a then insert_after a n c t xs else join_up a n ((c, t) # xs))"

text \<open>A block that may be released: page granular, inside the arena, and not free already.\<close>

definition releasable :: "nat \<Rightarrow> nat \<Rightarrow> block list \<Rightarrow> nat \<Rightarrow> nat \<Rightarrow> bool" where
  "releasable lo hi xs a n \<longleftrightarrow>
     lo \<le> a \<and> a + n \<le> hi \<and> 0 < n \<and> 4096 dvd a \<and> 4096 dvd n
     \<and> {a..<a + n} \<inter> bytes xs = {}"

lemma join_up_bytes [simp]: "bytes (join_up a n xs) = {a..<a + n} \<union> bytes xs"
  by (cases xs) (auto split: if_splits)

lemma join_down_bytes [simp]: "bytes (join_down b s xs) = {b..<b + s} \<union> bytes xs"
  by (cases xs) (auto split: if_splits)

lemma insert_after_bytes [simp]:
  "bytes (insert_after a n b s xs) = {a..<a + n} \<union> {b..<b + s} \<union> bytes xs"
  by (induction a n b s xs rule: insert_after.induct) auto

lemma insert_free_bytes [simp]: "bytes (insert_free a n xs) = {a..<a + n} \<union> bytes xs"
  by (cases xs) (auto split: if_splits)

lemma disjoint_range_above:
  fixes a :: nat
  assumes "{a..<a + n} \<inter> {c..<c + t} = {}" and "0 < n" and "0 < t" and "a \<le> c"
  shows "a + n \<le> c"
proof (rule ccontr)
  assume "\<not> a + n \<le> c"
  then have "c \<in> {a..<a + n} \<inter> {c..<c + t}" using assms by simp
  with assms(1) show False by blast
qed

lemma releasable_below:
  assumes "wf_blocks lo hi ys" and "releasable lo hi ys a n"
    and "\<forall>c t zs. ys = (c, t) # zs \<longrightarrow> a \<le> c"
  shows "wf_blocks (a + n) hi ys"
proof (cases ys)
  case (Cons y zs)
  obtain c t where y: "y = (c, t)" by (cases y)
  have "{a..<a + n} \<inter> {c..<c + t} = {}"
    using assms(2) unfolding Cons y releasable_def bytes_Cons by blast
  moreover have "0 < n" "0 < t" "a \<le> c" using assms Cons y by (auto simp: releasable_def)
  ultimately have "a + n \<le> c" by (rule disjoint_range_above)
  then show ?thesis using assms(1) Cons y by simp
qed simp

lemma join_up_wf:
  assumes "wf_blocks lo hi xs" and "releasable lo hi xs a n"
    and "\<forall>c t ys. xs = (c, t) # ys \<longrightarrow> a \<le> c"
  shows "wf_blocks lo hi (join_up a n xs)"
proof (cases xs)
  case Nil
  then show ?thesis using assms(2) by (auto simp: releasable_def)
next
  case (Cons x ys)
  obtain c t where x: "x = (c, t)" by (cases x)
  have "a + n \<le> c" using releasable_below [OF assms] Cons x by simp
  then show ?thesis
    using assms Cons x by (auto simp: releasable_def wf_blocks_lower)
qed

lemma join_down_wf:
  assumes "wf_blocks (b + s) hi xs" and "lo \<le> b" and "0 < s" and "4096 dvd b"
    and "4096 dvd s" and "b + s \<le> hi"
  shows "wf_blocks lo hi (join_down b s xs)"
  using assms by (cases xs) (auto simp: add.assoc)

lemma releasable_above:
  assumes "wf_blocks lo hi ((b, s) # xs)" and "b < a" and "releasable lo hi ((b, s) # xs) a n"
  shows "b + s \<le> a"
proof (rule disjoint_range_above [of b s a n])
  show "{b..<b + s} \<inter> {a..<a + n} = {}"
    using assms(3) unfolding releasable_def bytes_Cons by blast
qed (use assms in \<open>auto simp: releasable_def\<close>)

lemma insert_after_wf:
  assumes "wf_blocks lo hi ((b, s) # xs)" and "b < a" and "releasable lo hi ((b, s) # xs) a n"
  shows "wf_blocks lo hi (insert_after a n b s xs)"
  using assms
proof (induction xs arbitrary: lo b s)
  case Nil
  have "b + s \<le> a" using releasable_above [OF Nil] .
  with Nil show ?case by (auto simp: releasable_def)
next
  case (Cons x xs)
  obtain c t where x: "x = (c, t)" by (cases x)
  have ba: "b + s \<le> a"
    using releasable_above [OF Cons.prems] .
  show ?case
  proof (cases "c < a")
    case True
    have "Suc (b + s) \<le> a" using True Cons.prems x by auto
    then have "wf_blocks (Suc (b + s)) hi (insert_after a n c t xs)"
      using Cons.IH [of "Suc (b + s)" c t] Cons.prems x True by (auto simp: releasable_def)
    with True x Cons.prems show ?thesis by auto
  next
    case False
    have "wf_blocks (b + s) hi (join_up a n (x # xs))"
      using Cons.prems x False ba
      by (intro join_up_wf) (auto simp: releasable_def wf_blocks_lower)
    with False x Cons.prems show ?thesis
      using join_down_wf [of b s hi "join_up a n (x # xs)" lo] by auto
  qed
qed

lemma insert_free_wf:
  assumes "wf_blocks lo hi xs" and "releasable lo hi xs a n"
  shows "wf_blocks lo hi (insert_free a n xs)"
proof (cases xs)
  case Nil
  with assms show ?thesis by (auto simp: releasable_def)
next
  case (Cons x ys)
  obtain c t where x: "x = (c, t)" by (cases x)
  show ?thesis
  proof (cases "c < a")
    case True
    then show ?thesis using assms Cons x insert_after_wf [of lo hi c t ys a n] by simp
  next
    case False
    then show ?thesis
      using assms Cons x join_up_wf [of lo hi "(c, t) # ys" a n] by simp
  qed
qed

end
