(* ===== verification/AllocInterface.thy ===== *)
theory AllocInterface
  imports Prelude
begin

text \<open>
  The contract between the CMEM driver and the heap of a memory block. The client (the
  ioctl handlers) sees an allocator of byte ranges: a state that stands for a set of free
  bytes, an allocation that returns an address or NULL, and a release. The laws are what
  the driver relies on; the client lemmas keep the account of the buffers handed out.
\<close>

section \<open>The interface\<close>

locale byte_allocator =
  fixes rep :: "'s \<Rightarrow> nat set \<Rightarrow> bool"
    and alloc :: "'s \<Rightarrow> u32 \<Rightarrow> u32 \<Rightarrow> ('s \<times> u32) option"
    and release :: "'s \<Rightarrow> u32 \<Rightarrow> u32 \<Rightarrow> 's option"
    and elsewhere :: "'s \<Rightarrow> 's \<Rightarrow> bool"
    and len :: "u32 \<Rightarrow> nat"
    and valid_size :: "u32 \<Rightarrow> bool"
    and valid_request :: "u32 \<Rightarrow> u32 \<Rightarrow> bool"
    and arena :: "nat set"
  assumes rep_arena: "rep s B \<Longrightarrow> B \<subseteq> arena"
    and request_size: "valid_request sz al \<Longrightarrow> valid_size sz"
    and alloc_law: "rep s B \<Longrightarrow> valid_request sz al \<Longrightarrow>
      \<exists>s' p. alloc s sz al = Some (s', p) \<and> elsewhere s s' \<and>
        (if p = 0 then rep s' B
         else {unat p..<unat p + len sz} \<subseteq> B \<and> 4096 dvd unat p
              \<and> rep s' (B - {unat p..<unat p + len sz}))"
    and release_law: "rep s B \<Longrightarrow> valid_size sz \<Longrightarrow> 4096 dvd unat p \<Longrightarrow>
      {unat p..<unat p + len sz} \<subseteq> arena - B \<Longrightarrow>
      \<exists>s'. release s p sz = Some s' \<and> elsewhere s s' \<and> rep s' (B \<union> {unat p..<unat p + len sz})"
begin

text \<open>
  The client's account: the outstanding allocations \<open>(address, size)\<close>. They do not
  overlap, and together with the free bytes they are the whole arena.
\<close>

definition owned :: "(u32 \<times> u32) list \<Rightarrow> nat set" where
  "owned ps = (\<Union>(p, sz)\<in>set ps. {unat p..<unat p + len sz})"

fun pieces :: "(u32 \<times> u32) list \<Rightarrow> bool" where
  "pieces [] = True"
| "pieces ((p, sz) # ps) =
     (valid_size sz \<and> 4096 dvd unat p \<and> {unat p..<unat p + len sz} \<inter> owned ps = {} \<and> pieces ps)"

definition accounts :: "'s \<Rightarrow> (u32 \<times> u32) list \<Rightarrow> bool" where
  "accounts s ps \<longleftrightarrow> (\<exists>B. rep s B \<and> pieces ps \<and> B \<inter> owned ps = {} \<and> B \<union> owned ps = arena)"

lemma owned_simps [simp]:
  "owned [] = {}" "owned ((p, sz) # ps) = {unat p..<unat p + len sz} \<union> owned ps"
  "owned (ps @ qs) = owned ps \<union> owned qs"
  by (auto simp: owned_def)

lemma pieces_append:
  "pieces (ps @ qs) \<longleftrightarrow> pieces ps \<and> pieces qs \<and> owned ps \<inter> owned qs = {}"
proof (induction ps)
  case (Cons x ps)
  then show ?case by (cases x) auto
qed simp

lemma owned_mset: "mset ps = mset qs \<Longrightarrow> owned ps = owned qs"
  unfolding owned_def by (drule mset_eq_setD) (rule SUP_cong, assumption, rule refl)

lemma pieces_mset: "mset ps = mset qs \<Longrightarrow> pieces ps = pieces qs"
proof (induction ps arbitrary: qs)
  case (Cons x ps)
  obtain p sz where x: "x = (p, sz)" by (cases x)
  have "x \<in> set qs" using mset_eq_setD [OF Cons.prems] by auto
  then obtain q1 q2 where q: "qs = q1 @ x # q2" by (meson split_list)
  then have m: "mset ps = mset (q1 @ q2)" using Cons.prems by simp
  have "pieces ps = pieces (q1 @ q2)" using Cons.IH [OF m] .
  moreover have "owned ps = owned q1 \<union> owned q2" using owned_mset [OF m] by simp
  ultimately have "pieces (x # ps) = (valid_size sz \<and> 4096 dvd unat p
      \<and> {unat p..<unat p + len sz} \<inter> (owned q1 \<union> owned q2) = {}
      \<and> pieces q1 \<and> pieces q2 \<and> owned q1 \<inter> owned q2 = {})"
    by (simp only: x pieces.simps pieces_append)
  also have "\<dots> = pieces (q1 @ x # q2)"
    by (simp only: x pieces.simps pieces_append owned_simps) blast
  finally show ?case by (simp only: q)
qed simp

lemma accounts_mset: "mset ps = mset qs \<Longrightarrow> accounts s ps = accounts s qs"
  unfolding accounts_def by (simp only: pieces_mset [of ps qs] owned_mset [of ps qs])

text \<open>Each operation keeps the account.\<close>

lemma alloc_accounts:
  assumes "accounts s ps" and "valid_request sz al"
  shows "\<exists>s' p. alloc s sz al = Some (s', p) \<and> elsewhere s s'
           \<and> accounts s' (if p = 0 then ps else (p, sz) # ps)"
proof -
  obtain B where B: "rep s B" "pieces ps" "B \<inter> owned ps = {}" "B \<union> owned ps = arena"
    using assms(1) by (auto simp: accounts_def)
  obtain s' p where s': "alloc s sz al = Some (s', p)" "elsewhere s s'"
    "if p = 0 then rep s' B
     else {unat p..<unat p + len sz} \<subseteq> B \<and> 4096 dvd unat p
          \<and> rep s' (B - {unat p..<unat p + len sz})"
    using alloc_law [OF B(1) assms(2)] by blast
  have "accounts s' (if p = 0 then ps else (p, sz) # ps)"
  proof (cases "p = 0")
    case True
    then show ?thesis using B s'(3) by (auto simp: accounts_def)
  next
    case False
    then have p: "{unat p..<unat p + len sz} \<subseteq> B" "4096 dvd unat p"
        "rep s' (B - {unat p..<unat p + len sz})"
      using s'(3) by auto
    have "pieces ((p, sz) # ps)"
      using B p request_size [OF assms(2)] by auto
    moreover have "(B - {unat p..<unat p + len sz}) \<inter> owned ((p, sz) # ps) = {}"
      using B(3) by auto
    moreover have "(B - {unat p..<unat p + len sz}) \<union> owned ((p, sz) # ps) = arena"
      using B(4) p(1) by auto
    ultimately show ?thesis
      using False p(3) unfolding accounts_def by auto
  qed
  with s' show ?thesis by blast
qed

lemma release_accounts:
  assumes "accounts s (ps @ (p, sz) # qs)"
  shows "\<exists>s'. release s p sz = Some s' \<and> elsewhere s s' \<and> accounts s' (ps @ qs)"
proof -
  let ?R = "{unat p..<unat p + len sz}"
  obtain B where B: "rep s B" "pieces (ps @ (p, sz) # qs)" "B \<inter> owned (ps @ (p, sz) # qs) = {}"
      "B \<union> owned (ps @ (p, sz) # qs) = arena"
    using assms by (auto simp: accounts_def)
  have p: "valid_size sz" "4096 dvd unat p" "?R \<inter> owned (ps @ qs) = {}" "pieces (ps @ qs)"
    using B(2) by (auto simp: pieces_append)
  have "?R \<subseteq> arena - B" using B(3,4) by auto
  then obtain s' where s': "release s p sz = Some s'" "elsewhere s s'" "rep s' (B \<union> ?R)"
    using release_law [OF B(1) p(1,2)] by blast
  have "(B \<union> ?R) \<inter> owned (ps @ qs) = {}" "(B \<union> ?R) \<union> owned (ps @ qs) = arena"
    using p(3) B(3,4) by auto
  then show ?thesis using s' p(4) unfolding accounts_def by blast
qed

lemma accounts_arena:
  "accounts s (ps @ (p, sz) # qs) \<Longrightarrow> {unat p..<unat p + len sz} \<subseteq> arena"
  unfolding accounts_def owned_simps by blast

text \<open>A change elsewhere that keeps what the state stands for keeps the account.\<close>

lemma accounts_mono:
  "accounts s ps \<Longrightarrow> (\<And>B. rep s B \<Longrightarrow> rep s' B) \<Longrightarrow> accounts s' ps"
  unfolding accounts_def by blast

text \<open>Two outstanding allocations never share a byte.\<close>

lemma accounts_disjoint:
  assumes "accounts s (ps @ (p, sz) # qs)" and "(p', sz') \<in> set (ps @ qs)"
  shows "{unat p..<unat p + len sz} \<inter> {unat p'..<unat p' + len sz'} = {}"
proof -
  have "{unat p'..<unat p' + len sz'} \<subseteq> owned (ps @ qs)"
    using assms(2) by (auto simp: owned_def)
  moreover have "{unat p..<unat p + len sz} \<inter> owned (ps @ qs) = {}"
    using assms(1) by (auto simp: accounts_def pieces_append)
  ultimately show ?thesis by blast
qed

end

end
