(* ===== verification/HeapRefine.thy ===== *)
theory HeapRefine
  imports HeapMem FreeList AllocInterface
begin

text \<open>
  The header list of \<open>HeapMem\<close> implements the block list of \<open>FreeList\<close>: on a store
  whose list from the head represents a well-formed block list, allocation and release
  end, and their results represent the results of first fit and of insertion with joining.
  The bounds under which this holds are hypotheses, since the code does not check them:
  the rounded size plus the alignment must not exceed the address space, and the alignment
  is a power of two.
\<close>

section \<open>Representation\<close>

fun chain :: "hmem \<Rightarrow> u32 \<Rightarrow> block list \<Rightarrow> bool" where
  "chain m p [] = (p = 0)"
| "chain m p ((a, s) # bs) =
     (p \<noteq> 0 \<and> unat p = a \<and> unat (hdr_size (m (BlockAt p))) = s
      \<and> chain m (hdr_next (m (BlockAt p))) bs)"

definition free_list :: "hmem \<Rightarrow> nat \<Rightarrow> block list \<Rightarrow> bool" where
  "free_list m bi xs = chain m (hdr_next (m (HeadAt bi))) xs"

text \<open>
  \<open>frame prev B m m'\<close>: between the two stores only the next field of \<open>prev\<close> and headers
  at addresses in \<open>B\<close> differ.
\<close>

definition frame :: "hloc \<Rightarrow> nat set \<Rightarrow> hmem \<Rightarrow> hmem \<Rightarrow> bool" where
  "frame prev B m m' \<longleftrightarrow>
     (\<forall>l. l \<noteq> prev \<longrightarrow> (\<forall>w. l = BlockAt w \<longrightarrow> unat w \<notin> B) \<longrightarrow> m' l = m l)
     \<and> hdr_size (m' prev) = hdr_size (m prev)"

lemma frame_refl [simp]: "frame prev B m m"
  by (simp add: frame_def)

lemma frame_next: "frame prev B m (set_next m prev v)"
  by (simp add: frame_def set_next_def)

lemma frame_mono: "frame prev B m m' \<Longrightarrow> B \<subseteq> C \<Longrightarrow> frame prev C m m'"
  unfolding frame_def by blast

lemma chain_cong:
  assumes "wf_blocks lo hi xs" and "\<And>w. unat w \<in> bytes xs \<Longrightarrow> m' (BlockAt w) = m (BlockAt w)"
  shows "chain m' p xs = chain m p xs"
  using assms
proof (induction xs arbitrary: lo p)
  case (Cons x xs)
  obtain a s where x: "x = (a, s)" by (cases x)
  have tail: "chain m' q xs = chain m q xs" for q
    using Cons.IH [of "Suc (a + s)" q] Cons.prems x by auto
  show ?case
  proof (cases "unat p = a")
    case True
    then have "m' (BlockAt p) = m (BlockAt p)" using Cons.prems x by simp
    then show ?thesis by (simp add: x tail)
  qed (simp add: x)
qed simp

lemma unat_power_2: "k < 32 \<Longrightarrow> unat (2 ^ k :: u32) = 2 ^ k"
proof -
  assume "k < 32"
  then have "(2 :: nat) ^ k < 2 ^ 32" by (intro power_strict_increasing) auto
  moreover have "(2 ^ k :: u32) = of_nat (2 ^ k)" by simp
  ultimately show ?thesis by (simp only: unat_of_nat_u32)
qed

section \<open>The adjusted request\<close>

definition fits_address_space :: "u32 \<Rightarrow> u32 \<Rightarrow> bool" where
  "fits_address_space sz al \<longleftrightarrow> round_page (unat sz) + max 4096 (unat al) \<le> 2 ^ 32"

definition power_of_2 :: "u32 \<Rightarrow> bool" where
  "power_of_2 al \<longleftrightarrow> (\<exists>k<32. al = 2 ^ k)"

lemma adjust_size_unat:
  assumes "round_page (unat r) < 2 ^ 32"
  shows "unat (adjust_size r) = round_page (unat r)"
proof (cases "unat r mod 4096 = 0")
  case True
  then show ?thesis
    by (simp add: adjust_size_def HEAP_ALIGN_def PAGE_SIZE_def round_page_def
        and_4095_eq_0 mod_eq_0_iff_dvd)
next
  case False
  have off: "unat (r AND 4095) = unat r mod 4096" by (rule unat_and_4095)
  have "unat (4096 - (r AND 4095)) = 4096 - unat r mod 4096"
    using off by (subst unat_minus_no_wrap) auto
  with False off assms show ?thesis
    using unat_plus_no_wrap [of r "4096 - (r AND 4095)"]
    by (auto simp: adjust_size_def HEAP_ALIGN_def PAGE_SIZE_def round_page_def Let_def)
qed

lemma adjust_align_unat:
  "k < 32 \<Longrightarrow> unat (adjust_align (2 ^ k)) = 2 ^ (max k 12)"
proof -
  assume k: "k < 32"
  have dvd: "(4096 :: nat) dvd 2 ^ k \<longleftrightarrow> 12 \<le> k"
    using dvd_power_iff_le [of 2 12 k] by simp
  have "(2 ^ k :: u32) AND 4095 = 0 \<longleftrightarrow> 12 \<le> k"
    by (simp only: and_4095_eq_0 unat_power_2 [OF k] dvd)
  with k show ?thesis
    by (auto simp: adjust_align_def HEAP_ALIGN_def PAGE_SIZE_def unat_power_2 max_def)
qed

lemma adjust_align_power: "k < 32 \<Longrightarrow> adjust_align (2 ^ k) = 2 ^ (max k 12)"
  by (rule word_unat_eq_iff [THEN iffD2]) (simp add: adjust_align_unat unat_power_2)

lemma align_offset_unat:
  assumes "k < 32"
  shows "unat (align_offset (2 ^ k) cur) = pad (2 ^ k) (unat cur)"
proof -
  have off: "unat (cur AND (2 ^ k - 1)) = unat cur mod 2 ^ k" by (rule unat_and_mask)
  have z: "cur AND (2 ^ k - 1) = 0 \<longleftrightarrow> unat cur mod 2 ^ k = 0"
    using off unat_eq_zero [of "cur AND (2 ^ k - 1)"] by simp
  have "unat (2 ^ k - (cur AND (2 ^ k - 1))) = 2 ^ k - unat cur mod 2 ^ k"
    using off assms by (subst unat_minus_no_wrap) (auto simp: unat_power_2 less_imp_le)
  with z show ?thesis
    by (auto simp: align_offset_def pad_def Let_def)
qed

section \<open>Allocation\<close>

text \<open>Taking an allocation out of the first block of the list.\<close>

lemma carve_refines:
  assumes ch: "chain m cur ((a, s) # bs)" and wf: "wf_blocks lo hi ((a, s) # bs)"
    and hi: "hi < 2 ^ 32" and n: "unat adj = n" "0 < n" and off: "unat offset = d"
    and fit: "n + d \<le> s" and prev: "hdr_next (m prev) = cur"
    and below: "\<And>w. prev = BlockAt w \<Longrightarrow> unat w < lo"
  shows "chain (carve m prev cur adj offset) (hdr_next (carve m prev cur adj offset prev))
           (split_block a s n d @ bs)
         \<and> frame prev (bytes ((a, s) # bs)) m (carve m prev cur adj offset)"
proof -
  let ?m' = "carve m prev cur adj offset"
  let ?new = "cur + offset + adj"
  have cur: "cur \<noteq> 0" "unat cur = a" "unat (hdr_size (m (BlockAt cur))) = s"
    using ch by auto
  have as: "lo \<le> a" "0 < s" "a + s \<le> hi" using wf by auto
  have u1: "unat (cur + offset) = a + d"
    using unat_plus_no_wrap [of cur offset] cur off fit as hi by simp
  have u2: "unat ?new = a + d + n"
    using unat_plus_no_wrap [of "cur + offset" adj] u1 n fit as hi by simp
  have r1: "unat (hdr_size (m (BlockAt cur)) - adj) = s - n"
    using unat_minus_no_wrap [of adj] cur n fit by simp
  have r2: "unat (hdr_size (m (BlockAt cur)) - adj - offset) = s - n - d"
    using unat_minus_no_wrap [of offset] r1 off fit by simp
  have rem: "(hdr_size (m (BlockAt cur)) - adj - offset = 0) = (s - n - d = 0)"
    using r2 unat_eq_zero by metis
  have offz: "(offset = 0) = (d = 0)" using off unat_eq_zero by metis
  have "unat ?new \<noteq> 0" "unat ?new \<noteq> unat cur" using u2 cur(2) n by simp_all
  then have new: "?new \<noteq> 0" "?new \<noteq> cur" by (metis unat_0, metis)
  have pc: "prev \<noteq> BlockAt cur" "prev \<noteq> BlockAt ?new"
    using below [of cur] below [of ?new] as cur u2 by auto
  have tail: "chain ?m' q bs = chain m q bs" for q
  proof (rule chain_cong)
    show "wf_blocks (Suc (a + s)) hi bs" using wf by simp
    fix w :: u32 assume w: "unat w \<in> bytes bs"
    have "a + s < unat w" using wf_blocks_tail_bytes [OF wf w] .
    then have "w \<noteq> cur" "w \<noteq> ?new" "prev \<noteq> BlockAt w"
      using cur u2 fit below [of w] as by auto
    then show "?m' (BlockAt w) = m (BlockAt w)"
      by (auto simp: carve_def Let_def set_next_def set_size_def)
  qed
  have "chain ?m' (hdr_next (?m' prev)) (split_block a s n d @ bs)"
    using ch cur u1 u2 r2 rem off offz new pc tail prev
    by (auto simp: split_block_def carve_def Let_def)
  moreover have "frame prev (bytes ((a, s) # bs)) m ?m'"
    using cur u2 rem as fit n pc r2
    by (auto simp: frame_def carve_def Let_def set_next_def set_size_def)
  ultimately show ?thesis ..
qed

definition alloc_result ::
    "hmem \<Rightarrow> hloc \<Rightarrow> block list \<Rightarrow> block list \<times> nat option \<Rightarrow> (hmem \<times> u32) option \<Rightarrow> bool" where
  "alloc_result m prev xs spec impl =
     (case spec of
        (ys, None) \<Rightarrow> impl = Some (m, 0)
      | (ys, Some r) \<Rightarrow>
          (\<exists>m' p. impl = Some (m', p) \<and> unat p = r \<and> chain m' (hdr_next (m' prev)) ys
             \<and> frame prev (bytes xs) m m'))"

lemma alloc_result_step:
  assumes res: "alloc_result m (BlockAt cur) bs spec impl"
    and ch: "chain m cur ((a, s) # bs)" and wf: "wf_blocks lo hi ((a, s) # bs)"
    and prev: "hdr_next (m prev) = cur" and below: "\<And>w. prev = BlockAt w \<Longrightarrow> unat w < lo"
  shows "alloc_result m prev ((a, s) # bs) (case spec of (ys, r) \<Rightarrow> ((a, s) # ys, r)) impl"
proof (cases "snd spec")
  case None
  with res show ?thesis by (auto simp: alloc_result_def split: prod.splits)
next
  case (Some r)
  then obtain ys m' p where spec: "spec = (ys, Some r)" and impl: "impl = Some (m', p)" "unat p = r"
    and m': "chain m' (hdr_next (m' (BlockAt cur))) ys" "frame (BlockAt cur) (bytes bs) m m'"
    using res by (cases spec) (auto simp: alloc_result_def)
  have cur: "cur \<noteq> 0" "unat cur = a" "lo \<le> a" "0 < s" using ch wf by auto
  have pb: "\<And>w. prev = BlockAt w \<Longrightarrow> unat w \<notin> bytes bs"
    using below wf_blocks_tail_bytes [OF wf] cur by fastforce
  have "prev \<noteq> BlockAt cur" using below [of cur] cur by auto
  then have "m' prev = m prev" using m'(2) pb by (auto simp: frame_def)
  moreover have "hdr_size (m' (BlockAt cur)) = hdr_size (m (BlockAt cur))"
    using m'(2) by (simp add: frame_def)
  moreover have "frame prev (bytes ((a, s) # bs)) m m'"
    unfolding frame_def
  proof (intro conjI allI impI)
    fix l assume l: "l \<noteq> prev" "\<forall>w. l = BlockAt w \<longrightarrow> unat w \<notin> bytes ((a, s) # bs)"
    then have "l \<noteq> BlockAt cur" using cur by auto
    with l m'(2) show "m' l = m l" by (simp add: frame_def)
  qed (simp add: \<open>m' prev = m prev\<close>)
  ultimately show ?thesis
    using spec impl m'(1) prev ch cur by (auto simp: alloc_result_def)
qed

lemma alloc_loop_refines:
  assumes "chain m cur xs" and "wf_blocks lo hi xs" and "hi < 2 ^ 32"
    and "unat adj = n" and "0 < n" and "k < 32" and "n + 2 ^ k \<le> 2 ^ 32"
    and "hdr_next (m prev) = cur" and "\<And>w. prev = BlockAt w \<Longrightarrow> unat w < lo"
  shows "alloc_result m prev xs (first_fit n (2 ^ k) xs) (alloc_loop adj (2 ^ k) False m prev cur)"
  using assms
proof (induction xs arbitrary: lo prev cur)
  case Nil
  then show ?case by (simp add: alloc_result_def alloc_loop.simps)
next
  case (Cons x bs)
  obtain a s where x: "x = (a, s)" by (cases x)
  note ch = Cons.prems(1) [unfolded x] and wf = Cons.prems(2) [unfolded x]
  have cur: "cur \<noteq> 0" "unat cur = a" "unat (hdr_size (m (BlockAt cur))) = s" "lo \<le> a" "a + s \<le> hi"
    using ch wf by auto
  let ?off = "align_offset (2 ^ k) cur"
  have off: "unat ?off = pad (2 ^ k) a"
    using align_offset_unat [OF Cons.prems(6), of cur] cur by simp
  have "pad (2 ^ k) a < 2 ^ k" by (rule pad_less) simp
  then have sum: "unat (adj + ?off) = n + pad (2 ^ k) a"
    using unat_plus_no_wrap [of adj ?off] off Cons.prems(4,7) by simp
  have test: "(adj + ?off \<le> hdr_size (m (BlockAt cur))) = (n + pad (2 ^ k) a \<le> s)"
    using sum cur by (simp add: word_le_nat_alt)
  show ?case
  proof (cases "n + pad (2 ^ k) a \<le> s")
    case True
    have "unat (cur + ?off) = a + pad (2 ^ k) a"
      using unat_plus_no_wrap [of cur ?off] off cur True Cons.prems(3,5) by simp
    then show ?thesis
      using True test x cur(1) carve_refines [OF ch wf Cons.prems(3,4,5) off True Cons.prems(8,9)]
      by (auto simp: alloc_result_def alloc_loop.simps [of _ _ _ _ _ cur] Let_def)
  next
    case False
    have "alloc_result m (BlockAt cur) bs (first_fit n (2 ^ k) bs)
        (alloc_loop adj (2 ^ k) False m (BlockAt cur) (hdr_next (m (BlockAt cur))))"
      using Cons.IH [of "hdr_next (m (BlockAt cur))" "Suc (a + s)" "BlockAt cur"]
        Cons.prems(3-7) ch wf cur by auto
    from alloc_result_step [OF this ch wf Cons.prems(8,9)] show ?thesis
      using False test x cur(1) by (simp add: alloc_loop.simps [of _ _ _ _ _ cur])
  qed
qed

text \<open>A dry run returns what the real run would return and changes nothing.\<close>

lemma alloc_loop_dryrun:
  "chain m cur xs \<Longrightarrow> alloc_loop adj al True m prev cur =
     map_option (\<lambda>(m', p). (m, p)) (alloc_loop adj al False m prev cur)"
proof (induction xs arbitrary: prev cur)
  case (Cons x xs)
  then show ?case
    by (cases x) (simp add: alloc_loop.simps [of _ _ _ _ _ cur] Let_def)
qed (simp add: alloc_loop.simps)

section \<open>Release\<close>

definition same_outside :: "nat set \<Rightarrow> hloc set \<Rightarrow> hmem \<Rightarrow> hmem \<Rightarrow> bool" where
  "same_outside B L m m' \<longleftrightarrow>
     (\<forall>l. l \<notin> L \<longrightarrow> (\<forall>w. l = BlockAt w \<longrightarrow> unat w \<notin> B) \<longrightarrow> m' l = m l)"

lemma same_outsideD:
  "same_outside B L m m' \<Longrightarrow> BlockAt w \<notin> L \<Longrightarrow> unat w \<notin> B \<Longrightarrow> m' (BlockAt w) = m (BlockAt w)"
  by (simp add: same_outside_def)

lemma same_outside_mono:
  "same_outside B L m m' \<Longrightarrow> B \<subseteq> C \<Longrightarrow> same_outside C L m m'"
  unfolding same_outside_def by blast

definition linked :: "hmem \<Rightarrow> u32 \<Rightarrow> u32 \<Rightarrow> hloc \<Rightarrow> u32 \<Rightarrow> hmem" where
  "linked m new sz cur nx =
     join_upper (set_next (set_size (set_next m (BlockAt new) nx) (BlockAt new) sz) cur new)
       new sz nx"

lemma link_block_linked: "link_block m new sz cur nx = join_lower (linked m new sz cur nx) cur new"
  by (simp add: link_block_def linked_def)

text \<open>Linking and the join with the upper neighbour.\<close>

lemma linked_fields:
  assumes new: "unat new = a" and fresh: "\<And>w. cur = BlockAt w \<Longrightarrow> unat w < a"
  shows "cur \<noteq> BlockAt new" and "hdr_next (linked m new sz cur nx cur) = new"
    and "hdr_size (linked m new sz cur nx cur) = hdr_size (m cur)"
    and "same_outside {a} {cur} m (linked m new sz cur nx)"
    and "a < unat w \<Longrightarrow> linked m new sz cur nx (BlockAt w) = m (BlockAt w)"
proof -
  show cn: "cur \<noteq> BlockAt new" using fresh [of new] new by auto
  show "hdr_next (linked m new sz cur nx cur) = new" "hdr_size (linked m new sz cur nx cur) = hdr_size (m cur)"
    using cn by (auto simp: linked_def join_upper_def Let_def)
  show "same_outside {a} {cur} m (linked m new sz cur nx)"
    using new by (auto simp: same_outside_def linked_def join_upper_def Let_def set_next_def set_size_def)
  show "linked m new sz cur nx (BlockAt w) = m (BlockAt w)" if "a < unat w"
    using that fresh [of w] new by (auto simp: linked_def join_upper_def Let_def set_next_def set_size_def)
qed

lemma linked_chain:
  assumes ch: "chain m nx ys" and wf: "wf_blocks (a + n) hi ys" and hi: "a + n \<le> hi" "hi < 2 ^ 32"
    and new: "unat new = a" "0 < a" and n: "unat sz = n" "0 < n"
    and fresh: "\<And>w. cur = BlockAt w \<Longrightarrow> unat w < a"
  shows "chain (linked m new sz cur nx) new (join_up a n ys)"
proof (cases ys)
  case Nil
  then show ?thesis
    using ch new n linked_fields(1) [OF new(1) fresh] by (auto simp: linked_def join_upper_def)
next
  case (Cons y zs)
  let ?m = "linked m new sz cur nx"
  note cn = linked_fields(1) [OF new(1) fresh]
  have same: "?m (BlockAt w) = m (BlockAt w)" if "a < unat w" for w
    by (rule linked_fields(5) [OF new(1) _ that]) (rule fresh)
  have nz: "new \<noteq> 0" using new by auto
  obtain c t where y: "y = (c, t)" by (cases y)
  have c: "nx \<noteq> 0" "unat nx = c" "unat (hdr_size (m (BlockAt nx))) = t" "a + n \<le> c"
      "c + t \<le> hi" and zs: "chain m (hdr_next (m (BlockAt nx))) zs"
      and wz: "wf_blocks (Suc (c + t)) hi zs"
    using ch wf Cons y by auto
  have "unat (new + sz) = a + n"
    using unat_plus_no_wrap [of new sz] new n hi by simp
  then have cond: "(new + sz = nx) = (a + n = c)"
    using c(2) by (metis word_unat_eq_iff)
  have nn: "BlockAt nx \<noteq> cur" "nx \<noteq> new" using fresh [of nx] c new n by auto
  have wz': "wf_blocks (Suc a) hi zs" using wf_blocks_lower [OF wz, of "Suc a"] c by simp
  have tz: "chain ?m q zs = chain m q zs" for q
    using wf_blocks_bytes [OF wz'] same by (intro chain_cong [of "Suc a" hi, OF wz']) fastforce
  show ?thesis
  proof (cases "a + n = c")
    case True
    have "unat (sz + hdr_size (m (BlockAt nx))) = n + t"
      using unat_plus_no_wrap [of sz "hdr_size (m (BlockAt nx))"] n c True hi by simp
    then show ?thesis
      using True cond c nz nn cn new n zs tz Cons y
      by (auto simp: linked_def join_upper_def Let_def)
  next
    case False
    have "chain ?m nx ((c, t) # zs)"
      using c zs tz same [of nx] n by simp
    moreover have "hdr_next (?m (BlockAt new)) = nx" "unat (hdr_size (?m (BlockAt new))) = n"
      using False cond cn n by (auto simp: linked_def join_upper_def)
    ultimately show ?thesis using False nz new Cons y by simp
  qed
qed

text \<open>The join with the lower neighbour.\<close>

lemma join_lower_refines:
  assumes ch: "chain m new zs" and wf: "wf_blocks (b + s) hi zs" and zs: "zs = (a, n) # ys"
    and cur: "cur \<noteq> 0" "unat cur = b" "unat (hdr_size (m (BlockAt cur))) = s" "0 < s"
    and nxt: "hdr_next (m (BlockAt cur)) = new" and hi: "b + s \<le> hi" "hi < 2 ^ 32"
  shows "chain (join_lower m (BlockAt cur) new) cur (join_down b s zs)"
    and "same_outside {b} {} m (join_lower m (BlockAt cur) new)"
proof -
  let ?m = "join_lower m (BlockAt cur) new"
  have new: "new \<noteq> 0" "unat new = a" "unat (hdr_size (m (BlockAt new))) = n" "b + s \<le> a"
      "a + n \<le> hi" and ys: "chain m (hdr_next (m (BlockAt new))) ys"
      and wy: "wf_blocks (Suc (a + n)) hi ys"
    using ch wf zs by auto
  have sum: "unat (cur + hdr_size (m (BlockAt cur))) = b + s"
    using unat_plus_no_wrap [of cur "hdr_size (m (BlockAt cur))"] cur hi by simp
  have cond: "(cur + hdr_size (m (BlockAt cur)) = new) = (b + s = a)"
    using sum new(2) by (metis word_unat_eq_iff)
  have same: "?m (BlockAt w) = m (BlockAt w)" if "b < unat w" for w
    using that cur by (auto simp: join_lower_def Let_def set_next_def set_size_def)
  have tail: "chain ?m q ys = chain m q ys" for q
    using wf_blocks_bytes [OF wy] new same cur(4) by (intro chain_cong [OF wy]) fastforce
  have cn: "cur \<noteq> new" using cur new by auto
  show "same_outside {b} {} m ?m"
    using cur by (auto simp: same_outside_def join_lower_def Let_def set_next_def set_size_def)
  show "chain ?m cur (join_down b s zs)"
  proof (cases "b + s = a")
    case True
    have "unat (hdr_size (m (BlockAt cur)) + hdr_size (m (BlockAt new))) = s + n"
      using unat_plus_no_wrap [of "hdr_size (m (BlockAt cur))"] new cur True hi by simp
    then show ?thesis
      using True cond cur cn ys tail zs by (auto simp: join_lower_def Let_def)
  next
    case False
    have "chain ?m new ((a, n) # ys)" using new ys tail same [of new] cur(4) by simp
    then show ?thesis
      using False cond cur nxt zs by (simp add: join_lower_def)
  qed
qed

lemma join_up_head: "\<exists>n' ys'. join_up a n ys = (a, n') # ys'"
  by (cases ys) (auto split: if_splits)

text \<open>Linking right behind the block at \<open>cur\<close>: both joins.\<close>

lemma link_block_refines:
  assumes cur: "cur \<noteq> 0" "unat cur = b" "unat (hdr_size (m (BlockAt cur))) = s" "0 < s"
    and ch: "chain m nx ys" and wf: "wf_blocks lo hi ((b, s) # ys)" and hi: "hi < 2 ^ 32"
    and rel: "releasable lo hi ((b, s) # ys) a n" and ba: "b < a"
    and above: "\<forall>c t zs. ys = (c, t) # zs \<longrightarrow> a \<le> c"
    and new: "unat new = a" and n: "unat sz = n"
  shows "chain (link_block m new sz (BlockAt cur) nx) cur (join_down b s (join_up a n ys))"
    and "same_outside {a, b} {} m (link_block m new sz (BlockAt cur) nx)"
proof -
  let ?m = "linked m new sz (BlockAt cur) nx"
  have bs: "b + s \<le> a" using releasable_above [OF wf ba rel] .
  have an: "a + n \<le> hi" "0 < n" using rel by (auto simp: releasable_def)
  have rel': "releasable (b + s) hi ys a n" and wy: "wf_blocks (b + s) hi ys"
    using rel bs wf by (auto simp: releasable_def wf_blocks_lower)
  have wan: "wf_blocks (a + n) hi ys" using releasable_below [OF wy rel' above] .
  have fresh: "unat w < a" if "BlockAt cur = BlockAt w" for w
    using that cur(2) ba by simp
  have a0: "0 < a" using ba by simp
  note L = linked_chain [where cur = "BlockAt cur", OF ch wan an(1) hi new a0 n an(2) fresh]
    linked_fields(2-4) [where cur = "BlockAt cur" and m = m and sz = sz and nx = nx, OF new fresh]
  obtain n' ys' where ju: "join_up a n ys = (a, n') # ys'" using join_up_head by blast
  have wju: "wf_blocks (b + s) hi (join_up a n ys)" using join_up_wf [OF wy rel' above] .
  have csz: "unat (hdr_size (?m (BlockAt cur))) = s" using L(3) cur(3) by simp
  have bhi: "b + s \<le> hi" using wf by simp
  note J = join_lower_refines [OF L(1) wju ju cur(1,2) csz cur(4) L(2) bhi hi]
  show "chain (link_block m new sz (BlockAt cur) nx) cur (join_down b s (join_up a n ys))"
    using J(1) by (simp add: link_block_linked)
  show "same_outside {a, b} {} m (link_block m new sz (BlockAt cur) nx)"
    using J(2) L(4) cur(2) by (auto simp: link_block_linked same_outside_def)
qed

lemma insert_after_refines:
  assumes "chain m cur ((b, s) # xs)" and "wf_blocks lo hi ((b, s) # xs)" and "hi < 2 ^ 32"
    and "releasable lo hi ((b, s) # xs) a n" and "b < a" and "unat new = a" and "unat sz = n"
  shows "\<exists>p q. free_walk m new (BlockAt cur) (hdr_next (m (BlockAt cur))) = Some (p, q)
           \<and> chain (link_block m new sz p q) cur (insert_after a n b s xs)
           \<and> same_outside ({a} \<union> bytes ((b, s) # xs)) {} m (link_block m new sz p q)"
  using assms
proof (induction xs arbitrary: lo cur b s)
  case Nil
  then have "hdr_next (m (BlockAt cur)) = 0" by simp
  then show ?case
    using Nil link_block_refines [of cur b m s 0 "[]" lo hi a n new sz]
    by (auto simp: free_walk.simps elim: same_outside_mono)
next
  case (Cons x ys)
  obtain c t where x: "x = (c, t)" by (cases x)
  let ?nx = "hdr_next (m (BlockAt cur))"
  have cur: "cur \<noteq> 0" "unat cur = b" "unat (hdr_size (m (BlockAt cur))) = s" "0 < s"
    and ch: "chain m ?nx ((c, t) # ys)" and wf: "wf_blocks (Suc (b + s)) hi ((c, t) # ys)"
    using Cons.prems x by auto
  have nx: "?nx \<noteq> 0" "unat ?nx = c" using ch by auto
  have bs: "b + s \<le> a" using releasable_above [OF Cons.prems(2,5,4)] .
  show ?case
  proof (cases "c < a")
    case True
    have "releasable (Suc (b + s)) hi ((c, t) # ys) a n"
      using Cons.prems(4) x wf True unfolding releasable_def by auto
    from Cons.IH [OF ch wf Cons.prems(3) this True Cons.prems(6,7)] obtain p q where
      IH: "free_walk m new (BlockAt ?nx) (hdr_next (m (BlockAt ?nx))) = Some (p, q)"
        "chain (link_block m new sz p q) ?nx (insert_after a n c t ys)"
        "same_outside ({a} \<union> bytes ((c, t) # ys)) {} m (link_block m new sz p q)"
      by blast
    have "unat cur \<notin> {a} \<union> bytes ((c, t) # ys)"
      using wf_blocks_bytes [OF wf] cur(2) Cons.prems(5) by auto
    then have "link_block m new sz p q (BlockAt cur) = m (BlockAt cur)"
      using IH(3) by (simp add: same_outside_def)
    moreover have "free_walk m new (BlockAt cur) ?nx = Some (p, q)"
      using IH(1) nx True Cons.prems(6) by (simp add: free_walk.simps [of _ _ _ ?nx] word_less_nat_alt)
    moreover have "same_outside ({a} \<union> bytes ((b, s) # x # ys)) {} m (link_block m new sz p q)"
      using IH(3) x by (auto elim: same_outside_mono)
    ultimately show ?thesis
      using True x cur IH(2) by auto
  next
    case False
    have "free_walk m new (BlockAt cur) ?nx = Some (BlockAt cur, ?nx)"
      using nx False Cons.prems(6) by (simp add: free_walk.simps word_less_nat_alt)
    then show ?thesis
      using False x ch link_block_refines
        [OF cur ch Cons.prems(2) [unfolded x] Cons.prems(3) Cons.prems(4) [unfolded x]
          Cons.prems(5) _ Cons.prems(6,7)] cur
      by (auto elim: same_outside_mono)
  qed
qed

section \<open>The two operations\<close>

text \<open>The stores in which block \<open>bi\<close> has the well-formed free list \<open>xs\<close> in \<open>[lo, hi)\<close>.\<close>

definition heap_rep :: "nat \<Rightarrow> nat \<Rightarrow> nat \<Rightarrow> hmem \<Rightarrow> block list \<Rightarrow> bool" where
  "heap_rep bi lo hi m xs \<longleftrightarrow>
     free_list m bi xs \<and> wf_blocks lo hi xs \<and> 0 < lo \<and> hi < 2 ^ 32"

definition alloc_align :: "u32 \<Rightarrow> nat" where
  "alloc_align al = max 4096 (unat al)"

lemma alloc_align_power: "k < 32 \<Longrightarrow> alloc_align (2 ^ k) = 2 ^ (max k 12)"
proof -
  assume k: "k < 32"
  have "max (2 ^ 12) (2 ^ k) = (2 :: nat) ^ (max k 12)"
  proof (cases "k \<le> 12")
    case True
    then have "(2 :: nat) ^ k \<le> 2 ^ 12" by (intro power_increasing) auto
    with True show ?thesis by (simp only: max_absorb1 max_absorb2)
  next
    case False
    then have "12 \<le> k" by simp
    moreover from this have "(2 :: nat) ^ 12 \<le> 2 ^ k" by (rule power_increasing) simp
    ultimately show ?thesis by (simp only: max_absorb1 max_absorb2)
  qed
  then show ?thesis by (simp add: alloc_align_def unat_power_2 [OF k])
qed

lemma HeapMem_alloc_refines:
  assumes rep: "heap_rep bi lo hi m xs" and al: "power_of_2 al"
    and sz: "0 < unat sz" and fits: "fits_address_space sz al"
  shows "alloc_result m (HeadAt bi) xs
           (first_fit (round_page (unat sz)) (alloc_align al) xs) (HeapMem_alloc bi sz al False m)"
proof -
  obtain k where k: "k < 32" "al = 2 ^ k" using al by (auto simp: power_of_2_def)
  have le: "round_page (unat sz) + 2 ^ (max k 12) \<le> 2 ^ 32"
    using fits alloc_align_power [OF k(1)] k(2)
    by (simp add: fits_address_space_def alloc_align_def)
  have "0 < (2 :: nat) ^ (max k 12)" by simp
  then have rp: "round_page (unat sz) < 2 ^ 32" using le by linarith
  have "alloc_result m (HeadAt bi) xs (first_fit (round_page (unat sz)) (2 ^ (max k 12)) xs)
      (alloc_loop (adjust_size sz) (2 ^ (max k 12)) False m (HeadAt bi) (hdr_next (m (HeadAt bi))))"
    using rep k(1) le sz rp
    by (intro alloc_loop_refines [where lo = lo and hi = hi]) (auto simp: heap_rep_def free_list_def adjust_size_unat round_page_pos)
  then show ?thesis
    using k by (simp add: HeapMem_alloc_def adjust_align_power alloc_align_power)
qed

lemma heap_rep_frame:
  assumes "heap_rep bi lo hi m xs" and "wf_blocks lo hi ys" and "chain m' (hdr_next (m' (HeadAt bi))) ys"
  shows "heap_rep bi lo hi m' ys"
  using assms by (simp add: heap_rep_def free_list_def)

text \<open>The walk from the head ends where the block belongs, and linking it there does what inserting it
  in the list does.\<close>

lemma free_walk_refines:
  fixes m bi sz
  defines "nx \<equiv> hdr_next (m (HeadAt bi))"
  assumes wf: "wf_blocks lo hi xs" and ch: "chain m nx xs" and hi: "hi < 2 ^ 32" and lo: "0 < lo"
    and rel: "releasable lo hi xs (unat addr) n" and sz: "unat sz = n"
  shows "\<exists>p q. free_walk m addr (HeadAt bi) nx = Some (p, q)
      \<and> chain (link_block m addr sz p q) (hdr_next (link_block m addr sz p q (HeadAt bi)))
          (insert_free (unat addr) n xs)
      \<and> same_outside ({unat addr} \<union> bytes xs) {HeadAt bi} m (link_block m addr sz p q)"
proof (cases "\<exists>c t ys. xs = (c, t) # ys \<and> c < unat addr")
  case True
  then obtain c t ys where xs: "xs = (c, t) # ys" "c < unat addr" by blast
  have nx: "nx \<noteq> 0" "unat nx = c" using ch xs by auto
  obtain p q where pq: "free_walk m addr (BlockAt nx) (hdr_next (m (BlockAt nx))) = Some (p, q)"
      "chain (link_block m addr sz p q) nx (insert_after (unat addr) n c t ys)"
      "same_outside ({unat addr} \<union> bytes xs) {} m (link_block m addr sz p q)"
    using insert_after_refines [OF ch [unfolded xs] wf [unfolded xs] hi rel [unfolded xs] xs(2) refl sz] xs
    by auto
  have "link_block m addr sz p q (HeadAt bi) = m (HeadAt bi)"
    using pq(3) by (simp add: same_outside_def)
  then have ch': "chain (link_block m addr sz p q)
      (hdr_next (link_block m addr sz p q (HeadAt bi))) (insert_free (unat addr) n xs)"
    using pq(2) xs by (simp only: insert_free.simps if_True nx_def)
  have "free_walk m addr (HeadAt bi) nx = Some (p, q)"
    using pq(1) nx xs(2) by (simp add: free_walk.simps [of _ _ _ nx] word_less_nat_alt)
  moreover have "same_outside ({unat addr} \<union> bytes xs) {HeadAt bi} m (link_block m addr sz p q)"
    using pq(3) unfolding same_outside_def by blast
  ultimately show ?thesis using ch' by blast
next
  case False
  have an: "lo \<le> unat addr" "unat addr + n \<le> hi" "0 < n" using rel by (auto simp: releasable_def)
  have wan: "wf_blocks (unat addr + n) hi xs"
    using False by (intro releasable_below [OF wf rel]) auto
  have walk: "free_walk m addr (HeadAt bi) nx = Some (HeadAt bi, nx)"
  proof -
    have "\<not> (nx \<noteq> 0 \<and> nx < addr)"
      using ch False by (cases xs) (auto simp: word_less_nat_alt)
    then show ?thesis by (subst free_walk.simps) (simp only: if_False)
  qed
  have ins: "insert_free (unat addr) n xs = join_up (unat addr) n xs"
    using False by (cases xs) auto
  have fresh: "unat w < unat addr" if "HeadAt bi = BlockAt w" for w using that by simp
  have a0: "0 < unat addr" using an lo by linarith
  note L = linked_chain [where cur = "HeadAt bi", OF ch wan an(2) hi refl a0 sz an(3) fresh]
    linked_fields(2-4) [where cur = "HeadAt bi" and m = m and sz = sz and nx = nx, OF refl fresh]
  show ?thesis
    using walk ins L(1,2) same_outside_mono [OF L(4), of "{unat addr} \<union> bytes xs"]
    by (auto simp: link_block_linked join_lower_def nx_def)
qed

lemma HeapMem_free_refines:
  assumes rep: "heap_rep bi lo hi m xs" and rel: "releasable lo hi xs (unat addr) (round_page (unat sz))"
  shows "\<exists>m'. HeapMem_free bi addr sz m = Some m'
           \<and> heap_rep bi lo hi m' (insert_free (unat addr) (round_page (unat sz)) xs)
           \<and> same_outside ({unat addr} \<union> bytes xs) {HeadAt bi} m m'"
proof -
  have h: "wf_blocks lo hi xs" "chain m (hdr_next (m (HeadAt bi))) xs" "hi < 2 ^ 32" "0 < lo"
    using rep by (auto simp: heap_rep_def free_list_def)
  have "unat addr + round_page (unat sz) \<le> hi" using rel by (simp add: releasable_def)
  then have "unat (adjust_size sz) = round_page (unat sz)" using h(3) by (intro adjust_size_unat) linarith
  from free_walk_refines [OF h rel this] show ?thesis
    using insert_free_wf [OF h(1) rel] h(3,4) by (auto simp: HeapMem_free_def heap_rep_def free_list_def)
qed

section \<open>The heap as an allocator of byte ranges\<close>

definition heap_bytes :: "nat \<Rightarrow> nat \<Rightarrow> nat \<Rightarrow> hmem \<Rightarrow> nat set \<Rightarrow> bool" where
  "heap_bytes bi lo hi m B \<longleftrightarrow> (\<exists>xs. heap_rep bi lo hi m xs \<and> bytes xs = B)"

definition good_size :: "u32 \<Rightarrow> bool" where
  "good_size sz \<longleftrightarrow> 0 < unat sz \<and> round_page (unat sz) < 2 ^ 32"

definition good_request :: "u32 \<Rightarrow> u32 \<Rightarrow> bool" where
  "good_request sz al \<longleftrightarrow> 0 < unat sz \<and> power_of_2 al \<and> fits_address_space sz al"

lemma same_outside_refl [simp]: "same_outside B L m m"
  by (simp add: same_outside_def)

lemma frame_same_outside: "frame prev B m m' \<Longrightarrow> B \<subseteq> C \<Longrightarrow> same_outside C {prev} m m'"
  unfolding frame_def same_outside_def by blast

lemma alloc_align_pow: "power_of_2 al \<Longrightarrow> 4096 dvd alloc_align al \<and> 0 < alloc_align al"
proof -
  assume "power_of_2 al"
  then obtain k where k: "k < 32" "al = 2 ^ k" by (auto simp: power_of_2_def)
  have "(2 :: nat) ^ 12 dvd 2 ^ (max k 12)" by (rule le_imp_power_dvd) simp
  then show ?thesis using k by (simp add: alloc_align_power)
qed

lemma HeapMem_alloc_bytes:
  assumes rep: "heap_rep bi lo hi m xs" and req: "good_request sz al"
  shows "\<exists>m' p. HeapMem_alloc bi sz al False m = Some (m', p)
           \<and> same_outside {lo..<hi} {HeadAt bi} m m'
           \<and> (if p = 0 then heap_rep bi lo hi m' xs
              else {unat p..<unat p + round_page (unat sz)} \<subseteq> bytes xs
                   \<and> alloc_align al dvd unat p
                   \<and> heap_bytes bi lo hi m' (bytes xs - {unat p..<unat p + round_page (unat sz)}))"
proof -
  let ?n = "round_page (unat sz)"
  have R: "0 < unat sz" "power_of_2 al" "fits_address_space sz al"
    using req by (auto simp: good_request_def)
  have wf: "wf_blocks lo hi xs" and lo: "0 < lo" using rep by (auto simp: heap_rep_def)
  note al = alloc_align_pow [OF R(2)]
  note res = HeapMem_alloc_refines [OF rep R(2,1,3)]
  obtain ys r where ff: "first_fit ?n (alloc_align al) xs = (ys, r)" by fastforce
  show ?thesis
  proof (cases r)
    case None
    with res ff rep show ?thesis by (auto simp: alloc_result_def)
  next
    case (Some a)
    with res ff obtain m' p where m': "HeapMem_alloc bi sz al False m = Some (m', p)" "unat p = a"
        "chain m' (hdr_next (m' (HeadAt bi))) ys" "frame (HeadAt bi) (bytes xs) m m'"
      by (auto simp: alloc_result_def)
    have b: "bytes ys = bytes xs - {a..<a + ?n}" "{a..<a + ?n} \<subseteq> bytes xs"
      using first_fit_bytes [OF wf] ff Some by auto
    have "wf_blocks lo hi ys"
      using first_fit_wf [OF wf ff] R(1) al by (simp add: round_page_pos)
    then have rep': "heap_rep bi lo hi m' ys" using heap_rep_frame [OF rep _ m'(3)] by simp
    have "a \<in> bytes xs" using b(2) R(1) round_page_pos [of "unat sz"] by auto
    then have "p \<noteq> 0" using wf_blocks_bytes [OF wf] lo m'(2) by (cases "p = 0") auto
    moreover have "same_outside {lo..<hi} {HeadAt bi} m m'"
      using frame_same_outside [OF m'(4) wf_blocks_bytes [OF wf]] .
    moreover have "alloc_align al dvd a"
      using first_fit_aligned [OF ff [unfolded Some]] al by simp
    ultimately show ?thesis
      using m' b rep' unfolding heap_bytes_def by auto
  qed
qed

interpretation heap: byte_allocator
    "heap_bytes bi lo hi" "\<lambda>m sz al. HeapMem_alloc bi sz al False m"
    "\<lambda>m p sz. HeapMem_free bi p sz m" "same_outside {lo..<hi} {HeadAt bi}"
    "\<lambda>sz. round_page (unat sz)" good_size good_request "{lo..<hi}"
  for bi lo hi
proof unfold_locales
  fix m B assume "heap_bytes bi lo hi m B"
  then show "B \<subseteq> {lo..<hi}"
    using wf_blocks_bytes by (auto simp: heap_bytes_def heap_rep_def)
next
  fix sz al assume R: "good_request sz al"
  then have "round_page (unat sz) + 4096 \<le> 2 ^ 32"
    unfolding good_request_def fits_address_space_def using max.cobounded1 [of 4096 "unat al"] by linarith
  then show "good_size sz" using R by (simp add: good_request_def good_size_def)
next
  fix m B sz al
  assume "heap_bytes bi lo hi m B" and req: "good_request sz al"
  then obtain xs where xs: "heap_rep bi lo hi m xs" "bytes xs = B" by (auto simp: heap_bytes_def)
  have "power_of_2 al" using req by (simp add: good_request_def)
  from alloc_align_pow [OF this] have al: "4096 dvd alloc_align al" ..
  from HeapMem_alloc_bytes [OF xs(1) req] show "\<exists>m' p. HeapMem_alloc bi sz al False m = Some (m', p)
      \<and> same_outside {lo..<hi} {HeadAt bi} m m'
      \<and> (if p = 0 then heap_bytes bi lo hi m' B
         else {unat p..<unat p + round_page (unat sz)} \<subseteq> B \<and> 4096 dvd unat p
              \<and> heap_bytes bi lo hi m' (B - {unat p..<unat p + round_page (unat sz)}))"
    using xs(2) dvd_trans [OF al] by (auto simp: heap_bytes_def split: if_splits)
next
  fix m B and sz p :: u32
  let ?R = "{unat p..<unat p + round_page (unat sz)}"
  assume "heap_bytes bi lo hi m B" and sz: "good_size sz" and p: "4096 dvd unat p"
    and R: "?R \<subseteq> {lo..<hi} - B"
  then obtain xs where xs: "heap_rep bi lo hi m xs" "bytes xs = B" by (auto simp: heap_bytes_def)
  have n: "0 < round_page (unat sz)" using sz by (simp add: good_size_def round_page_pos)
  have "unat p \<in> ?R" "unat p + round_page (unat sz) - 1 \<in> ?R" using n by auto
  then have ends: "unat p \<in> {lo..<hi} - B" "unat p + round_page (unat sz) - 1 \<in> {lo..<hi} - B"
    using R by blast+
  then have rel: "releasable lo hi xs (unat p) (round_page (unat sz))"
    using R n p xs(2) unfolding releasable_def by auto
  have wf: "bytes xs \<subseteq> {lo..<hi}" using xs(1) wf_blocks_bytes by (auto simp: heap_rep_def)
  obtain m' where m': "HeapMem_free bi p sz m = Some m'"
      "heap_rep bi lo hi m' (insert_free (unat p) (round_page (unat sz)) xs)"
      "same_outside ({unat p} \<union> bytes xs) {HeadAt bi} m m'"
    using HeapMem_free_refines [OF xs(1) rel] by blast
  have "{unat p} \<union> bytes xs \<subseteq> {lo..<hi}" using wf ends(1) by blast
  then have "same_outside {lo..<hi} {HeadAt bi} m m'"
    using m'(3) same_outside_mono by blast
  moreover have "heap_bytes bi lo hi m' (B \<union> ?R)"
    using m'(2) xs(2) unfolding heap_bytes_def
    by (intro exI [of _ "insert_free (unat p) (round_page (unat sz)) xs"]) auto
  ultimately show "\<exists>m'. HeapMem_free bi p sz m = Some m' \<and> same_outside {lo..<hi} {HeadAt bi} m m'
      \<and> heap_bytes bi lo hi m' (B \<union> ?R)"
    using m'(1) by blast
qed

end
