(* ===== verification/HeapProps.thy ===== *)
theory HeapProps
  imports HeapRefine
begin

text \<open>
  The properties of the heap of \<open>cmemk/cmemk.c\<close>, over the C code's model of \<open>HeapMem\<close>,
  with a small concrete heap on which each of them is applied.
\<close>

section \<open>A concrete heap\<close>

text \<open>Two free blocks, of two pages and of eight.\<close>

definition demo_heap :: hmem where
  "demo_heap = (\<lambda>_. \<lparr>hdr_next = 0, hdr_size = 0\<rparr>)
     (HeadAt 0 := \<lparr>hdr_next = 0x1000, hdr_size = 0\<rparr>,
      BlockAt 0x1000 := \<lparr>hdr_next = 0x4000, hdr_size = 0x2000\<rparr>,
      BlockAt 0x4000 := \<lparr>hdr_next = 0, hdr_size = 0x8000\<rparr>)"

definition demo_blocks :: "block list" where
  "demo_blocks = [(0x1000, 0x2000), (0x4000, 0x8000)]"

lemma demo_rep: "heap_rep 0 0x1000 0xc000 demo_heap demo_blocks"
  by (simp add: heap_rep_def free_list_def demo_heap_def demo_blocks_def)

lemma round_page_page [simp]: "round_page (n * 4096) = n * 4096"
  by (simp add: round_page_def)

lemma demo_request: "good_request 0x2345 0x2000"
  by (auto simp: good_request_def power_of_2_def fits_address_space_def round_page_def intro: exI [of _ "13"])

section \<open>Helper lemmas\<close>

lemma alloc_steps:
  assumes "heap_rep bi lo hi m xs" and "good_request sz al"
    and ff: "first_fit (round_page (unat sz)) (alloc_align al) xs = (ys, r)"
  shows "case r of
           None \<Rightarrow> HeapMem_alloc bi sz al False m = Some (m, 0)
         | Some a \<Rightarrow> \<exists>m' p. HeapMem_alloc bi sz al False m = Some (m', p)
             \<and> p \<noteq> 0 \<and> unat p = a \<and> heap_rep bi lo hi m' ys"
proof -
  have R: "0 < unat sz" "power_of_2 al" "fits_address_space sz al"
    using assms(2) by (auto simp: good_request_def)
  have n: "0 < round_page (unat sz)" using R(1) by (simp add: round_page_pos)
  note res = HeapMem_alloc_refines [OF assms(1) R(2,1,3)]
  have wf: "wf_blocks lo hi xs" "0 < lo" using assms(1) by (auto simp: heap_rep_def)
  have wf': "wf_blocks lo hi ys"
    using first_fit_wf [OF wf(1) ff] alloc_align_pow [OF R(2)] n by simp
  have "0 < a" if "r = Some a" for a
    using first_fit_bytes [OF wf(1)] ff that n wf_blocks_bytes [OF wf(1)] wf(2) by fastforce
  with res ff heap_rep_frame [OF assms(1) wf'] show ?thesis
    by (fastforce simp: alloc_result_def split: option.splits)
qed

lemma adjust_size_zero: "sz = 0 \<or> 0xfffff000 < sz \<Longrightarrow> adjust_size sz = 0"
proof (elim disjE)
  assume big: "0xfffff000 < sz"
  have lt: "unat sz < 0x100000000" using unat_less_2p32 [of sz] by simp
  have u: "0xfffff000 < unat sz" using big by (simp add: word_less_nat_alt)
  have m: "unat sz mod 4096 = unat sz - 0xfffff000"
  proof -
    have "unat sz = (unat sz - 0xfffff000) + 0xfffff * 4096" using u by simp
    moreover have "unat sz - 0xfffff000 < 4096" using lt u by linarith
    ultimately show ?thesis by (metis mod_less mod_mult_self1)
  qed
  have off: "unat (sz AND 4095) = unat sz - 0xfffff000" by (simp add: unat_and_4095 m)
  moreover have "unat sz - 0xfffff000 \<le> 4096" using lt u by linarith
  ultimately have "unat (4096 - (sz AND 4095)) = 4096 - (unat sz - 0xfffff000)"
    by (subst unat_minus_no_wrap) simp_all
  then have "unat (sz + (4096 - (sz AND 4095))) = 0"
    using u le_add_diff_inverse [OF less_imp_le [OF lt]] by (simp add: unat_word_ariths)
  moreover have "sz AND 4095 \<noteq> 0" using off u by auto
  ultimately show ?thesis
    by (simp add: adjust_size_def HEAP_ALIGN_def PAGE_SIZE_def Let_def unat_eq_zero)
qed (simp add: adjust_size_def)

lemma good_request_pos:
  assumes "good_request sz al"
  shows "adjust_size sz + align_offset (adjust_align al) cur \<noteq> 0"
proof -
  obtain k where k: "k < 32" "al = 2 ^ k" using assms by (auto simp: good_request_def power_of_2_def)
  have le: "round_page (unat sz) + 2 ^ (max k 12) \<le> 2 ^ 32" and n: "0 < round_page (unat sz)"
    using assms k alloc_align_power [OF k(1)]
    by (auto simp: good_request_def fits_address_space_def alloc_align_def round_page_pos)
  have p: "0 < (2 :: nat) ^ (max k 12)" by simp
  have sz: "unat (adjust_size sz) = round_page (unat sz)"
    using le p by (intro adjust_size_unat) linarith
  have mk: "max k 12 < 32" using k(1) by simp
  have "unat (align_offset (adjust_align al) cur) = pad (2 ^ (max k 12)) (unat cur)"
    using align_offset_unat [OF mk] by (simp add: adjust_align_power k)
  also have "\<dots> < 2 ^ (max k 12)" by (rule pad_less) simp
  finally have "unat (adjust_size sz) + unat (align_offset (adjust_align al) cur) < 2 ^ 32"
    using sz le by linarith
  then have "unat (adjust_size sz + align_offset (adjust_align al) cur)
      = unat (adjust_size sz) + unat (align_offset (adjust_align al) cur)"
    by (intro unat_plus_no_wrap)
  then have "0 < unat (adjust_size sz + align_offset (adjust_align al) cur)" using sz n by linarith
  then show ?thesis by (rule contrapos_pn) simp
qed

text \<open>A header of size zero that points to itself is a loop no real request leaves.\<close>

lemma alloc_loop_self:
  assumes "h \<noteq> 0" and "hdr_next (m (BlockAt h)) = h"
    and "\<not> hdr_size (m (BlockAt h)) \<ge> adj + align_offset al h"
  shows "alloc_loop adj al False m prev h = None"
proof -
  have no: "\<not> (a = adj \<and> b = al \<and> \<not> d \<and> m1 = m \<and> c = h)"
    if "alloc_loop a b d m1 p c = Some r" for a b d m1 p c r
  proof (rule alloc_loop.raw_induct [where P = "\<lambda>a b d m1 p c r. \<not> (a = adj \<and> b = al \<and> \<not> d \<and> m1 = m \<and> c = h)", OF _ that])
    fix f a b d m1 p c r
    assume IH: "\<And>a b d m1 p c r. f a b d m1 p c = Some r \<Longrightarrow> \<not> (a = adj \<and> b = al \<and> \<not> d \<and> m1 = m \<and> c = h)"
      and run: "(if c \<noteq> 0 then
        let curSize = hdr_size (m1 (BlockAt c)); offset = align_offset b c
        in if a + offset \<le> curSize then
             (if d then Some (m1, c + offset) else Some (carve m1 p c a offset, c + offset))
           else f a b d m1 (BlockAt c) (hdr_next (m1 (BlockAt c)))
      else Some (m1, 0)) = Some r"
    show "\<not> (a = adj \<and> b = al \<and> \<not> d \<and> m1 = m \<and> c = h)"
    proof
      assume eq: "a = adj \<and> b = al \<and> \<not> d \<and> m1 = m \<and> c = h"
      then have "f adj al d m (BlockAt h) h = Some r" using run assms by (simp add: Let_def)
      from IH [OF this] eq show False by blast
    qed
  qed
  show ?thesis
  proof (cases "alloc_loop adj al False m prev h")
    case (Some r)
    from no [OF this] show ?thesis by blast
  qed
qed

section \<open>Properties\<close>

text \<open>C1: On a well-formed heap, an allocation request that is not empty, whose alignment is
  a power of two and that does not wrap around, ends and does exactly first fit on the
  abstract list of free blocks: it returns NULL and leaves the heap as it was, or it
  returns the address first fit chooses, and the headers in memory then form the list
  first fit leaves.\<close>

theorem HeapMem_alloc_is_first_fit:
  assumes "heap_rep bi lo hi m xs" and "good_request sz al"
  shows "case first_fit (round_page (unat sz)) (alloc_align al) xs of
           (ys, None) \<Rightarrow> HeapMem_alloc bi sz al False m = Some (m, 0)
         | (ys, Some a) \<Rightarrow> \<exists>m' p. HeapMem_alloc bi sz al False m = Some (m', p)
             \<and> p \<noteq> 0 \<and> unat p = a \<and> heap_rep bi lo hi m' ys"
proof -
  obtain ys r where ff: "first_fit (round_page (unat sz)) (alloc_align al) xs = (ys, r)" by fastforce
  show ?thesis using alloc_steps [OF assms ff] ff by (auto split: option.splits)
qed

theorem HeapMem_alloc_is_first_fit_witness:
  "\<exists>m' p. HeapMem_alloc 0 0x2345 0x2000 False demo_heap = Some (m', p) \<and> unat p = 0x4000
     \<and> heap_rep 0 0x1000 0xc000 m' [(0x1000, 0x2000), (0x7000, 0x5000)]"
proof -
  have "first_fit (round_page (unat (0x2345 :: u32))) (alloc_align 0x2000) demo_blocks
      = ([(0x1000, 0x2000), (0x7000, 0x5000)], Some 0x4000)"
    by (simp add: demo_blocks_def alloc_align_def round_page_def pad_def split_block_def)
  with HeapMem_alloc_is_first_fit [OF demo_rep demo_request] show ?thesis by auto
qed

text \<open>C13: The heap never refuses a request it can serve and never serves one it cannot: on a
  well-formed heap the allocation returns NULL exactly when no aligned range of free bytes
  of the rounded size exists; otherwise it returns such a range, aligned to the requested
  power of two and at least to a page, and removes exactly these bytes from the free ones.\<close>

theorem HeapMem_alloc_complete:
  assumes rep: "heap_rep bi lo hi m xs" and req: "good_request sz al"
  shows "if \<exists>r. alloc_align al dvd r \<and> {r..<r + round_page (unat sz)} \<subseteq> bytes xs
         then \<exists>m' p ys. HeapMem_alloc bi sz al False m = Some (m', p) \<and> p \<noteq> 0
                \<and> alloc_align al dvd unat p
                \<and> {unat p..<unat p + round_page (unat sz)} \<subseteq> bytes xs
                \<and> heap_rep bi lo hi m' ys
                \<and> bytes ys = bytes xs - {unat p..<unat p + round_page (unat sz)}
         else HeapMem_alloc bi sz al False m = Some (m, 0)"
proof -
  let ?n = "round_page (unat sz)"
  have R: "0 < unat sz" "power_of_2 al" using req by (auto simp: good_request_def)
  have wf: "wf_blocks lo hi xs" using rep by (simp add: heap_rep_def)
  have al: "0 < alloc_align al" using alloc_align_pow [OF R(2)] by simp
  obtain ys r where ff: "first_fit ?n (alloc_align al) xs = (ys, r)" by fastforce
  note step = alloc_steps [OF rep req ff]
  show ?thesis
  proof (cases r)
    case None
    with first_fit_complete [OF wf _ _ al] ff R(1) step show ?thesis
      by (auto simp: round_page_pos)
  next
    case (Some a)
    have "bytes ys = bytes xs - {a..<a + ?n}" "{a..<a + ?n} \<subseteq> bytes xs" "alloc_align al dvd a"
      using first_fit_bytes [OF wf] first_fit_aligned [OF _ al] ff Some by blast+
    with step Some show ?thesis by auto
  qed
qed

theorem HeapMem_alloc_complete_witness:
  "HeapMem_alloc 0 0x8001 0x1000 False demo_heap = Some (demo_heap, 0)"
proof -
  have req: "good_request 0x8001 0x1000"
    by (auto simp: good_request_def power_of_2_def fits_address_space_def round_page_def intro: exI [of _ "12"])
  have "\<not> {r..<r + 0x9000} \<subseteq> bytes demo_blocks" for r
  proof
    assume R: "{r..<r + 0x9000} \<subseteq> bytes demo_blocks"
    have "r \<in> {r..<r + 0x9000}" "r + 0x8fff \<in> {r..<r + 0x9000}" by auto
    with R have "r \<in> bytes demo_blocks" "r + 0x8fff \<in> bytes demo_blocks" by blast+
    then have r: "0x1000 \<le> r" "r < 0x3000" by (auto simp: demo_blocks_def)
    then have "0x3000 \<in> {r..<r + 0x9000}" by simp
    with R have "0x3000 \<in> bytes demo_blocks" by blast
    then show False by (simp add: demo_blocks_def)
  qed
  with HeapMem_alloc_complete [OF demo_rep req] show ?thesis
    by (simp add: alloc_align_def round_page_def split: if_splits)
qed

text \<open>C14: Freeing a range of the block that is page aligned and shares no byte with the free
  memory ends and makes exactly these bytes free: the header list is again well formed,
  so contiguous free blocks have been joined, and nothing outside the free memory and the
  header of the freed range was written.\<close>

theorem HeapMem_free_joins:
  assumes "heap_rep bi lo hi m xs" and "releasable lo hi xs (unat addr) (round_page (unat sz))"
  shows "\<exists>m' ys. HeapMem_free bi addr sz m = Some m' \<and> heap_rep bi lo hi m' ys
           \<and> bytes ys = bytes xs \<union> {unat addr..<unat addr + round_page (unat sz)}
           \<and> (\<forall>w. unat w \<notin> bytes xs \<and> w \<noteq> addr \<longrightarrow> m' (BlockAt w) = m (BlockAt w))"
proof -
  obtain m' where m': "HeapMem_free bi addr sz m = Some m'"
      "heap_rep bi lo hi m' (insert_free (unat addr) (round_page (unat sz)) xs)"
      "same_outside ({unat addr} \<union> bytes xs) {HeadAt bi} m m'"
    using HeapMem_free_refines [OF assms] by blast
  have "m' (BlockAt w) = m (BlockAt w)" if "unat w \<notin> bytes xs" "w \<noteq> addr" for w
    using that by (intro same_outsideD [OF m'(3)]) (auto simp: word_unat_eq_iff)
  then show ?thesis using m'(1,2) by (intro exI [of _ m'] exI conjI) (auto simp: Un_commute)
qed

theorem HeapMem_free_joins_witness:
  "\<exists>m' ys. HeapMem_free 0 0x3000 0xfff demo_heap = Some m' \<and> heap_rep 0 0x1000 0xc000 m' ys
     \<and> bytes ys = {0x1000..<0xc000}"
proof -
  have "releasable 0x1000 0xc000 demo_blocks (unat (0x3000 :: u32)) (round_page (unat (0xfff :: u32)))"
    by (auto simp: releasable_def demo_blocks_def round_page_def)
  from HeapMem_free_joins [OF demo_rep this] obtain m' ys where
      m': "HeapMem_free 0 0x3000 0xfff demo_heap = Some m'" "heap_rep 0 0x1000 0xc000 m' ys"
      "bytes ys = bytes demo_blocks \<union> {unat (0x3000 :: u32)..<unat (0x3000 :: u32) + round_page (unat (0xfff :: u32))}"
    by blast
  have "bytes ys = {0x1000..<0xc000}"
    unfolding m'(3) by (auto simp: demo_blocks_def round_page_def)
  with m'(1,2) show ?thesis by blast
qed

text \<open>C12: An allocation followed by the release of the allocated buffer with the same size
  restores the free list: the same headers, at the same addresses, in the same order.\<close>

theorem HeapMem_alloc_free_roundtrip:
  assumes rep: "heap_rep bi lo hi m xs" and req: "good_request sz al"
    and alloc: "HeapMem_alloc bi sz al False m = Some (m', p)" and "p \<noteq> 0"
  shows "\<exists>m''. HeapMem_free bi p sz m' = Some m'' \<and> heap_rep bi lo hi m'' xs"
proof -
  let ?n = "round_page (unat sz)"
  have wf: "wf_blocks lo hi xs" using rep by (simp add: heap_rep_def)
  have R: "0 < unat sz" "power_of_2 al" using req by (auto simp: good_request_def)
  obtain ys r where ff: "first_fit ?n (alloc_align al) xs = (ys, r)" by fastforce
  with alloc_steps [OF rep req] alloc \<open>p \<noteq> 0\<close>
  have ra: "r = Some (unat p)" and rep': "heap_rep bi lo hi m' ys" by (auto split: option.splits)
  have b: "bytes ys = bytes xs - {unat p..<unat p + ?n}" "{unat p..<unat p + ?n} \<subseteq> bytes xs"
    using first_fit_bytes [OF wf] ff ra by blast+
  have n: "0 < ?n" using R(1) by (simp add: round_page_pos)
  have al: "4096 dvd unat p"
    using first_fit_aligned ff ra alloc_align_pow [OF R(2)] dvd_trans by blast
  have "unat p \<in> bytes xs" "unat p + ?n - 1 \<in> bytes xs" using b(2) n by auto
  then have "lo \<le> unat p" "unat p + ?n \<le> hi" using wf_blocks_bytes [OF wf] by fastforce+
  then have rel: "releasable lo hi ys (unat p) ?n" using n al b by (auto simp: releasable_def)
  obtain m'' where m'': "HeapMem_free bi p sz m' = Some m''"
      "heap_rep bi lo hi m'' (insert_free (unat p) ?n ys)"
    using HeapMem_free_refines [OF rep' rel] by blast
  have "bytes (insert_free (unat p) ?n ys) = bytes xs" using b by auto
  then have "insert_free (unat p) ?n ys = xs"
    using wf_blocks_canonical [of lo hi "insert_free (unat p) ?n ys" xs] m''(2) wf
    by (simp add: heap_rep_def)
  with m'' show ?thesis by auto
qed

theorem HeapMem_alloc_free_roundtrip_witness:
  "\<exists>m' p m''. HeapMem_alloc 0 0x2345 0x2000 False demo_heap = Some (m', p)
     \<and> HeapMem_free 0 p 0x2345 m' = Some m'' \<and> heap_rep 0 0x1000 0xc000 m'' demo_blocks"
proof -
  have "first_fit (round_page (unat (0x2345 :: u32))) (alloc_align 0x2000) demo_blocks
      = ([(0x1000, 0x2000), (0x7000, 0x5000)], Some 0x4000)"
    by (simp add: demo_blocks_def alloc_align_def round_page_def pad_def split_block_def)
  with alloc_steps [OF demo_rep demo_request] obtain m' p where
      "HeapMem_alloc 0 0x2345 0x2000 False demo_heap = Some (m', p)" "p \<noteq> 0" by auto
  with HeapMem_alloc_free_roundtrip [OF demo_rep demo_request this] show ?thesis by blast
qed

text \<open>A dry run, which GETPOOL uses to ask whether the heap could serve a request, ends for
  every request whatsoever, returns the address the real allocation would return, and
  leaves the heap unchanged.\<close>

theorem HeapMem_alloc_dryrun:
  assumes "heap_rep bi lo hi m xs"
  shows "\<exists>p m'. HeapMem_alloc bi sz al True m = Some (m, p)
           \<and> HeapMem_alloc bi sz al False m = Some (m', p)"
proof -
  have ch: "chain m (hdr_next (m (HeadAt bi))) xs" using assms by (simp add: heap_rep_def free_list_def)
  have "\<exists>p m'. alloc_loop s a False m prev cur = Some (m', p)" if "chain m cur xs" for s a prev cur
    using that
  proof (induction xs arbitrary: prev cur)
    case (Cons x xs)
    then have "chain m (hdr_next (m (BlockAt cur))) xs" by (cases x) auto
    from Cons.IH [OF this, of "BlockAt cur"] show ?case
      by (subst alloc_loop.simps) (auto simp: Let_def)
  qed (simp add: alloc_loop.simps [of _ _ _ _ _ 0])
  with ch show ?thesis
    by (fastforce simp: HeapMem_alloc_def alloc_loop_dryrun [OF ch])
qed

theorem HeapMem_alloc_dryrun_witness:
  "\<exists>p m'. HeapMem_alloc 0 0 3 True demo_heap = Some (demo_heap, p)
     \<and> HeapMem_alloc 0 0 3 False demo_heap = Some (m', p)"
  by (rule HeapMem_alloc_dryrun [OF demo_rep])

text \<open>C18: The code does not reject a request that is empty or whose size wraps around when it is
  rounded up to a page (\<open>size > 0xFFFFF000\<close>). Such a request succeeds and returns the
  address of the first free block without removing it. When that buffer is freed with its
  size, the header points to itself, and no later regular allocation of that block ever
  returns: the caller spins with the mutex of the driver held.\<close>

theorem HeapMem_empty_request_destroys_heap:
  assumes rep: "heap_rep bi lo hi m ((a, s) # xs)" and sz: "sz = 0 \<or> 0xfffff000 < sz"
  shows "HeapMem_alloc bi sz 4096 False m = Some (m, of_nat a)
         \<and> (\<exists>m'. HeapMem_free bi (of_nat a) sz m = Some m'
              \<and> (\<forall>sz' al'. good_request sz' al' \<longrightarrow> HeapMem_alloc bi sz' al' False m' = None))"
proof
  define h where "h = hdr_next (m (HeadAt bi))"
  have h: "h \<noteq> 0" "unat h = a" "unat (hdr_size (m (BlockAt h))) = s" and wf: "wf_blocks lo hi ((a, s) # xs)"
    using rep by (auto simp: heap_rep_def free_list_def h_def)
  have ha: "of_nat a = h" using h(2) by auto
  have s: "hdr_size (m (BlockAt h)) \<noteq> 0" using h(3) wf by auto
  have z: "adjust_size sz = 0" using sz by (rule adjust_size_zero)
  have off: "align_offset (adjust_align 4096) h = 0"
    using wf h(2) unat_and_4095 [of h]
    by (auto simp: align_offset_def adjust_align_def HEAP_ALIGN_def PAGE_SIZE_def and_4095_eq_0)
  have "carve m (HeadAt bi) h 0 0 = m"
    using s by (auto simp: carve_def Let_def set_next_def set_size_def h_def fun_eq_iff)
  then show "HeapMem_alloc bi sz 4096 False m = Some (m, of_nat a)"
    using h(1) off
    by (simp add: HeapMem_alloc_def z h_def [symmetric] ha alloc_loop.simps [of _ _ _ _ _ h])
  let ?m = "link_block m h 0 (HeadAt bi) h"
  have free: "HeapMem_free bi h sz m = Some ?m"
    by (simp add: HeapMem_free_def z h_def [symmetric] free_walk.simps [of _ _ _ h])
  have loop: "hdr_next (?m (HeadAt bi)) = h" "hdr_next (?m (BlockAt h)) = h" "hdr_size (?m (BlockAt h)) = 0"
    using h(1) by (simp_all add: link_block_def join_upper_def join_lower_def Let_def)
  have "HeapMem_alloc bi sz' al' False ?m = None" if "good_request sz' al'" for sz' al'
  proof -
    have "adjust_size sz' + align_offset (adjust_align al') h \<noteq> 0"
      using that by (rule good_request_pos)
    then show ?thesis
      using alloc_loop_self [where m = ?m, OF h(1) loop(2)] loop(1,3) by (simp add: HeapMem_alloc_def)
  qed
  with free ha show "\<exists>m'. HeapMem_free bi (of_nat a) sz m = Some m'
      \<and> (\<forall>sz' al'. good_request sz' al' \<longrightarrow> HeapMem_alloc bi sz' al' False m' = None)"
    by auto
qed

theorem HeapMem_empty_request_destroys_heap_witness:
  "HeapMem_alloc 0 0xfffff001 4096 False demo_heap = Some (demo_heap, 0x1000)
   \<and> (\<exists>m'. HeapMem_free 0 0x1000 0xfffff001 demo_heap = Some m'
        \<and> HeapMem_alloc 0 0x2345 0x2000 False m' = None)"
  using HeapMem_empty_request_destroys_heap [OF demo_rep [unfolded demo_blocks_def], of "0xfffff001"]
    demo_request by auto

end
