(* ===== verification/CmemState.thy ===== *)
theory CmemState
  imports HeapRefine
begin

text \<open>
  The data of the CMEM driver (\<open>cmemk/cmemk.c\<close>): pool buffers with their registered
  users, pools with a free list and a busy list, the two memory blocks, and the search and
  address-translation helpers every entry point uses. Kernel lists are lists; an entry is
  on one list only, so its position stands for its \<open>list_head\<close>. The kernel's address
  translation is a parameter, the record \<open>mm\<close>.
\<close>

section \<open>Data\<close>

definition NBLOCKS :: nat where
  "NBLOCKS = 2"

text \<open>\<open>MAX_POOLS\<close> is set by \<open>cmemk/Makefile\<close>.\<close>

definition MAX_POOLS :: nat where
  "MAX_POOLS = 4"

definition CMEM_VERSION :: u32 where "CMEM_VERSION = 0x03000100"
definition CMEM_WB :: u32 where "CMEM_WB = 0x00010000"
definition CMEM_INV :: u32 where "CMEM_INV = 0x00020000"
definition CMEM_HEAP :: u32 where "CMEM_HEAP = 0x00040000"
definition CMEM_CACHED :: u32 where "CMEM_CACHED = 0x00080000"
definition CMEM_PHYS :: u32 where "CMEM_PHYS = 0x00100000"
definition CMEM_IOCMAGIC :: u32 where "CMEM_IOCMAGIC = 0x0000fe00"
definition CMEM_IOCCMDMASK :: u32 where "CMEM_IOCCMDMASK = 0x000000ff"

text \<open>The base commands, and the flavours of the cache command.\<close>

definition CMEM_IOCALLOC :: u32 where [simp]: "CMEM_IOCALLOC = 1"
definition CMEM_IOCALLOCHEAP :: u32 where [simp]: "CMEM_IOCALLOCHEAP = 2"
definition CMEM_IOCFREE :: u32 where [simp]: "CMEM_IOCFREE = 3"
definition CMEM_IOCGETPHYS :: u32 where [simp]: "CMEM_IOCGETPHYS = 4"
definition CMEM_IOCGETSIZE :: u32 where [simp]: "CMEM_IOCGETSIZE = 5"
definition CMEM_IOCGETPOOL :: u32 where [simp]: "CMEM_IOCGETPOOL = 6"
definition CMEM_IOCCACHE :: u32 where [simp]: "CMEM_IOCCACHE = 7"
definition CMEM_IOCGETVERSION :: u32 where [simp]: "CMEM_IOCGETVERSION = 8"
definition CMEM_IOCGETBLOCK :: u32 where [simp]: "CMEM_IOCGETBLOCK = 9"
definition CMEM_IOCREGUSER :: u32 where [simp]: "CMEM_IOCREGUSER = 10"
definition CMEM_IOCGETNUMBLOCKS :: u32 where [simp]: "CMEM_IOCGETNUMBLOCKS = 11"

definition CMEM_IOCCACHEWBINV :: u32 where [simp]: "CMEM_IOCCACHEWBINV = CMEM_IOCCACHE OR CMEM_WB OR CMEM_INV"
definition CMEM_IOCCACHEWB :: u32 where [simp]: "CMEM_IOCCACHEWB = CMEM_IOCCACHE OR CMEM_WB"
definition CMEM_IOCCACHEINV :: u32 where [simp]: "CMEM_IOCCACHEINV = CMEM_IOCCACHE OR CMEM_INV"

text \<open>A file is a number, the identity of its \<open>struct file\<close>.\<close>

type_synonym filp = nat

record pool_buffer =
  pb_id :: int
  physp :: u32
  flags :: u32
  kvirtp :: u32
  pb_size :: u32
  users :: "filp list"

record pool_object =
  freelist :: "pool_buffer list"
  busylist :: "pool_buffer list"
  numbufs :: u32
  po_size :: u32
  reqsize :: u32

text \<open>Calls of the cache maintenance functions, in order (address and length).\<close>

datatype cache_op = Cache_clean u32 u32 | Cache_inv u32 u32 | Cache_flush u32 u32

record cmem =
  p_objs :: "nat \<Rightarrow> nat \<Rightarrow> pool_object"
  npools :: "nat \<Rightarrow> nat"
  heap_pool :: "nat \<Rightarrow> int"
  store :: hmem
  heap_size :: "nat \<Rightarrow> u32"
  heap_virtp :: "nat \<Rightarrow> u32"
  block_virtp :: "nat \<Rightarrow> u32"
  block_virtoff :: "nat \<Rightarrow> u32"
  block_virtend :: "nat \<Rightarrow> u32"
  block_start :: "nat \<Rightarrow> u32"
  block_end :: "nat \<Rightarrow> u32"
  block_avail_size :: "nat \<Rightarrow> u32"
  total_num_buffers :: "nat \<Rightarrow> u32"
  nblocks :: u32
  reference_count :: int
  useHeapIfPoolUnavailable :: bool
  cache_ops :: "cache_op list"

definition upd_pool :: "nat \<Rightarrow> nat \<Rightarrow> (pool_object \<Rightarrow> pool_object) \<Rightarrow> cmem \<Rightarrow> cmem" where
  "upd_pool bi i f st = st\<lparr>p_objs := (p_objs st)(bi := (p_objs st bi)(i := f (p_objs st bi i)))\<rparr>"

section \<open>Address translation\<close>

record vma =
  vm_start :: u32
  vm_end :: u32
  vm_pgoff :: u32
  vm_io :: bool

text \<open>
  The kernel functions \<open>get_phys\<close> calls: \<open>virt_to_phys\<close> (also \<open>__pa\<close>), \<open>find_vma\<close> and
  \<open>get_user_pages\<close> with \<open>page_address\<close> (\<open>None\<close>: the page could not be pinned).
\<close>

record mm =
  PAGE_OFFSET :: u32
  virt_to_phys :: "u32 \<Rightarrow> u32"
  find_vma :: "u32 \<Rightarrow> vma option"
  user_page :: "u32 \<Rightarrow> u32 option"

definition block_of :: "cmem \<Rightarrow> u32 \<Rightarrow> nat option" where
  "block_of st virtp =
     find (\<lambda>bi. virtp \<ge> block_virtp st bi \<and> virtp < block_virtend st bi) [0..<NBLOCKS]"

definition get_phys :: "mm \<Rightarrow> cmem \<Rightarrow> u32 \<Rightarrow> u32" where
  "get_phys mm st virtp =
     (case block_of st virtp of
        Some bi \<Rightarrow> virtp - block_virtoff st bi
      | None \<Rightarrow>
          if virtp \<ge> PAGE_OFFSET mm then virt_to_phys mm virtp
          else
            let via_user_page = (case user_page mm virtp of
                Some page \<Rightarrow> virt_to_phys mm (page + (virtp AND (PAGE_SIZE - 1)))
              | None \<Rightarrow> - 1)
            in case find_vma mm virtp of
                 Some vma \<Rightarrow>
                   if vm_io vma \<and> vm_pgoff vma \<noteq> 0
                   then push_bit PAGE_SHIFT (vm_pgoff vma) + (virtp - vm_start vma)
                   else via_user_page
               | None \<Rightarrow> via_user_page)"

section \<open>Searching the busy lists\<close>

definition num_pools :: "cmem \<Rightarrow> nat \<Rightarrow> nat" where
  "num_pools st bi = (if heap_pool st bi \<noteq> -1 then npools st bi + 1 else npools st bi)"

text \<open>A hit is the entry, its position on the busy list, the pool and the block.\<close>

type_synonym hit = "pool_buffer \<times> nat \<times> nat \<times> nat"

fun scan_busylist :: "u32 \<Rightarrow> nat \<Rightarrow> nat \<Rightarrow> nat \<Rightarrow> pool_buffer list \<Rightarrow> hit option" where
  "scan_busylist p bi i k [] = None"
| "scan_busylist p bi i k (entry # es) =
     (if physp entry = p then Some (entry, k, i, bi) else scan_busylist p bi i (Suc k) es)"

fun scan_pools :: "cmem \<Rightarrow> u32 \<Rightarrow> nat \<Rightarrow> nat list \<Rightarrow> hit option" where
  "scan_pools st p bi [] = None"
| "scan_pools st p bi (i # is) =
     (case scan_busylist p bi i 0 (busylist (p_objs st bi i)) of
        Some h \<Rightarrow> Some h
      | None \<Rightarrow> scan_pools st p bi is)"

fun scan_blocks :: "cmem \<Rightarrow> u32 \<Rightarrow> nat list \<Rightarrow> hit option" where
  "scan_blocks st p [] = None"
| "scan_blocks st p (bi # bis) =
     (case scan_pools st p bi [0..<num_pools st bi] of
        Some h \<Rightarrow> Some h
      | None \<Rightarrow> scan_blocks st p bis)"

definition find_busy_entry :: "cmem \<Rightarrow> u32 \<Rightarrow> hit option" where
  "find_busy_entry st p = scan_blocks st p [0..<NBLOCKS]"

definition remove_nth :: "nat \<Rightarrow> 'a list \<Rightarrow> 'a list" where
  "remove_nth k xs = take k xs @ drop (Suc k) xs"

text \<open>What a hit says about the state.\<close>

lemma scan_busylist_Some:
  "scan_busylist p bi i k es = Some (e, k', i', bi') \<Longrightarrow>
     i' = i \<and> bi' = bi \<and> k \<le> k' \<and> k' - k < length es \<and> es ! (k' - k) = e \<and> physp e = p"
proof (induction es arbitrary: k)
  case (Cons a es)
  show ?case
  proof (cases "physp a = p")
    case False
    with Cons have "i' = i \<and> bi' = bi \<and> Suc k \<le> k' \<and> k' - Suc k < length es
        \<and> es ! (k' - Suc k) = e \<and> physp e = p" by auto
    then show ?thesis by (auto simp: nth_Cons' Suc_diff_le)
  qed (use Cons in auto)
qed simp

lemma case_option_or_None:
  "(case x of Some h \<Rightarrow> Some h | None \<Rightarrow> y) = None \<longleftrightarrow> x = None \<and> y = None"
  by (cases x) auto

lemma scan_busylist_None:
  "scan_busylist p bi i k es = None \<longleftrightarrow> (\<forall>e\<in>set es. physp e \<noteq> p)"
  by (induction es arbitrary: k) auto

lemma scan_pools_Some:
  "scan_pools st p bi is = Some (e, k, i, b) \<Longrightarrow>
     b = bi \<and> i \<in> set is \<and> k < length (busylist (p_objs st bi i))
     \<and> busylist (p_objs st bi i) ! k = e \<and> physp e = p"
  by (induction "is") (auto dest!: scan_busylist_Some split: option.splits)

lemma scan_pools_None:
  "scan_pools st p bi is = None \<longleftrightarrow>
     (\<forall>i\<in>set is. \<forall>e\<in>set (busylist (p_objs st bi i)). physp e \<noteq> p)"
  by (induction "is") (simp_all add: case_option_or_None scan_busylist_None)

lemma find_busy_entry_Some:
  assumes "find_busy_entry st p = Some (e, k, i, bi)"
  shows "bi < NBLOCKS" and "i < num_pools st bi" and "k < length (busylist (p_objs st bi i))"
    and "busylist (p_objs st bi i) ! k = e" and "physp e = p"
proof -
  have "scan_blocks st p bis = Some (e, k, i, bi) \<Longrightarrow>
      bi \<in> set bis \<and> i < num_pools st bi \<and> k < length (busylist (p_objs st bi i))
      \<and> busylist (p_objs st bi i) ! k = e \<and> physp e = p" for bis
    by (induction bis) (auto dest!: scan_pools_Some split: option.splits)
  from this [of "[0..<NBLOCKS]"] assms
  show "bi < NBLOCKS" "i < num_pools st bi" "k < length (busylist (p_objs st bi i))"
    "busylist (p_objs st bi i) ! k = e" "physp e = p"
    by (auto simp: find_busy_entry_def)
qed

lemma find_busy_entry_None:
  "find_busy_entry st p = None \<longleftrightarrow>
     (\<forall>bi<NBLOCKS. \<forall>i<num_pools st bi. \<forall>e\<in>set (busylist (p_objs st bi i)). physp e \<noteq> p)"
proof -
  have "scan_blocks st p bis = None \<longleftrightarrow>
      (\<forall>bi\<in>set bis. \<forall>i<num_pools st bi. \<forall>e\<in>set (busylist (p_objs st bi i)). physp e \<noteq> p)" for bis
    by (induction bis) (auto simp: case_option_or_None scan_pools_None)
  from this [of "[0..<NBLOCKS]"] show ?thesis
    by (simp only: find_busy_entry_def set_upt atLeast0LessThan Ball_def lessThan_iff)
qed

lemma remove_nth_split:
  "k < length xs \<Longrightarrow> xs = take k xs @ xs ! k # drop (Suc k) xs"
  by (rule id_take_nth_drop)

lemma mset_remove_nth: "k < length xs \<Longrightarrow> mset (remove_nth k xs) = mset xs - {#xs ! k#}"
proof -
  assume k: "k < length xs"
  have "mset xs = mset (take k xs @ xs ! k # drop (Suc k) xs)"
    using remove_nth_split [OF k] by simp
  then show ?thesis by (simp add: remove_nth_def)
qed

lemma set_remove_nth: "set (remove_nth k xs) \<subseteq> set xs"
  using set_take_subset [of k xs] set_drop_subset [of "Suc k" xs] by (auto simp: remove_nth_def)

lemma p_objs_upd_pool [simp]:
  "p_objs (upd_pool bi i f st) bi' i' =
     (if bi' = bi \<and> i' = i then f (p_objs st bi i) else p_objs st bi' i')"
  by (simp add: upd_pool_def)

lemma upd_pool_fields [simp]:
  "npools (upd_pool bi i f st) = npools st" "heap_pool (upd_pool bi i f st) = heap_pool st"
  "store (upd_pool bi i f st) = store st" "heap_size (upd_pool bi i f st) = heap_size st"
  "heap_virtp (upd_pool bi i f st) = heap_virtp st"
  "block_virtoff (upd_pool bi i f st) = block_virtoff st"
  "block_virtp (upd_pool bi i f st) = block_virtp st"
  "block_virtend (upd_pool bi i f st) = block_virtend st"
  "reference_count (upd_pool bi i f st) = reference_count st"
  "num_pools (upd_pool bi i f st) = num_pools st"
  by (auto simp: upd_pool_def num_pools_def fun_eq_iff)

end
