(* ===== verification/CmemIoctl.thy ===== *)
theory CmemIoctl
  imports CmemState
begin

text \<open>
  The system calls of the CMEM driver (\<open>cmemk/cmemk.c\<close>): the ioctl commands, \<open>mmap\<close>,
  \<open>open\<close> and \<open>release\<close>. Every call is a function of the state, of its user argument and
  of an \<open>io\<close> record that says which of its kernel services succeed: copying from and to
  user space, taking the mutex (it may be interrupted) and the two \<open>kmalloc\<close> calls. The
  user argument is the first three words at \<open>argp\<close>; the reply is the words written there,
  \<open>None\<close> for a word of uninitialised stack.
\<close>

section \<open>Calls and replies\<close>

record io =
  copy_in :: bool
  copy_out :: bool
  lock_ok :: bool
  kmalloc_entry :: "pool_buffer option"
  kmalloc_user :: bool

type_synonym reply = "u32 option list"
type_synonym outcome = "reply res \<times> cmem"

text \<open>
  The check of a block id in the commands other than GETBLOCK compares signed integers:
  a negative id passes it and indexes the arrays in front of their first element.
\<close>

definition with_block :: "int \<Rightarrow> cmem \<Rightarrow> (nat \<Rightarrow> outcome) \<Rightarrow> outcome" where
  "with_block bi st k =
     (if bi \<ge> int NBLOCKS then (Fail EINVAL, st)
      else if bi < 0 then (Crash Out_of_bounds, st)
      else k (nat bi))"

definition add_busy_tail :: "pool_buffer \<Rightarrow> pool_object \<Rightarrow> pool_object" where
  "add_busy_tail e p = p\<lparr>busylist := busylist p @ [e]\<rparr>"

definition set_busy :: "nat \<Rightarrow> pool_buffer \<Rightarrow> pool_object \<Rightarrow> pool_object" where
  "set_busy k e p = p\<lparr>busylist := (busylist p)[k := e]\<rparr>"

definition drop_busy :: "nat \<Rightarrow> pool_object \<Rightarrow> pool_object" where
  "drop_busy k p = p\<lparr>busylist := remove_nth k (busylist p)\<rparr>"

definition busy_to_free :: "nat \<Rightarrow> pool_buffer \<Rightarrow> pool_object \<Rightarrow> pool_object" where
  "busy_to_free k e p = p\<lparr>busylist := remove_nth k (busylist p), freelist := e # freelist p\<rparr>"

definition free_to_busy :: "pool_buffer \<Rightarrow> pool_object \<Rightarrow> pool_object" where
  "free_to_busy e p = p\<lparr>freelist := tl (freelist p), busylist := e # busylist p\<rparr>"

section \<open>Allocation\<close>

text \<open>The part of ALLOCHEAP after the heap returned \<open>virtp\<close>: the entry of the busy list.\<close>

definition enter_heap_buffer ::
    "mm \<Rightarrow> io \<Rightarrow> filp \<Rightarrow> u32 \<Rightarrow> u32 \<Rightarrow> u32 \<Rightarrow> nat \<Rightarrow> cmem \<Rightarrow> outcome" where
  "enter_heap_buffer mm io filp cmd sz virtp bi st =
     (case kmalloc_entry io of
        None \<Rightarrow>
          (case HeapMem_free bi virtp sz (store st) of
             None \<Rightarrow> (Crash Endless_loop, st)
           | Some m \<Rightarrow> (Fail ENOMEM, st\<lparr>store := m\<rparr>))
      | Some entry \<Rightarrow>
          let phys = get_phys mm st virtp;
              entry = entry\<lparr>pb_id := heap_pool st bi, physp := phys, kvirtp := virtp,
                pb_size := sz, flags := cmd AND NOT CMEM_IOCCMDMASK, users := []\<rparr>;
              pool = nat (heap_pool st bi)
          in if \<not> kmalloc_user io
             then (Crash Null_deref, upd_pool bi pool (add_busy_tail entry) st)
             else
               let entry = entry\<lparr>users := [filp]\<rparr>;
                   st = upd_pool bi pool (add_busy_tail entry) st
               in if \<not> copy_out io then (Fail EFAULT, st)
                  else (Done [Some phys], st))"

definition ioctl_ALLOCHEAP ::
    "mm \<Rightarrow> io \<Rightarrow> filp \<Rightarrow> u32 \<Rightarrow> u32 \<Rightarrow> u32 \<Rightarrow> int \<Rightarrow> cmem \<Rightarrow> outcome" where
  "ioctl_ALLOCHEAP mm io filp cmd sz align blockid st =
     (if \<not> copy_in io then (Fail EFAULT, st)
      else with_block blockid st (\<lambda>bi.
        if heap_pool st bi = -1 then (Fail EINVAL, st)
        else if \<not> lock_ok io then (Fail ERESTARTSYS, st)
        else case HeapMem_alloc bi sz align False (store st) of
          None \<Rightarrow> (Crash Endless_loop, st)
        | Some (m, virtp) \<Rightarrow>
            let st = st\<lparr>store := m\<rparr>
            in if virtp = 0 then (Fail ENOMEM, st)
               else enter_heap_buffer mm io filp cmd sz virtp bi st))"

definition ioctl_ALLOC ::
    "io \<Rightarrow> filp \<Rightarrow> u32 \<Rightarrow> int \<Rightarrow> int \<Rightarrow> u32 \<Rightarrow> cmem \<Rightarrow> outcome" where
  "ioctl_ALLOC io filp cmd pool blockid w2 st =
     (if \<not> copy_in io then (Fail EFAULT, st)
      else with_block blockid st (\<lambda>bi.
        if pool \<ge> int (npools st bi) \<or> pool < 0 then (Fail EINVAL, st)
        else if \<not> lock_ok io then (Fail ERESTARTSYS, st)
        else let i = nat pool in
          case freelist (p_objs st bi i) of
            [] \<Rightarrow> (Fail ENOMEM, st)
          | entry # _ \<Rightarrow>
              if \<not> copy_out io then (Fail EFAULT, st)
              else
                let entry = entry\<lparr>flags := cmd AND NOT CMEM_IOCCMDMASK\<rparr>
                in if \<not> kmalloc_user io
                   then (Crash Null_deref, upd_pool bi i (free_to_busy entry) st)
                   else (Done [Some (physp entry), Some (po_size (p_objs st bi i)), Some w2],
                     upd_pool bi i (free_to_busy (entry\<lparr>users := filp # users entry\<rparr>)) st)))"

section \<open>Release\<close>

text \<open>
  FREE unregisters the caller once. The last user's release gives a pool buffer back to
  the free list, a heap buffer back to the heap. The cache of a heap buffer freed by its
  virtual address is invalidated first.
\<close>

definition release_buffer ::
    "u32 \<Rightarrow> u32 \<Rightarrow> nat \<Rightarrow> nat \<Rightarrow> nat \<Rightarrow> pool_buffer \<Rightarrow> cmem \<Rightarrow> unit res \<times> cmem" where
  "release_buffer cmd virtp bi pool k entry st =
     (if int pool = heap_pool st bi then
        let st = (if cmd AND CMEM_PHYS = 0
                  then st\<lparr>cache_ops := cache_ops st @ [Cache_inv virtp (pb_size entry)]\<rparr> else st)
        in case HeapMem_free bi (kvirtp entry) (pb_size entry) (store st) of
             None \<Rightarrow> (Crash Endless_loop, st)
           | Some m \<Rightarrow> (Done (), upd_pool bi pool (drop_busy k) (st\<lparr>store := m\<rparr>))
      else (Done (), upd_pool bi pool (busy_to_free k entry) st))"

definition free_entry ::
    "io \<Rightarrow> filp \<Rightarrow> u32 \<Rightarrow> u32 \<Rightarrow> u32 \<Rightarrow> cmem \<Rightarrow> outcome" where
  "free_entry io filp cmd virtp phys st =
     (case find_busy_entry st phys of
        None \<Rightarrow> (Fail EFAULT, st)
      | Some (entry, k, pool, bi) \<Rightarrow>
          if filp \<notin> set (users entry) then (Fail EFAULT, st)
          else
            let entry' = entry\<lparr>users := remove1 filp (users entry)\<rparr>;
                (r, st') = (if users entry' = []
                  then release_buffer cmd virtp bi pool k entry' st
                  else (Done (), upd_pool bi pool (set_busy k entry') st))
            in case r of
                 Crash c \<Rightarrow> (Crash c, st')
               | Fail err \<Rightarrow> (Fail err, st')
               | Done _ \<Rightarrow>
                   if \<not> copy_out io then (Fail EFAULT, st')
                   else (Done [Some (of_nat pool),
                       Some (if int pool = heap_pool st bi then pb_size entry
                             else po_size (p_objs st bi pool)), None], st'))"

definition ioctl_FREE :: "mm \<Rightarrow> io \<Rightarrow> filp \<Rightarrow> u32 \<Rightarrow> u32 \<Rightarrow> cmem \<Rightarrow> outcome" where
  "ioctl_FREE mm io filp cmd w0 st =
     (if \<not> copy_in io then (Fail EFAULT, st)
      else if cmd AND CMEM_PHYS = 0 then
        let virtp = w0; phys = get_phys mm st virtp
        in if phys = - 1 then (Fail EFAULT, st)
           else if \<not> lock_ok io then (Fail ERESTARTSYS, st)
           else free_entry io filp cmd virtp phys st
      else if \<not> lock_ok io then (Fail ERESTARTSYS, st)
      else free_entry io filp cmd 0 w0 st)"

section \<open>Queries\<close>

definition ioctl_GETPHYS :: "mm \<Rightarrow> io \<Rightarrow> u32 \<Rightarrow> cmem \<Rightarrow> outcome" where
  "ioctl_GETPHYS mm io virtp st =
     (if \<not> copy_in io then (Fail EFAULT, st)
      else let phys = get_phys mm st virtp
        in if phys = - 1 then (Fail EFAULT, st)
           else if \<not> copy_out io then (Fail EFAULT, st)
           else (Done [Some phys], st))"

definition ioctl_GETSIZE :: "io \<Rightarrow> int \<Rightarrow> int \<Rightarrow> cmem \<Rightarrow> outcome" where
  "ioctl_GETSIZE io pool blockid st =
     (if \<not> copy_in io then (Fail EFAULT, st)
      else with_block blockid st (\<lambda>bi.
        if pool \<ge> int (npools st bi) \<or> pool < 0 then (Fail EINVAL, st)
        else if \<not> copy_out io then (Fail EFAULT, st)
        else (Done [Some (po_size (p_objs st bi (nat pool)))], st)))"

text \<open>
  The search for the best fitting pool: \<open>delta\<close> starts at the largest \<open>int\<close>, and a pool
  replaces the candidate when it fits more tightly and has a free buffer.
\<close>

definition MAXTYPE_int :: u32 where
  "MAXTYPE_int = 0x7fffffff"

fun best_pool :: "pool_object list \<Rightarrow> u32 \<Rightarrow> nat \<Rightarrow> u32 \<Rightarrow> int \<Rightarrow> int" where
  "best_pool [] req i delta pool = pool"
| "best_pool (p # ps) req i delta pool =
     (if po_size p \<ge> req \<and> po_size p - req < delta \<and> freelist p \<noteq> []
      then best_pool ps req (Suc i) (po_size p - req) (int i)
      else best_pool ps req (Suc i) delta pool)"

definition ioctl_GETPOOL :: "io \<Rightarrow> u32 \<Rightarrow> int \<Rightarrow> cmem \<Rightarrow> outcome" where
  "ioctl_GETPOOL io req blockid st =
     (if \<not> copy_in io then (Fail EFAULT, st)
      else if blockid \<ge> int NBLOCKS then (Fail EINVAL, st)
      else if \<not> lock_ok io then (Fail ERESTARTSYS, st)
      else if blockid < 0 then (Crash Out_of_bounds, st)
      else
        let bi = nat blockid;
            pool = best_pool (map (p_objs st bi) [0..<npools st bi]) req 0 MAXTYPE_int (-1);
            pool = (if pool = -1 \<and> heap_pool st bi \<noteq> -1 \<and> useHeapIfPoolUnavailable st
              then map_option (\<lambda>(_, virtp). if virtp \<noteq> 0 then -2 else pool)
                (HeapMem_alloc bi req HEAP_ALIGN True (store st))
              else Some pool)
        in case pool of
             None \<Rightarrow> (Crash Endless_loop, st)
           | Some pool \<Rightarrow>
               if pool = -1 then (Fail ENOMEM, st)
               else if \<not> copy_out io then (Fail EFAULT, st)
               else (Done [Some (word_of_int pool)], st))"

definition ioctl_CACHE :: "io \<Rightarrow> u32 \<Rightarrow> u32 \<Rightarrow> u32 \<Rightarrow> cmem \<Rightarrow> outcome" where
  "ioctl_CACHE io cmd virtp len st =
     (if \<not> copy_in io then (Fail EFAULT, st)
      else
        let c = cmd AND NOT CMEM_IOCMAGIC;
            ops = (if c = CMEM_IOCCACHEWB then [Cache_clean virtp len]
                   else if c = CMEM_IOCCACHEINV then [Cache_inv virtp len]
                   else if c = CMEM_IOCCACHEWBINV then [Cache_flush virtp len]
                   else [])
        in (Done [], st\<lparr>cache_ops := cache_ops st @ ops\<rparr>))"

definition ioctl_GETVERSION :: "io \<Rightarrow> cmem \<Rightarrow> outcome" where
  "ioctl_GETVERSION io st =
     (if \<not> copy_out io then (Fail EFAULT, st) else (Done [Some CMEM_VERSION], st))"

definition ioctl_GETBLOCK :: "io \<Rightarrow> u32 \<Rightarrow> u32 \<Rightarrow> cmem \<Rightarrow> outcome" where
  "ioctl_GETBLOCK io bi w2 st =
     (if \<not> copy_in io then (Fail EFAULT, st)
      else if bi \<ge> nblocks st then (Fail EINVAL, st)
      else if \<not> copy_out io then (Fail EFAULT, st)
      else (Done [Some (block_start st (unat bi)),
                  Some (block_end st (unat bi) - block_start st (unat bi)), Some w2], st))"

definition ioctl_GETNUMBLOCKS :: "io \<Rightarrow> cmem \<Rightarrow> outcome" where
  "ioctl_GETNUMBLOCKS io st =
     (if \<not> copy_out io then (Fail EFAULT, st) else (Done [Some (nblocks st)], st))"

definition ioctl_REGUSER :: "io \<Rightarrow> filp \<Rightarrow> u32 \<Rightarrow> cmem \<Rightarrow> outcome" where
  "ioctl_REGUSER io filp phys st =
     (if \<not> copy_in io then (Fail EFAULT, st)
      else if \<not> lock_ok io then (Fail ERESTARTSYS, st)
      else case find_busy_entry st phys of
        None \<Rightarrow> (Fail EFAULT, st)
      | Some (entry, k, pool, bi) \<Rightarrow>
          if \<not> kmalloc_user io then (Crash Null_deref, st)
          else
            let st = upd_pool bi pool (set_busy k (entry\<lparr>users := filp # users entry\<rparr>)) st
            in if \<not> copy_out io then (Fail EFAULT, st)
               else (Done [Some (pb_size entry)], st))"

section \<open>The ioctl entry point\<close>

text \<open>
  A wrong magic number is only logged; the switch is on the low byte of the command.
\<close>

definition cmem_ioctl ::
    "mm \<Rightarrow> io \<Rightarrow> filp \<Rightarrow> u32 \<Rightarrow> u32 \<times> u32 \<times> u32 \<Rightarrow> cmem \<Rightarrow> outcome" where
  "cmem_ioctl mm io filp cmd args st =
     (let (w0, w1, w2) = args; c = cmd AND CMEM_IOCCMDMASK
      in if c = CMEM_IOCALLOCHEAP then ioctl_ALLOCHEAP mm io filp cmd w0 w1 (sint w2) st
         else if c = CMEM_IOCALLOC then ioctl_ALLOC io filp cmd (sint w0) (sint w1) w2 st
         else if c = CMEM_IOCFREE then ioctl_FREE mm io filp cmd w0 st
         else if c = CMEM_IOCGETPHYS then ioctl_GETPHYS mm io w0 st
         else if c = CMEM_IOCGETSIZE then ioctl_GETSIZE io (sint w0) (sint w1) st
         else if c = CMEM_IOCGETPOOL then ioctl_GETPOOL io w0 (sint w1) st
         else if c = CMEM_IOCCACHE then ioctl_CACHE io cmd w0 w1 st
         else if c = CMEM_IOCGETVERSION then ioctl_GETVERSION io st
         else if c = CMEM_IOCGETBLOCK then ioctl_GETBLOCK io w0 w2 st
         else if c = CMEM_IOCGETNUMBLOCKS then ioctl_GETNUMBLOCKS io st
         else if c = CMEM_IOCREGUSER then ioctl_REGUSER io filp w0 st
         else (Fail EINVAL, st))"

section \<open>mmap, open and release\<close>

text \<open>
  A successful \<open>mmap\<close> maps the pages of the area, cached or not. The kernel's
  \<open>remap_pfn_range\<close> is a parameter: whether it succeeds.
\<close>

datatype mapping = Map_cached vma | Map_noncached vma

definition set_noncached :: "bool \<Rightarrow> vma \<Rightarrow> mapping res" where
  "set_noncached remap_ok vma =
     (let vma = vma\<lparr>vm_io := True\<rparr>
      in if \<not> remap_ok then Fail EAGAIN else Done (Map_noncached vma))"

definition set_cached :: "bool \<Rightarrow> vma \<Rightarrow> mapping res" where
  "set_cached remap_ok vma =
     (let vma = vma\<lparr>vm_io := True\<rparr>
      in if \<not> remap_ok then Fail EAGAIN else Done (Map_cached vma))"

definition cmem_mmap :: "io \<Rightarrow> bool \<Rightarrow> vma \<Rightarrow> cmem \<Rightarrow> mapping res" where
  "cmem_mmap io remap_ok vma st =
     (let phys = push_bit PAGE_SHIFT (vm_pgoff vma)
      in if \<not> lock_ok io then Fail ERESTARTSYS
         else case find_busy_entry st phys of
           None \<Rightarrow> Fail EINVAL
         | Some (entry, _) \<Rightarrow>
             if flags entry AND CMEM_CACHED \<noteq> 0 then set_cached remap_ok vma
             else set_noncached remap_ok vma)"

definition cmem_open :: "cmem \<Rightarrow> cmem" where
  "cmem_open st = st\<lparr>reference_count := reference_count st + 1\<rparr>"

text \<open>
  The walk of \<open>release\<close> over one busy list: each entry loses the users the close ends
  (all of them on the last close), and is freed when none is left. The arguments are the
  entries still to visit and those visited and kept.
\<close>

definition unregister :: "bool \<Rightarrow> filp \<Rightarrow> pool_buffer \<Rightarrow> pool_buffer" where
  "unregister last_close filp entry =
     entry\<lparr>users := filter (\<lambda>u. \<not> (last_close \<or> u = filp)) (users entry)\<rparr>"

fun release_entries ::
    "bool \<Rightarrow> filp \<Rightarrow> bool \<Rightarrow> nat \<Rightarrow> pool_buffer list \<Rightarrow> pool_buffer list \<Rightarrow> pool_buffer list \<Rightarrow> hmem
      \<Rightarrow> (pool_buffer list \<times> pool_buffer list \<times> hmem) option" where
  "release_entries last_close filp heap bi [] kept free m = Some (rev kept, free, m)"
| "release_entries last_close filp heap bi (e # es) kept free m =
     (let entry = unregister last_close filp e
      in if users entry = [] then
           if heap then
             (case HeapMem_free bi (kvirtp entry) (pb_size entry) m of
                None \<Rightarrow> None
              | Some m' \<Rightarrow> release_entries last_close filp heap bi es kept free m')
           else release_entries last_close filp heap bi es kept (entry # free) m
         else release_entries last_close filp heap bi es (entry # kept) free m)"

definition release_pool :: "bool \<Rightarrow> filp \<Rightarrow> nat \<Rightarrow> nat \<Rightarrow> cmem \<Rightarrow> cmem option" where
  "release_pool last_close filp bi i st =
     (let heap = (heap_pool st bi \<noteq> -1 \<and> i = num_pools st bi - 1); p = p_objs st bi i
      in case release_entries last_close filp heap bi (busylist p) [] (freelist p) (store st) of
           None \<Rightarrow> None
         | Some (busy, free, m) \<Rightarrow>
             Some (upd_pool bi i (\<lambda>p. p\<lparr>busylist := busy, freelist := free\<rparr>) (st\<lparr>store := m\<rparr>)))"

fun release_pools ::
    "(nat \<Rightarrow> nat \<Rightarrow> bool) \<Rightarrow> bool \<Rightarrow> filp \<Rightarrow> (nat \<times> nat) list \<Rightarrow> cmem \<Rightarrow> unit res \<times> cmem" where
  "release_pools locks last_close filp [] st = (Done (), st)"
| "release_pools locks last_close filp ((bi, i) # is) st =
     (if \<not> locks bi i then (Fail ERESTARTSYS, st)
      else case release_pool last_close filp bi i st of
        None \<Rightarrow> (Crash Endless_loop, st)
      | Some st' \<Rightarrow> release_pools locks last_close filp is st')"

definition all_pools :: "cmem \<Rightarrow> (nat \<times> nat) list" where
  "all_pools st = concat (map (\<lambda>bi. map (Pair bi) [0..<num_pools st bi]) [0..<NBLOCKS])"

definition cmem_release :: "(nat \<Rightarrow> nat \<Rightarrow> bool) \<Rightarrow> filp \<Rightarrow> cmem \<Rightarrow> unit res \<times> cmem" where
  "cmem_release locks filp st =
     (let st = st\<lparr>reference_count := reference_count st - 1\<rparr>;
          last_close = (reference_count st = 0)
      in release_pools locks last_close filp (all_pools st) st)"

lemmas [handler_defs] =
  with_block_def enter_heap_buffer_def ioctl_ALLOCHEAP_def ioctl_ALLOC_def release_buffer_def free_entry_def
  ioctl_FREE_def ioctl_GETPHYS_def ioctl_GETSIZE_def ioctl_GETPOOL_def ioctl_CACHE_def
  ioctl_GETVERSION_def ioctl_GETBLOCK_def ioctl_GETNUMBLOCKS_def ioctl_REGUSER_def

end
