(* ===== verification/CmemInv.thy ===== *)
theory CmemInv
  imports CmemIoctl
begin

text \<open>
  The invariant of the CMEM driver and its preservation by every system call: free buffers
  have no user and busy ones have at least one, and the busy list of a block's heap pool
  is exactly the account of the heap: the buffers do not overlap, and with the free memory
  they make up the whole heap of the block.
\<close>

section \<open>The invariant\<close>

definition heap_lo :: "cmem \<Rightarrow> nat \<Rightarrow> nat" where
  "heap_lo st bi = unat (heap_virtp st bi)"

definition heap_hi :: "cmem \<Rightarrow> nat \<Rightarrow> nat" where
  "heap_hi st bi = unat (heap_virtp st bi) + unat (heap_size st bi)"

definition buffers_of :: "pool_object \<Rightarrow> (u32 \<times> u32) list" where
  "buffers_of p = map (\<lambda>e. (kvirtp e, pb_size e)) (busylist p)"

definition heap_accounts :: "nat \<Rightarrow> nat \<Rightarrow> nat \<Rightarrow> hmem \<Rightarrow> (u32 \<times> u32) list \<Rightarrow> bool" where
  "heap_accounts bi lo hi m ps =
     byte_allocator.accounts (heap_bytes bi lo hi) (\<lambda>sz. round_page (unat sz)) good_size {lo..<hi} m ps"

definition heap_inv :: "cmem \<Rightarrow> nat \<Rightarrow> bool" where
  "heap_inv st bi \<longleftrightarrow>
     (heap_pool st bi \<noteq> -1 \<longrightarrow>
        heap_pool st bi = int (npools st bi)
        \<and> heap_accounts bi (heap_lo st bi) (heap_hi st bi) (store st)
            (buffers_of (p_objs st bi (npools st bi))))"

definition pool_inv :: "pool_object \<Rightarrow> bool" where
  "pool_inv p \<longleftrightarrow> (\<forall>e\<in>set (freelist p). users e = []) \<and> (\<forall>e\<in>set (busylist p). users e \<noteq> [])"

definition arenas_apart :: "cmem \<Rightarrow> bool" where
  "arenas_apart st \<longleftrightarrow>
     (\<forall>b<NBLOCKS. \<forall>c<NBLOCKS. b \<noteq> c \<longrightarrow> heap_pool st b \<noteq> -1 \<longrightarrow> heap_pool st c \<noteq> -1 \<longrightarrow>
        {heap_lo st b..<heap_hi st b} \<inter> {heap_lo st c..<heap_hi st c} = {})"

definition cmem_inv :: "cmem \<Rightarrow> bool" where
  "cmem_inv st \<longleftrightarrow>
     (\<forall>bi<NBLOCKS. heap_inv st bi \<and> (\<forall>i<num_pools st bi. pool_inv (p_objs st bi i)))
     \<and> arenas_apart st"

text \<open>The states of a step differ only in the pools, the heaps, the reference count and the
  trace of cache operations.\<close>

definition same_config :: "cmem \<Rightarrow> cmem \<Rightarrow> bool" where
  "same_config st st' \<longleftrightarrow> npools st' = npools st \<and> heap_pool st' = heap_pool st
     \<and> heap_virtp st' = heap_virtp st \<and> heap_size st' = heap_size st"

lemma same_config_refl [simp]: "same_config st st"
  by (simp add: same_config_def)

lemma same_config_num_pools: "same_config st st' \<Longrightarrow> num_pools st' = num_pools st"
  by (simp add: same_config_def num_pools_def fun_eq_iff)

lemma same_config_arena:
  "same_config st st' \<Longrightarrow> heap_lo st' = heap_lo st" "same_config st st' \<Longrightarrow> heap_hi st' = heap_hi st"
  by (simp_all add: same_config_def heap_lo_def heap_hi_def fun_eq_iff)

lemma same_config_apart: "same_config st st' \<Longrightarrow> arenas_apart st' = arenas_apart st"
proof -
  assume c: "same_config st st'"
  then have "heap_pool st' = heap_pool st" by (simp add: same_config_def)
  then show ?thesis by (simp only: arenas_apart_def same_config_arena [OF c])
qed

section \<open>The heaps of the two blocks\<close>

lemma heap_rep_elsewhere:
  assumes "heap_rep bi lo hi m xs" and "same_outside {lo'..<hi'} {HeadAt bi'} m m'"
    and "bi' \<noteq> bi" and "{lo..<hi} \<inter> {lo'..<hi'} = {}"
  shows "heap_rep bi lo hi m' xs"
proof -
  have wf: "wf_blocks lo hi xs" using assms(1) by (simp add: heap_rep_def)
  have "m' (HeadAt bi) = m (HeadAt bi)"
    using assms(2,3) by (simp add: same_outside_def)
  moreover have "m' (BlockAt w) = m (BlockAt w)" if "unat w \<in> bytes xs" for w
    using that assms(2,4) wf_blocks_bytes [OF wf] unfolding same_outside_def by blast
  then have "chain m' p xs = chain m p xs" for p by (intro chain_cong [OF wf])
  ultimately show ?thesis using assms(1) by (simp add: heap_rep_def free_list_def)
qed

lemma heap_accounts_elsewhere:
  assumes "heap_accounts bi lo hi m ps" and "same_outside {lo'..<hi'} {HeadAt bi'} m m'"
    and "bi' \<noteq> bi" and "{lo..<hi} \<inter> {lo'..<hi'} = {}"
  shows "heap_accounts bi lo hi m' ps"
  using assms(1) unfolding heap_accounts_def
  by (rule heap.accounts_mono)
     (use heap_rep_elsewhere [OF _ assms(2-4)] in \<open>auto simp: heap_bytes_def\<close>)

lemma heap_alloc_step:
  assumes "heap_accounts bi lo hi m ps" and "good_request sz al"
  shows "\<exists>m' p. HeapMem_alloc bi sz al False m = Some (m', p)
           \<and> same_outside {lo..<hi} {HeadAt bi} m m'
           \<and> heap_accounts bi lo hi m' (if p = 0 then ps else (p, sz) # ps)"
  using heap.alloc_accounts [OF assms(1) [unfolded heap_accounts_def] assms(2)]
  unfolding heap_accounts_def .

lemma heap_free_step:
  assumes "heap_accounts bi lo hi m (ps @ (p, sz) # qs)"
  shows "\<exists>m'. HeapMem_free bi p sz m = Some m'
           \<and> same_outside {lo..<hi} {HeadAt bi} m m' \<and> heap_accounts bi lo hi m' (ps @ qs)"
  using heap.release_accounts [OF assms [unfolded heap_accounts_def]]
  unfolding heap_accounts_def .

lemma heap_accounts_mset:
  "mset ps = mset qs \<Longrightarrow> heap_accounts bi lo hi m ps = heap_accounts bi lo hi m qs"
  unfolding heap_accounts_def by (rule heap.accounts_mset)

text \<open>
  Replacing one pool and the store keeps the invariant when the pool keeps its part and,
  for a heap pool, the account holds for its new busy list.
\<close>

lemma cmem_inv_update:
  assumes inv: "cmem_inv st" and b: "bi < NBLOCKS" and i: "i < num_pools st bi"
    and cfg: "same_config st st'"
    and pools: "\<And>b' i'. p_objs st' b' i' = (if b' = bi \<and> i' = i then p' else p_objs st b' i')"
    and p': "pool_inv p'"
    and other: "i \<noteq> npools st bi \<Longrightarrow> store st' = store st"
    and heap: "i = npools st bi \<Longrightarrow> same_outside {heap_lo st bi..<heap_hi st bi} {HeadAt bi} (store st) (store st')
        \<and> heap_accounts bi (heap_lo st bi) (heap_hi st bi) (store st') (buffers_of p')"
  shows "cmem_inv st'"
proof -
  have cfg': "npools st' = npools st" "heap_pool st' = heap_pool st"
    using cfg by (auto simp: same_config_def)
  have np: "heap_pool st bi \<noteq> -1" if "i = npools st bi"
    using i that by (auto simp: num_pools_def split: if_splits)
  have "heap_inv st' b'" if b': "b' < NBLOCKS" for b'
    unfolding heap_inv_def
  proof
    assume h: "heap_pool st' b' \<noteq> -1"
    have old: "heap_pool st b' = int (npools st b')"
        "heap_accounts b' (heap_lo st b') (heap_hi st b') (store st) (buffers_of (p_objs st b' (npools st b')))"
      using inv b' h by (auto simp: cmem_inv_def heap_inv_def cfg')
    have "heap_accounts b' (heap_lo st b') (heap_hi st b') (store st')
        (buffers_of (p_objs st' b' (npools st b')))"
    proof (cases "i = npools st bi")
      case True
      show ?thesis
      proof (cases "b' = bi")
        case False
        have apart: "arenas_apart st" using inv by (simp add: cmem_inv_def)
        have "heap_pool st b' \<noteq> -1" using h by (simp add: cfg'(2))
        then have disj: "{heap_lo st b'..<heap_hi st b'} \<inter> {heap_lo st bi..<heap_hi st bi} = {}"
          using apart [unfolded arenas_apart_def] b b' np [OF True] False by blast
        have "p_objs st' b' = p_objs st b'" using pools False by (simp add: fun_eq_iff)
        then show ?thesis
          using heap_accounts_elsewhere [OF old(2) conjunct1 [OF heap [OF True]] False [symmetric] disj]
          by simp
      qed (use heap True in \<open>simp add: pools\<close>)
    next
      case False
      then show ?thesis using old(2) other by (auto simp: pools)
    qed
    then show "heap_pool st' b' = int (npools st' b') \<and> heap_accounts b' (heap_lo st' b')
        (heap_hi st' b') (store st') (buffers_of (p_objs st' b' (npools st' b')))"
      using old(1) cfg by (simp add: cfg' same_config_arena)
  qed
  moreover have "pool_inv (p_objs st' b' i')" if "b' < NBLOCKS" "i' < num_pools st' b'" for b' i'
    using that inv p' by (auto simp: cmem_inv_def pools same_config_num_pools [OF cfg])
  moreover have "arenas_apart st'"
    using inv by (simp add: cmem_inv_def same_config_apart [OF cfg])
  ultimately show ?thesis by (simp add: cmem_inv_def)
qed

lemma cmem_inv_same:
  assumes "cmem_inv st" and "same_config st st'" and "p_objs st' = p_objs st" and "store st' = store st"
  shows "cmem_inv st'"
  using assms same_config_num_pools [OF assms(2)] same_config_arena [OF assms(2)]
    same_config_apart [OF assms(2)]
  by (simp add: cmem_inv_def heap_inv_def same_config_def)

end
