(* ===== verification/CmemSafe.thy ===== *)
theory CmemSafe
  imports CmemInv
begin

text \<open>
  Every system call keeps the invariant of \<open>CmemInv\<close> and, called with the arguments the
  driver expects, never crashes and always returns. What the driver expects and does not
  check is the predicate \<open>expected\<close>: block ids are not negative, and a heap request is
  not empty, has a power of two as its alignment and does not wrap around.
\<close>

section \<open>Facts about the invariant\<close>

lemma cmem_inv_pool: "cmem_inv st \<Longrightarrow> bi < NBLOCKS \<Longrightarrow> i < num_pools st bi \<Longrightarrow> pool_inv (p_objs st bi i)"
  by (simp add: cmem_inv_def)

lemma cmem_inv_heap:
  assumes "cmem_inv st" and "bi < NBLOCKS" and "heap_pool st bi \<noteq> -1"
  shows "heap_pool st bi = int (npools st bi)" and "num_pools st bi = Suc (npools st bi)"
    and "heap_accounts bi (heap_lo st bi) (heap_hi st bi) (store st)
           (buffers_of (p_objs st bi (npools st bi)))"
  using assms by (auto simp: cmem_inv_def heap_inv_def num_pools_def)

lemma heap_pool_iff:
  assumes "cmem_inv st" and "bi < NBLOCKS" and "i < num_pools st bi"
  shows "int i = heap_pool st bi \<longleftrightarrow> i = npools st bi"
proof (cases "heap_pool st bi = -1")
  case True
  then show ?thesis using assms(3) by (simp add: num_pools_def)
next
  case False
  then show ?thesis using cmem_inv_heap(1) [OF assms(1,2)] by auto
qed

lemma buffers_of_set_busy:
  assumes "k < length (busylist p)" and "kvirtp e = kvirtp (busylist p ! k)"
    and "pb_size e = pb_size (busylist p ! k)"
  shows "buffers_of (set_busy k e p) = buffers_of p"
  using assms by (simp add: buffers_of_def set_busy_def map_update list_update_same_conv)

lemma buffers_of_add_busy:
  "mset (buffers_of (add_busy_tail e p)) = mset ((kvirtp e, pb_size e) # buffers_of p)"
  by (simp add: buffers_of_def add_busy_tail_def)

lemma buffers_of_split:
  assumes "k < length (busylist p)"
  shows "buffers_of p = take k (buffers_of p)
           @ (kvirtp (busylist p ! k), pb_size (busylist p ! k)) # drop (Suc k) (buffers_of p)"
    and "buffers_of (drop_busy k p) = take k (buffers_of p) @ drop (Suc k) (buffers_of p)"
  using id_take_nth_drop [of k "buffers_of p"] assms
  by (simp_all add: buffers_of_def drop_busy_def remove_nth_def take_map drop_map)



lemma pool_inv_set_busy: "pool_inv p \<Longrightarrow> users e \<noteq> [] \<Longrightarrow> pool_inv (set_busy k e p)"
  using set_update_subset_insert [of "busylist p" k e] by (auto simp: pool_inv_def set_busy_def)

lemma pool_inv_drop_busy: "pool_inv p \<Longrightarrow> pool_inv (drop_busy k p)"
  using set_remove_nth [of k "busylist p"] by (auto simp: pool_inv_def drop_busy_def)

lemma pool_inv_busy_to_free: "pool_inv p \<Longrightarrow> users e = [] \<Longrightarrow> pool_inv (busy_to_free k e p)"
  using set_remove_nth [of k "busylist p"] by (auto simp: pool_inv_def busy_to_free_def)

lemma pool_inv_free_to_busy: "pool_inv p \<Longrightarrow> users e \<noteq> [] \<Longrightarrow> pool_inv (free_to_busy e p)"
  using list.set_sel(2) [of "freelist p"]
  by (cases "freelist p") (auto simp: pool_inv_def free_to_busy_def)

lemma pool_inv_add_busy: "pool_inv p \<Longrightarrow> users e \<noteq> [] \<Longrightarrow> pool_inv (add_busy_tail e p)"
  by (auto simp: pool_inv_def add_busy_tail_def)

text \<open>The two ways a handler changes the state.\<close>

lemma inv_pool_step:
  assumes "cmem_inv st" and "bi < NBLOCKS" and "i < num_pools st bi" and "pool_inv (f (p_objs st bi i))"
    and "i = npools st bi \<Longrightarrow> buffers_of (f (p_objs st bi i)) = buffers_of (p_objs st bi i)"
  shows "cmem_inv (upd_pool bi i f st)"
proof (rule cmem_inv_update [OF assms(1-3) _ _ assms(4)])
  assume np: "i = npools st bi"
  then have "heap_pool st bi \<noteq> -1" using assms(3) by (auto simp: num_pools_def split: if_splits)
  from cmem_inv_heap(3) [OF assms(1,2) this] assms(5) [OF np] np
  show "same_outside {heap_lo st bi..<heap_hi st bi} {HeadAt bi} (store st) (store (upd_pool bi i f st))
      \<and> heap_accounts bi (heap_lo st bi) (heap_hi st bi) (store (upd_pool bi i f st))
          (buffers_of (f (p_objs st bi i)))"
    by simp
qed (auto simp: same_config_def)

lemma inv_heap_step:
  assumes "cmem_inv st" and "bi < NBLOCKS" and "heap_pool st bi \<noteq> -1"
    and "pool_inv (f (p_objs st bi (npools st bi)))"
    and "same_outside {heap_lo st bi..<heap_hi st bi} {HeadAt bi} (store st) m"
    and "heap_accounts bi (heap_lo st bi) (heap_hi st bi) m (buffers_of (f (p_objs st bi (npools st bi))))"
  shows "cmem_inv (upd_pool bi (npools st bi) f (st\<lparr>store := m\<rparr>))"
  using assms cmem_inv_heap(2) [OF assms(1-3)]
  by (intro cmem_inv_update [where i = "npools st bi", OF assms(1,2) _ _ _ assms(4)]) (auto simp: same_config_def)

lemma inv_store_step:
  assumes "cmem_inv st" and "bi < NBLOCKS" and "heap_pool st bi \<noteq> -1"
    and "same_outside {heap_lo st bi..<heap_hi st bi} {HeadAt bi} (store st) m"
    and "heap_accounts bi (heap_lo st bi) (heap_hi st bi) m (buffers_of (p_objs st bi (npools st bi)))"
  shows "cmem_inv (st\<lparr>store := m\<rparr>)"
proof -
  have "pool_inv (p_objs st bi (npools st bi))"
    using cmem_inv_pool [OF assms(1,2)] cmem_inv_heap(2) [OF assms(1-3)] by simp
  then have "cmem_inv (upd_pool bi (npools st bi) (\<lambda>p. p) (st\<lparr>store := m\<rparr>))"
    using inv_heap_step [OF assms(1-3), of "\<lambda>p. p"] assms(4,5) by simp
  then show ?thesis by (simp add: upd_pool_def)
qed

section \<open>Allocation from the heap\<close>

lemma inv_enter_heap_buffer:
  assumes inv: "cmem_inv st" and bi: "bi < NBLOCKS" "heap_pool st bi \<noteq> -1" and km: "kmalloc_user io"
    and same: "same_outside {heap_lo st bi..<heap_hi st bi} {HeadAt bi} (store st) m"
    and acc: "heap_accounts bi (heap_lo st bi) (heap_hi st bi) m
                ((p, sz) # buffers_of (p_objs st bi (npools st bi)))"
    and run: "enter_heap_buffer mm io filp cmd sz p bi (st\<lparr>store := m\<rparr>) = (r, st')"
  shows "cmem_inv st' \<and> (\<forall>c. r \<noteq> Crash c)"
proof (cases "kmalloc_entry io")
  case None
  obtain m' where m': "HeapMem_free bi p sz m = Some m'"
      "same_outside {heap_lo st bi..<heap_hi st bi} {HeadAt bi} m m'"
      "heap_accounts bi (heap_lo st bi) (heap_hi st bi) m' (buffers_of (p_objs st bi (npools st bi)))"
    using heap_free_step [of bi _ _ m "[]", simplified, OF acc] by blast
  have "same_outside {heap_lo st bi..<heap_hi st bi} {HeadAt bi} (store st) m'"
    using same m'(2) by (simp add: same_outside_def)
  from inv_store_step [OF inv bi this m'(3)] show ?thesis
    using run None m'(1) by (auto simp: enter_heap_buffer_def)
next
  case (Some entry)
  define phys where "phys = get_phys mm (st\<lparr>store := m\<rparr>) p"
  let ?e = "entry\<lparr>pb_id := heap_pool st bi, physp := phys, kvirtp := p,
      pb_size := sz, flags := cmd AND NOT CMEM_IOCCMDMASK, users := [filp]\<rparr>"
  let ?P = "p_objs st bi (npools st bi)"
  note hp = cmem_inv_heap [OF inv bi]
  have pool: "pool_inv ?P" using cmem_inv_pool [OF inv bi(1)] hp(2) by simp
  have "mset (buffers_of (add_busy_tail ?e ?P)) = mset ((p, sz) # buffers_of ?P)"
    by (simp add: buffers_of_add_busy)
  from heap_accounts_mset [OF this] acc
  have "heap_accounts bi (heap_lo st bi) (heap_hi st bi) m (buffers_of (add_busy_tail ?e ?P))" by blast
  moreover have "pool_inv (add_busy_tail ?e ?P)" by (intro pool_inv_add_busy [OF pool]) simp
  ultimately have "cmem_inv (upd_pool bi (npools st bi) (add_busy_tail ?e) (st\<lparr>store := m\<rparr>))"
    by (intro inv_heap_step [OF inv bi _ same])
  moreover have "st' = upd_pool bi (npools st bi) (add_busy_tail ?e) (st\<lparr>store := m\<rparr>)"
      "r = (if copy_out io then Done [Some phys] else Fail EFAULT)"
    using run Some km hp(1) by (auto simp: enter_heap_buffer_def Let_def phys_def split: if_splits)
  ultimately show ?thesis by simp
qed

lemma inv_ALLOCHEAP:
  assumes inv: "cmem_inv st" and req: "good_request sz al" and b: "0 \<le> blockid" and km: "kmalloc_user io"
    and run: "ioctl_ALLOCHEAP mm io filp cmd sz al blockid st = (r, st')"
  shows "cmem_inv st' \<and> (\<forall>c. r \<noteq> Crash c)"
proof (cases "copy_in io \<and> blockid < int NBLOCKS \<and> heap_pool st (nat blockid) \<noteq> -1 \<and> lock_ok io")
  case False
  then show ?thesis
    using run inv b by (auto simp: ioctl_ALLOCHEAP_def with_block_def split: if_splits)
next
  case True
  define bi where "bi = nat blockid"
  have bi: "bi < NBLOCKS" "heap_pool st bi \<noteq> -1" using True b by (auto simp: bi_def)
  obtain m p where mp: "HeapMem_alloc bi sz al False (store st) = Some (m, p)"
      "same_outside {heap_lo st bi..<heap_hi st bi} {HeadAt bi} (store st) m"
      "heap_accounts bi (heap_lo st bi) (heap_hi st bi) m
         (if p = 0 then buffers_of (p_objs st bi (npools st bi))
          else (p, sz) # buffers_of (p_objs st bi (npools st bi)))"
    using heap_alloc_step [OF cmem_inv_heap(3) [OF inv bi] req] by blast
  have run': "(r, st') = (if p = 0 then (Fail ENOMEM, st\<lparr>store := m\<rparr>)
       else enter_heap_buffer mm io filp cmd sz p bi (st\<lparr>store := m\<rparr>))"
    using run True mp(1) b by (auto simp: ioctl_ALLOCHEAP_def with_block_def bi_def Let_def)
  show ?thesis
  proof (cases "p = 0")
    case True
    then show ?thesis using run' mp(3) inv_store_step [OF inv bi mp(2)] by simp
  next
    case False
    then show ?thesis
      using run' mp(3) inv_enter_heap_buffer [OF inv bi km mp(2), of p sz mm filp cmd r st'] by simp
  qed
qed

section \<open>The other commands\<close>

lemma inv_ALLOC:
  assumes inv: "cmem_inv st" and b: "0 \<le> blockid" and km: "kmalloc_user io"
    and run: "ioctl_ALLOC io filp cmd pool blockid w2 st = (r, st')"
  shows "cmem_inv st' \<and> (\<forall>c. r \<noteq> Crash c)"
proof (cases "copy_in io \<and> blockid < int NBLOCKS \<and> 0 \<le> pool \<and> pool < int (npools st (nat blockid))
    \<and> lock_ok io \<and> freelist (p_objs st (nat blockid) (nat pool)) \<noteq> [] \<and> copy_out io")
  case False
  then show ?thesis
    using run inv b by (auto simp: ioctl_ALLOC_def with_block_def Let_def split: if_splits list.splits)
next
  case True
  define bi i where "bi = nat blockid" "i = nat pool"
  let ?p = "p_objs st bi i"
  obtain entry es where es: "freelist ?p = entry # es" using True by (auto simp: bi_i_def neq_Nil_conv)
  let ?e = "entry\<lparr>flags := cmd AND NOT CMEM_IOCCMDMASK, users := filp # users entry\<rparr>"
  have bi: "bi < NBLOCKS" "i < npools st bi" using True b by (auto simp: bi_i_def)
  then have i: "i < num_pools st bi" by (simp add: num_pools_def)
  have "pool_inv (free_to_busy ?e ?p)"
    by (intro pool_inv_free_to_busy cmem_inv_pool [OF inv bi(1) i]) simp
  then have "cmem_inv (upd_pool bi i (free_to_busy ?e) st)"
    using bi by (intro inv_pool_step [OF inv bi(1) i]) auto
  then show ?thesis
    using run True es km b
    by (auto simp: ioctl_ALLOC_def with_block_def Let_def bi_i_def [symmetric] split: if_splits)
qed

lemma inv_release_buffer:
  assumes inv: "cmem_inv st" and hit: "find_busy_entry st p = Some (entry, k, pool, bi)"
    and e: "kvirtp e = kvirtp entry" "pb_size e = pb_size entry" "users e = []"
    and run: "release_buffer cmd virtp bi pool k e st = (r, st')"
  shows "cmem_inv st' \<and> r = Done ()"
proof -
  note h = find_busy_entry_Some [OF hit]
  have pl: "pool_inv (p_objs st bi pool)" by (rule cmem_inv_pool [OF inv h(1,2)])
  show ?thesis
  proof (cases "pool = npools st bi")
    case False
    then have "cmem_inv (upd_pool bi pool (busy_to_free k e) st)"
      by (intro inv_pool_step [OF inv h(1,2), of "busy_to_free k e"] pool_inv_busy_to_free [OF pl e(3)]) simp
    then show ?thesis
      using run False heap_pool_iff [OF inv h(1,2)] by (auto simp: release_buffer_def)
  next
    case True
    have hp: "heap_pool st bi \<noteq> -1" using h(2) True by (auto simp: num_pools_def split: if_splits)
    let ?P = "p_objs st bi (npools st bi)"
    have k: "k < length (busylist ?P)" "busylist ?P ! k = entry" using h True by auto
    obtain m where m: "HeapMem_free bi (kvirtp e) (pb_size e) (store st) = Some m"
        "same_outside {heap_lo st bi..<heap_hi st bi} {HeadAt bi} (store st) m"
        "heap_accounts bi (heap_lo st bi) (heap_hi st bi) m (buffers_of (drop_busy k ?P))"
      using heap_free_step cmem_inv_heap(3) [OF inv h(1) hp] buffers_of_split [OF k(1)] k(2) e
      by metis
    have "pool_inv (drop_busy k ?P)" using pool_inv_drop_busy [OF pl] True by simp
    from inv_heap_step [OF inv h(1) hp, of "drop_busy k" m, OF this m(2,3)]
    have I: "cmem_inv (upd_pool bi (npools st bi) (drop_busy k) (st\<lparr>store := m\<rparr>))" .
    show ?thesis
      using run True m(1) heap_pool_iff [OF inv h(1,2)]
        cmem_inv_same [OF I, of "upd_pool bi (npools st bi) (drop_busy k)
            (st\<lparr>cache_ops := cache_ops st @ [Cache_inv virtp (pb_size e)], store := m\<rparr>)"] I
      by (auto simp: release_buffer_def Let_def same_config_def upd_pool_def split: if_splits)
  qed
qed

lemma inv_set_busy:
  assumes inv: "cmem_inv st" and hit: "find_busy_entry st p = Some (entry, k, pool, bi)"
    and e: "kvirtp e = kvirtp entry" "pb_size e = pb_size entry" "users e \<noteq> []"
  shows "cmem_inv (upd_pool bi pool (set_busy k e) st)"
proof -
  note h = find_busy_entry_Some [OF hit]
  show ?thesis
    using cmem_inv_pool [OF inv h(1,2)] e h
    by (intro inv_pool_step [OF inv h(1,2)] pool_inv_set_busy buffers_of_set_busy) auto
qed

lemma inv_free_entry:
  assumes inv: "cmem_inv st" and run: "free_entry io filp cmd virtp phys st = (r, st')"
  shows "cmem_inv st' \<and> (\<forall>c. r \<noteq> Crash c)"
proof (cases "find_busy_entry st phys")
  case None
  then show ?thesis using run inv by (auto simp: free_entry_def)
next
  case (Some h)
  obtain entry k pool bi where h: "h = (entry, k, pool, bi)" by (cases h)
  let ?e = "entry\<lparr>users := remove1 filp (users entry)\<rparr>"
  show ?thesis
  proof (cases "filp \<in> set (users entry)")
    case False
    then show ?thesis using run inv Some h by (auto simp: free_entry_def)
  next
    case reg: True
    show ?thesis
    proof (cases "users ?e = []")
      case True
      obtain q st1 where rel: "release_buffer cmd virtp bi pool k ?e st = (q, st1)" by fastforce
      have "cmem_inv st1 \<and> q = Done ()"
        using inv_release_buffer [OF inv Some [unfolded h] _ _ True rel] by simp
      then show ?thesis
        using run reg True Some h rel by (auto simp: free_entry_def Let_def split: if_splits)
    next
      case False
      then have "cmem_inv (upd_pool bi pool (set_busy k ?e) st)"
        by (intro inv_set_busy [OF inv Some [unfolded h]]) auto
      then show ?thesis
        using run reg False Some h by (auto simp: free_entry_def Let_def split: if_splits)
    qed
  qed
qed

lemma inv_FREE:
  assumes inv: "cmem_inv st" and run: "ioctl_FREE mm io filp cmd w0 st = (r, st')"
  shows "cmem_inv st' \<and> (\<forall>c. r \<noteq> Crash c)"
  using run inv inv_free_entry [OF inv]
  by (auto simp: ioctl_FREE_def Let_def split: if_splits)

lemma inv_REGUSER:
  assumes inv: "cmem_inv st" and km: "kmalloc_user io" and run: "ioctl_REGUSER io filp phys st = (r, st')"
  shows "cmem_inv st' \<and> (\<forall>c. r \<noteq> Crash c)"
proof (cases "find_busy_entry st phys")
  case None
  then show ?thesis using run inv by (auto simp: ioctl_REGUSER_def split: if_splits)
next
  case (Some h)
  obtain entry k pool bi where h: "h = (entry, k, pool, bi)" by (cases h)
  have "cmem_inv (upd_pool bi pool (set_busy k (entry\<lparr>users := filp # users entry\<rparr>)) st)"
    by (intro inv_set_busy [OF inv Some [unfolded h]]) auto
  then show ?thesis
    using run inv Some h km by (auto simp: ioctl_REGUSER_def Let_def split: if_splits)
qed

section \<open>Close\<close>

text \<open>What the walk over one busy list leaves: the entries that still have a user.\<close>

definition survivors :: "bool \<Rightarrow> filp \<Rightarrow> pool_buffer list \<Rightarrow> pool_buffer list" where
  "survivors last_close filp es = filter (\<lambda>e. users e \<noteq> []) (map (unregister last_close filp) es)"

definition departed :: "bool \<Rightarrow> filp \<Rightarrow> pool_buffer list \<Rightarrow> pool_buffer list" where
  "departed last_close filp es = filter (\<lambda>e. users e = []) (map (unregister last_close filp) es)"

lemma unregister_fields [simp]:
  "kvirtp (unregister lc f e) = kvirtp e" "pb_size (unregister lc f e) = pb_size e"
  "physp (unregister lc f e) = physp e"
  by (simp_all add: unregister_def)

lemma survivors_last: "survivors True filp es = []"
  by (simp add: survivors_def unregister_def)

lemma release_entries_pool:
  "release_entries lc filp False bi es kept free m =
     Some (rev kept @ survivors lc filp es, rev (departed lc filp es) @ free, m)"
  by (induction es arbitrary: kept free) (auto simp: survivors_def departed_def Let_def)

definition bufs :: "pool_buffer list \<Rightarrow> (u32 \<times> u32) list" where
  "bufs es = map (\<lambda>e. (kvirtp e, pb_size e)) es"

lemma bufs_simps [simp]:
  "bufs [] = []" "bufs (e # es) = (kvirtp e, pb_size e) # bufs es" "bufs (xs @ ys) = bufs xs @ bufs ys"
  by (simp_all add: bufs_def)

lemma release_entries_heap:
  assumes "heap_accounts bi lo hi m (bufs (rev kept) @ bufs es)"
  shows "\<exists>m'. release_entries lc filp True bi es kept free m = Some (rev kept @ survivors lc filp es, free, m')
           \<and> same_outside {lo..<hi} {HeadAt bi} m m'
           \<and> heap_accounts bi lo hi m' (bufs (rev kept @ survivors lc filp es))"
  using assms
proof (induction es arbitrary: kept m)
  case Nil
  then show ?case by (simp add: survivors_def)
next
  case (Cons e es)
  let ?e = "unregister lc filp e"
  show ?case
  proof (cases "users ?e = []")
    case True
    obtain m1 where m1: "HeapMem_free bi (kvirtp ?e) (pb_size ?e) m = Some m1"
        "same_outside {lo..<hi} {HeadAt bi} m m1" "heap_accounts bi lo hi m1 (bufs (rev kept) @ bufs es)"
      using heap_free_step [of bi lo hi m "bufs (rev kept)" "kvirtp e" "pb_size e" "bufs es"] Cons.prems
      by auto
    from Cons.IH [OF m1(3)] obtain m2 where
        "release_entries lc filp True bi es kept free m1 = Some (rev kept @ survivors lc filp es, free, m2)"
        "same_outside {lo..<hi} {HeadAt bi} m1 m2"
        "heap_accounts bi lo hi m2 (bufs (rev kept @ survivors lc filp es))" by blast
    then show ?thesis using True m1(1,2) by (auto simp: survivors_def Let_def same_outside_def)
  next
    case False
    have "heap_accounts bi lo hi m (bufs (rev (?e # kept)) @ bufs es)" using Cons.prems by simp
    from Cons.IH [OF this] False show ?thesis by (auto simp: survivors_def Let_def)
  qed
qed

lemma pool_inv_survivors:
  assumes "pool_inv p"
  shows "pool_inv (p\<lparr>busylist := survivors lc filp (busylist p), freelist := f\<rparr>) \<longleftrightarrow> (\<forall>e\<in>set f. users e = [])"
  using assms by (auto simp: pool_inv_def survivors_def)

lemma release_pool_spec:
  assumes inv: "cmem_inv st" and bi: "bi < NBLOCKS" "i < num_pools st bi"
  shows "\<exists>st'. release_pool lc filp bi i st = Some st' \<and> cmem_inv st' \<and> same_config st st'
           \<and> reference_count st' = reference_count st
           \<and> busylist (p_objs st' bi i) = survivors lc filp (busylist (p_objs st bi i))
           \<and> freelist (p_objs st' bi i) = (if i = npools st bi then freelist (p_objs st bi i)
               else rev (departed lc filp (busylist (p_objs st bi i))) @ freelist (p_objs st bi i))
           \<and> (\<forall>b j. (b, j) \<noteq> (bi, i) \<longrightarrow> p_objs st' b j = p_objs st b j)"
proof -
  let ?p = "p_objs st bi i"
  have pl: "pool_inv ?p" by (rule cmem_inv_pool [OF inv bi])
  show ?thesis
  proof (cases "i = npools st bi")
    case True
    have hp: "heap_pool st bi \<noteq> -1" using bi(2) True by (auto simp: num_pools_def split: if_splits)
    let ?f = "\<lambda>p. p\<lparr>busylist := survivors lc filp (busylist ?p), freelist := freelist ?p\<rparr>"
    obtain m where m: "release_entries lc filp True bi (busylist ?p) [] (freelist ?p) (store st)
          = Some (survivors lc filp (busylist ?p), freelist ?p, m)"
        "same_outside {heap_lo st bi..<heap_hi st bi} {HeadAt bi} (store st) m"
        "heap_accounts bi (heap_lo st bi) (heap_hi st bi) m (bufs (survivors lc filp (busylist ?p)))"
      using release_entries_heap [of bi "heap_lo st bi" "heap_hi st bi" "store st" "[]" "busylist ?p" lc filp "freelist ?p"]
        cmem_inv_heap(3) [OF inv bi(1) hp] True by (auto simp: buffers_of_def bufs_def)
    have "pool_inv (?f ?p)" by (rule pool_inv_survivors [OF pl, THEN iffD2]) (use pl in \<open>simp add: pool_inv_def\<close>)
    then have "cmem_inv (upd_pool bi (npools st bi) ?f (st\<lparr>store := m\<rparr>))"
      using True m(2,3) by (intro inv_heap_step [OF inv bi(1) hp, of ?f m]) (auto simp: buffers_of_def bufs_def)
    then show ?thesis
      using m(1) True hp cmem_inv_heap(2) [OF inv bi(1) hp]
      by (auto simp: release_pool_def Let_def same_config_def upd_pool_def)
  next
    case False
    let ?free = "rev (departed lc filp (busylist ?p)) @ freelist ?p"
    let ?f = "\<lambda>p. p\<lparr>busylist := survivors lc filp (busylist ?p), freelist := ?free\<rparr>"
    have "pool_inv (?f ?p)"
      by (rule pool_inv_survivors [OF pl, THEN iffD2]) (use pl in \<open>auto simp: pool_inv_def departed_def\<close>)
    then have "cmem_inv (upd_pool bi i ?f st)"
      using False by (intro inv_pool_step [OF inv bi, of ?f]) auto
    moreover have "\<not> (heap_pool st bi \<noteq> -1 \<and> i = num_pools st bi - 1)"
      using False by (auto simp: num_pools_def)
    ultimately show ?thesis
      using False by (auto simp: release_pool_def Let_def release_entries_pool same_config_def upd_pool_def)
  qed
qed

end
