(* ===== verification/CmemSystem.thy ===== *)
theory CmemSystem
  imports CmemSafe
begin

text \<open>
  The CMEM driver as a whole: what a close leaves behind, the ioctl dispatcher, and the
  transition system of all its calls, with the invariant of its reachable states.
\<close>

section \<open>Close\<close>

lemma release_pools_spec:
  assumes "cmem_inv st" and "\<forall>(b, i)\<in>set is. b < NBLOCKS \<and> i < num_pools st b" and "distinct is"
    and "\<forall>b i. locks b i"
  shows "\<exists>st'. release_pools locks lc filp is st = (Done (), st') \<and> cmem_inv st' \<and> same_config st st'
           \<and> reference_count st' = reference_count st
           \<and> (\<forall>b i. busylist (p_objs st' b i) = (if (b, i) \<in> set is
                then survivors lc filp (busylist (p_objs st b i)) else busylist (p_objs st b i)))
           \<and> (\<forall>b i. freelist (p_objs st' b i) = (if (b, i) \<in> set is \<and> i \<noteq> npools st b
                then rev (departed lc filp (busylist (p_objs st b i))) @ freelist (p_objs st b i)
                else freelist (p_objs st b i)))"
  using assms
proof (induction "is" arbitrary: st)
  case Nil
  then show ?case by simp
next
  case (Cons x xs)
  obtain bi i where x: "x = (bi, i)" by (cases x)
  have bi: "bi < NBLOCKS" "i < num_pools st bi" using Cons.prems x by auto
  obtain st1 where st1: "release_pool lc filp bi i st = Some st1" "cmem_inv st1" "same_config st st1"
      "reference_count st1 = reference_count st"
      "busylist (p_objs st1 bi i) = survivors lc filp (busylist (p_objs st bi i))"
      "freelist (p_objs st1 bi i) = (if i = npools st bi then freelist (p_objs st bi i)
               else rev (departed lc filp (busylist (p_objs st bi i))) @ freelist (p_objs st bi i))"
      "\<forall>b j. (b, j) \<noteq> (bi, i) \<longrightarrow> p_objs st1 b j = p_objs st b j"
    using release_pool_spec [OF Cons.prems(1) bi] by blast
  have np: "num_pools st1 = num_pools st" "npools st1 = npools st"
    using same_config_num_pools [OF st1(3)] st1(3) by (simp_all add: same_config_def)
  have "\<forall>(b, i)\<in>set xs. b < NBLOCKS \<and> i < num_pools st1 b" "distinct xs"
    using Cons.prems np by auto
  from Cons.IH [OF st1(2) this Cons.prems(4)] obtain st2 where st2:
      "release_pools locks lc filp xs st1 = (Done (), st2)" "cmem_inv st2" "same_config st1 st2"
      "reference_count st2 = reference_count st1"
      "\<forall>b i. busylist (p_objs st2 b i) = (if (b, i) \<in> set xs
                then survivors lc filp (busylist (p_objs st1 b i)) else busylist (p_objs st1 b i))"
      "\<forall>b i. freelist (p_objs st2 b i) = (if (b, i) \<in> set xs \<and> i \<noteq> npools st1 b
                then rev (departed lc filp (busylist (p_objs st1 b i))) @ freelist (p_objs st1 b i)
                else freelist (p_objs st1 b i))"
    by blast
  have nx: "(bi, i) \<notin> set xs" using Cons.prems(3) x by simp
  have eq: "p_objs st1 b j = p_objs st b j" if "(b, j) \<noteq> (bi, i)" for b j using st1(7) that by blast
  have "busylist (p_objs st2 b j) = (if (b, j) \<in> set (x # xs)
                then survivors lc filp (busylist (p_objs st b j)) else busylist (p_objs st b j))" for b j
    using st2(5) st1(5) eq [of b j] nx x by (cases "(b, j) = (bi, i)") auto
  moreover have "freelist (p_objs st2 b j) = (if (b, j) \<in> set (x # xs) \<and> j \<noteq> npools st b
                then rev (departed lc filp (busylist (p_objs st b j))) @ freelist (p_objs st b j)
                else freelist (p_objs st b j))" for b j
    using st2(6) st1(6) eq [of b j] nx x np(2) by (cases "(b, j) = (bi, i)") auto
  moreover have "same_config st st2" using st1(3) st2(3) by (simp add: same_config_def)
  moreover have "release_pools locks lc filp (x # xs) st = (Done (), st2)"
    using x st1(1) st2(1) Cons.prems(4) by simp
  ultimately show ?case using st2(2,4) st1(4) by auto
qed

lemma set_all_pools: "set (all_pools st) = {(b, i). b < NBLOCKS \<and> i < num_pools st b}"
  by (auto simp: all_pools_def)

lemma distinct_all_pools: "distinct (all_pools st)"
proof -
  have "distinct (concat (map (\<lambda>bi. map (Pair bi) [0..<f bi]) bis))" if "distinct bis" for f and bis :: "nat list"
    using that by (induction bis) (auto simp: distinct_map inj_on_def)
  then show ?thesis by (simp add: all_pools_def)
qed

text \<open>A close whose locks are all taken: every registration of the file is gone.\<close>

lemma cmem_release_spec:
  assumes inv: "cmem_inv st" and locks: "\<forall>b i. locks b i"
  shows "\<exists>st'. cmem_release locks filp st = (Done (), st') \<and> cmem_inv st' \<and> same_config st st'
           \<and> reference_count st' = reference_count st - 1
           \<and> (\<forall>b<NBLOCKS. \<forall>i<num_pools st b. busylist (p_objs st' b i)
                = survivors (reference_count st = 1) filp (busylist (p_objs st b i)))
           \<and> (\<forall>b<NBLOCKS. \<forall>i<npools st b. freelist (p_objs st' b i)
                = rev (departed (reference_count st = 1) filp (busylist (p_objs st b i)))
                  @ freelist (p_objs st b i))"
proof -
  let ?st = "st\<lparr>reference_count := reference_count st - 1\<rparr>"
  have cfg: "same_config st ?st" by (simp add: same_config_def)
  have inv': "cmem_inv ?st" by (rule cmem_inv_same [OF inv cfg]) simp_all
  have "\<forall>(b, i)\<in>set (all_pools ?st). b < NBLOCKS \<and> i < num_pools ?st b"
    using set_all_pools by auto
  from release_pools_spec [OF inv' this distinct_all_pools locks, of "reference_count st = 1" filp]
  obtain st' where st': "release_pools locks (reference_count st = 1) filp (all_pools ?st) ?st = (Done (), st')"
      "cmem_inv st'" "same_config ?st st'" "reference_count st' = reference_count st - 1"
      "\<forall>b i. busylist (p_objs st' b i) = (if (b, i) \<in> set (all_pools ?st)
                then survivors (reference_count st = 1) filp (busylist (p_objs st b i)) else busylist (p_objs st b i))"
      "\<forall>b i. freelist (p_objs st' b i) = (if (b, i) \<in> set (all_pools ?st) \<and> i \<noteq> npools st b
                then rev (departed (reference_count st = 1) filp (busylist (p_objs st b i))) @ freelist (p_objs st b i)
                else freelist (p_objs st b i))"
    by auto
  have mem: "(b, i) \<in> set (all_pools ?st) \<longleftrightarrow> b < NBLOCKS \<and> i < num_pools st b" for b i
    using set_all_pools [of ?st] same_config_num_pools [OF cfg] by auto
  have np: "i < num_pools st b" if "i < npools st b" for b i using that by (simp add: num_pools_def)
  have "cmem_release locks filp st = (Done (), st')"
    using st'(1) by (simp add: cmem_release_def Let_def)
  moreover have "same_config st st'" using st'(3) cfg by (simp add: same_config_def)
  ultimately show ?thesis using st'(2,4-) mem np by auto
qed

lemma inv_release:
  assumes "cmem_inv st" and "\<forall>(b, i)\<in>set is. b < NBLOCKS \<and> i < num_pools st b"
    and "release_pools locks lc filp is st = (r, st')"
  shows "cmem_inv st' \<and> (r = Done () \<or> r = Fail ERESTARTSYS)"
  using assms
proof (induction "is" arbitrary: st)
  case (Cons x xs)
  obtain bi i where x: "x = (bi, i)" by (cases x)
  have bi: "bi < NBLOCKS" "i < num_pools st bi" using Cons.prems x by auto
  obtain st1 where st1: "release_pool lc filp bi i st = Some st1" "cmem_inv st1" "same_config st st1"
    using release_pool_spec [OF Cons.prems(1) bi] by blast
  have "\<forall>(b, i)\<in>set xs. b < NBLOCKS \<and> i < num_pools st1 b"
    using Cons.prems(2) same_config_num_pools [OF st1(3)] by auto
  then show ?case
    using Cons.IH [OF st1(2)] Cons.prems(1,3) st1(1) x by (auto split: if_splits)
qed auto

section \<open>The ioctl dispatcher\<close>

text \<open>A dry run ends and leaves the heap alone, whatever the request.\<close>

lemma alloc_loop_dryrun_total:
  "chain m p xs \<Longrightarrow> \<exists>q. alloc_loop sz al True m prev p = Some (m, q)"
proof (induction xs arbitrary: p prev)
  case Nil
  then show ?case by (simp add: alloc_loop.simps [of _ _ _ _ _ 0])
next
  case (Cons x xs)
  then have "chain m (hdr_next (m (BlockAt p))) xs" by (cases x) auto
  from Cons.IH [OF this, of "BlockAt p"] show ?case
    by (subst alloc_loop.simps) (auto simp: Let_def)
qed

lemma HeapMem_alloc_dryrun_total:
  assumes "heap_accounts bi lo hi m ps"
  shows "\<exists>q. HeapMem_alloc bi sz al True m = Some (m, q)"
proof -
  obtain xs where "heap_rep bi lo hi m xs"
    using assms by (auto simp: heap_accounts_def heap.accounts_def heap_bytes_def)
  then show ?thesis
    using alloc_loop_dryrun_total by (auto simp: heap_rep_def free_list_def HeapMem_alloc_def)
qed

lemma inv_GETPOOL:
  assumes inv: "cmem_inv st" and b: "0 \<le> blockid" and run: "ioctl_GETPOOL io req blockid st = (r, st')"
  shows "st' = st \<and> (\<forall>c. r \<noteq> Crash c)"
proof (cases "blockid < int NBLOCKS \<and> heap_pool st (nat blockid) \<noteq> -1")
  case True
  then have "nat blockid < NBLOCKS" using b by auto
  from HeapMem_alloc_dryrun_total [OF cmem_inv_heap(3) [OF inv this]] True
  obtain q where "HeapMem_alloc (nat blockid) req HEAP_ALIGN True (store st) = Some (store st, q)"
    by blast
  then show ?thesis using run b by (auto simp: ioctl_GETPOOL_def Let_def split: if_splits)
next
  case False
  then show ?thesis using run b by (auto simp: ioctl_GETPOOL_def Let_def split: if_splits)
qed

definition expected :: "u32 \<Rightarrow> u32 \<times> u32 \<times> u32 \<Rightarrow> bool" where
  "expected cmd args =
     (let (w0, w1, w2) = args; c = cmd AND CMEM_IOCCMDMASK
      in (c = 2 \<longrightarrow> good_request w0 w1 \<and> 0 \<le> sint w2) \<and> (c = 1 \<or> c = 5 \<or> c = 6 \<longrightarrow> 0 \<le> sint w1))"

lemma inv_CACHE: "ioctl_CACHE io cmd v len st = (r, st') \<Longrightarrow> cmem_inv st \<Longrightarrow> cmem_inv st' \<and> (\<forall>c. r \<noteq> Crash c)"
  using cmem_inv_same [of st st']
  by (auto simp: ioctl_CACHE_def Let_def same_config_def split: if_splits)

lemma queries_pure:
  "0 \<le> blockid \<Longrightarrow> ioctl_GETSIZE io pool blockid st = (r, st') \<Longrightarrow> st' = st \<and> (\<forall>c. r \<noteq> Crash c)"
  "ioctl_GETPHYS mm io v st = (r, st') \<Longrightarrow> st' = st \<and> (\<forall>c. r \<noteq> Crash c)"
  "ioctl_GETVERSION io st = (r, st') \<Longrightarrow> st' = st \<and> (\<forall>c. r \<noteq> Crash c)"
  "ioctl_GETBLOCK io w0 w2 st = (r, st') \<Longrightarrow> st' = st \<and> (\<forall>c. r \<noteq> Crash c)"
  "ioctl_GETNUMBLOCKS io st = (r, st') \<Longrightarrow> st' = st \<and> (\<forall>c. r \<noteq> Crash c)"
  by (auto simp: handler_defs Let_def split: if_splits)

text \<open>The commands of the dispatcher: the five that may change the state, and the queries.\<close>

lemma cmem_ioctl_cases:
  assumes inv: "cmem_inv st" and ex: "expected cmd (w0, w1, w2)"
    and run: "cmem_ioctl mm io filp cmd (w0, w1, w2) st = (r, st')"
  obtains (ALLOCHEAP) "good_request w0 w1" "0 \<le> sint w2"
      "ioctl_ALLOCHEAP mm io filp cmd w0 w1 (sint w2) st = (r, st')"
  | (ALLOC) "0 \<le> sint w1" "ioctl_ALLOC io filp cmd (sint w0) (sint w1) w2 st = (r, st')"
  | (FREE) "ioctl_FREE mm io filp cmd w0 st = (r, st')"
  | (CACHE) "ioctl_CACHE io cmd w0 w1 st = (r, st')"
  | (REGUSER) "ioctl_REGUSER io filp w0 st = (r, st')"
  | (query) "st' = st" "\<forall>c. r \<noteq> Crash c"
proof -
  define c where "c = cmd AND CMEM_IOCCMDMASK"
  have ex': "c = 2 \<Longrightarrow> good_request w0 w1" "c = 2 \<Longrightarrow> 0 \<le> sint w2"
      "c = 1 \<Longrightarrow> 0 \<le> sint w1" "c = 5 \<Longrightarrow> 0 \<le> sint w1" "c = 6 \<Longrightarrow> 0 \<le> sint w1"
    using ex by (auto simp: expected_def c_def)
  note run' = run [unfolded cmem_ioctl_def Let_def split c_def [symmetric]]
  consider "c = 2" | "c = 1" | "c = 3" | "c = 4" | "c = 5" | "c = 6" | "c = 7" | "c = 8" | "c = 9"
    | "c = 11" | "c = 10" | "c \<notin> {1, 2, 3, 4, 5, 6, 7, 8, 9, 10, 11}" by auto
  then show thesis
  proof cases
    case 1 with run' ex'(1,2) show thesis by (intro that(1)) simp_all
  next
    case 2 with run' ex'(3) show thesis by (intro that(2)) simp_all
  next
    case 3 with run' show thesis by (intro that(3)) simp
  next
    case 4 with run' queries_pure(2) show thesis by (intro that(6)) fastforce+
  next
    case 5 with run' queries_pure(1) [OF ex'(4)] show thesis by (intro that(6)) fastforce+
  next
    case 6 with run' inv_GETPOOL [OF inv ex'(5)] show thesis by (intro that(6)) fastforce+
  next
    case 7 with run' show thesis by (intro that(4)) simp
  next
    case 8 with run' queries_pure(3) show thesis by (intro that(6)) fastforce+
  next
    case 9 with run' queries_pure(4) show thesis by (intro that(6)) fastforce+
  next
    case 10 with run' queries_pure(5) show thesis by (intro that(6)) fastforce+
  next
    case 11 with run' show thesis by (intro that(5)) simp
  next
    case 12 with run' show thesis by (intro that(6)) auto
  qed
qed

lemma inv_cmem_ioctl:
  assumes inv: "cmem_inv st" and ex: "expected cmd (w0, w1, w2)" and km: "kmalloc_user io"
    and run: "cmem_ioctl mm io filp cmd (w0, w1, w2) st = (r, st')"
  shows "cmem_inv st' \<and> (\<forall>c. r \<noteq> Crash c)"
  using inv ex run
proof (cases rule: cmem_ioctl_cases)
  case ALLOCHEAP then show ?thesis by (rule inv_ALLOCHEAP [OF inv _ _ km])
next
  case ALLOC then show ?thesis by (rule inv_ALLOC [OF inv _ km])
next
  case FREE then show ?thesis by (rule inv_FREE [OF inv])
next
  case CACHE then show ?thesis by (rule inv_CACHE [OF _ inv])
next
  case REGUSER then show ?thesis by (rule inv_REGUSER [OF inv km])
qed (use inv in simp)

section \<open>The transition system\<close>

inductive cmem_step :: "cmem \<Rightarrow> cmem \<Rightarrow> bool" where
  step_open: "cmem_step st (cmem_open st)"
| step_ioctl: "expected cmd (w0, w1, w2) \<Longrightarrow> kmalloc_user io
    \<Longrightarrow> cmem_ioctl mm io filp cmd (w0, w1, w2) st = (r, st') \<Longrightarrow> cmem_step st st'"
| step_release: "cmem_release locks filp st = (r, st') \<Longrightarrow> cmem_step st st'"

inductive_cases cmem_stepE: "cmem_step st st'"

inductive cmem_reach :: "cmem \<Rightarrow> cmem \<Rightarrow> bool" where
  reach_start: "cmem_reach st st"
| reach_step: "cmem_reach st st' \<Longrightarrow> cmem_step st' st'' \<Longrightarrow> cmem_reach st st''"

lemma inv_cmem_release:
  assumes inv: "cmem_inv st" and run: "cmem_release locks filp st = (r, st')"
  shows "cmem_inv st' \<and> (r = Done () \<or> r = Fail ERESTARTSYS)"
proof -
  let ?st = "st\<lparr>reference_count := reference_count st - 1\<rparr>"
  have "cmem_inv ?st" by (rule cmem_inv_same [OF inv]) (simp_all add: same_config_def)
  moreover have "\<forall>(b, i)\<in>set (all_pools ?st). b < NBLOCKS \<and> i < num_pools ?st b"
    using set_all_pools by auto
  ultimately show ?thesis
    using inv_release [of ?st "all_pools ?st"] run by (auto simp: cmem_release_def Let_def)
qed

lemma inv_step: "cmem_step st st' \<Longrightarrow> cmem_inv st \<Longrightarrow> cmem_inv st'"
proof (elim cmem_stepE)
  assume "st' = cmem_open st" "cmem_inv st"
  then show ?thesis
    using cmem_inv_same [of st st'] by (simp add: cmem_open_def same_config_def)
qed (auto dest: inv_cmem_ioctl inv_cmem_release)

lemma inv_reach: "cmem_reach st st' \<Longrightarrow> cmem_inv st \<Longrightarrow> cmem_inv st'"
  by (induction rule: cmem_reach.induct) (auto dest: inv_step)

end
