(* ===== verification/CmemPools.thy ===== *)
theory CmemPools
  imports CmemSystem
begin

text \<open>
  Conservation of pool buffers: no call of the driver loses, duplicates or invents a buffer
  of a pool. What is kept is the multiset of the physical addresses on the two lists of
  each pool.
\<close>

definition pool_addresses :: "pool_object \<Rightarrow> u32 multiset" where
  "pool_addresses p = mset (map physp (freelist p)) + mset (map physp (busylist p))"

definition pools_kept :: "cmem \<Rightarrow> cmem \<Rightarrow> bool" where
  "pools_kept st st' \<longleftrightarrow> npools st' = npools st
     \<and> (\<forall>bi<NBLOCKS. \<forall>i<npools st bi. pool_addresses (p_objs st' bi i) = pool_addresses (p_objs st bi i))"

lemma pools_kept_refl [simp]: "pools_kept st st"
  by (simp add: pools_kept_def)

lemma pools_kept_trans: "pools_kept st st' \<Longrightarrow> pools_kept st' st'' \<Longrightarrow> pools_kept st st''"
  by (simp add: pools_kept_def)

lemma pools_kept_same: "npools st' = npools st \<Longrightarrow> p_objs st' = p_objs st \<Longrightarrow> pools_kept st st'"
  by (simp add: pools_kept_def)

lemma pools_kept_upd:
  assumes "i < npools st bi \<Longrightarrow> pool_addresses (f (p_objs st bi i)) = pool_addresses (p_objs st bi i)"
  shows "pools_kept st (upd_pool bi i f st)"
  using assms by (auto simp: pools_kept_def)

lemma pool_addresses_set_busy:
  assumes "k < length (busylist p)" and "physp e = physp (busylist p ! k)"
  shows "pool_addresses (set_busy k e p) = pool_addresses p"
proof -
  have "map physp ((busylist p)[k := e]) = map physp (busylist p)"
    using assms by (simp add: map_update list_update_same_conv)
  then have "mset (map physp ((busylist p)[k := e])) = mset (map physp (busylist p))" by (rule arg_cong)
  then show ?thesis by (simp add: pool_addresses_def set_busy_def)
qed

lemma pool_addresses_busy_to_free:
  assumes "k < length (busylist p)" and "physp e = physp (busylist p ! k)"
  shows "pool_addresses (busy_to_free k e p) = pool_addresses p"
proof -
  have "busylist p ! k \<in># mset (busylist p)" using assms(1) by simp
  then have "mset (busylist p) = add_mset (busylist p ! k) (mset (busylist p) - {#busylist p ! k#})"
    by simp
  then have "image_mset physp (mset (busylist p))
      = add_mset (physp e) (image_mset physp (mset (busylist p) - {#busylist p ! k#}))"
    using assms(2) by (metis image_mset_add_mset)
  then show ?thesis
    by (simp add: pool_addresses_def busy_to_free_def mset_remove_nth [OF assms(1)])
qed

lemma pool_addresses_free_to_busy:
  "freelist p = e0 # es \<Longrightarrow> physp e = physp e0 \<Longrightarrow> pool_addresses (free_to_busy e p) = pool_addresses p"
  by (simp add: pool_addresses_def free_to_busy_def)

lemma kept_enter_heap_buffer:
  assumes inv: "cmem_inv st" and bi: "bi < NBLOCKS" "heap_pool st bi \<noteq> -1"
    and run: "enter_heap_buffer mm io filp cmd sz p bi (st\<lparr>store := m\<rparr>) = (r, st')"
  shows "pools_kept st st'"
proof -
  note hp = cmem_inv_heap [OF inv bi]
  have s: "pools_kept st (st\<lparr>store := m\<rparr>)" by (simp add: pools_kept_same)
  have u: "pools_kept (st\<lparr>store := m\<rparr>) (upd_pool bi (nat (heap_pool st bi)) f (st\<lparr>store := m\<rparr>))" for f
    using hp(1) by (intro pools_kept_upd) simp
  show ?thesis
    using run pools_kept_trans [OF s u] s
    by (auto simp: enter_heap_buffer_def Let_def pools_kept_same split: option.splits if_splits)
qed

lemma kept_ALLOCHEAP:
  assumes inv: "cmem_inv st" and run: "ioctl_ALLOCHEAP mm io filp cmd sz al blockid st = (r, st')"
  shows "pools_kept st st'"
proof -
  have "pools_kept st st'"
    if "enter_heap_buffer mm io filp cmd sz p (nat blockid) (st\<lparr>store := m\<rparr>) = (r, st')"
      "\<not> int NBLOCKS \<le> blockid" "heap_pool st (nat blockid) \<noteq> -1" for p m
    using that(2) by (intro kept_enter_heap_buffer [OF inv _ that(3,1)]) (simp add: NBLOCKS_def)
  then show ?thesis
    using run
    by (auto simp: ioctl_ALLOCHEAP_def with_block_def Let_def pools_kept_same
        split: if_splits option.splits prod.splits)
qed

lemma kept_ALLOC:
  assumes "ioctl_ALLOC io filp cmd pool blockid w2 st = (r, st')"
  shows "pools_kept st st'"
  using assms
  by (auto simp: ioctl_ALLOC_def with_block_def Let_def split: if_splits list.splits
      intro!: pools_kept_upd pool_addresses_free_to_busy)

lemma kept_free_entry:
  assumes inv: "cmem_inv st" and run: "free_entry io filp cmd virtp phys st = (r, st')"
  shows "pools_kept st st'"
proof (cases "find_busy_entry st phys")
  case (Some h)
  obtain e k i bi where h: "h = (e, k, i, bi)" by (cases h)
  note hit = find_busy_entry_Some [OF Some [unfolded h]]
  let ?e = "e\<lparr>users := remove1 filp (users e)\<rparr>"
  have set: "pools_kept st (upd_pool bi i (set_busy k ?e) st)"
    using hit by (intro pools_kept_upd pool_addresses_set_busy) auto
  have free: "pools_kept st (upd_pool bi i (busy_to_free k ?e) st)"
    using hit by (intro pools_kept_upd pool_addresses_busy_to_free) auto
  have rel: "pools_kept st s" if "release_buffer cmd virtp bi i k ?e st = (q, s)" for q s
  proof (cases "int i = heap_pool st bi")
    case True
    then have "i = npools st bi" using heap_pool_iff [OF inv hit(1,2)] by simp
    then have "pools_kept st (upd_pool bi i (drop_busy k) st0)"
      if "npools st0 = npools st" "p_objs st0 = p_objs st" for st0
      using that by (auto simp: pools_kept_def)
    then show ?thesis
      using that True unfolding release_buffer_def Let_def
      by (auto split: option.splits if_splits intro: pools_kept_same)
  qed (use that free in \<open>auto simp: release_buffer_def\<close>)
  obtain q s where qs: "(if users ?e = [] then release_buffer cmd virtp bi i k ?e st
      else (Done (), upd_pool bi i (set_busy k ?e) st)) = (q, s)" by fastforce
  then have "pools_kept st s" using set rel by (auto split: if_splits)
  moreover have "st' = st \<or> st' = s"
    using run Some h qs by (auto simp: free_entry_def Let_def split: if_splits res.splits)
  ultimately show ?thesis by auto
qed (use run in \<open>auto simp: free_entry_def\<close>)

lemma kept_FREE: "cmem_inv st \<Longrightarrow> ioctl_FREE mm io filp cmd w0 st = (r, st') \<Longrightarrow> pools_kept st st'"
  using kept_free_entry by (auto simp: ioctl_FREE_def Let_def split: if_splits)

lemma kept_REGUSER:
  assumes "ioctl_REGUSER io filp phys st = (r, st')"
  shows "pools_kept st st'"
proof (cases "find_busy_entry st phys")
  case (Some h)
  obtain e k i bi where h: "h = (e, k, i, bi)" by (cases h)
  have "pools_kept st (upd_pool bi i (set_busy k (e\<lparr>users := filp # users e\<rparr>)) st)"
    using find_busy_entry_Some [OF Some [unfolded h]]
    by (intro pools_kept_upd pool_addresses_set_busy) auto
  then show ?thesis
    using assms Some h by (auto simp: ioctl_REGUSER_def Let_def split: if_splits)
qed (use assms in \<open>auto simp: ioctl_REGUSER_def split: if_splits\<close>)

lemma kept_ioctl:
  assumes inv: "cmem_inv st" and ex: "expected cmd (w0, w1, w2)"
    and run: "cmem_ioctl mm io filp cmd (w0, w1, w2) st = (r, st')"
  shows "pools_kept st st'"
  using inv ex run
proof (cases rule: cmem_ioctl_cases)
  case ALLOCHEAP then show ?thesis by (intro kept_ALLOCHEAP [OF inv])
next
  case ALLOC then show ?thesis by (intro kept_ALLOC)
next
  case FREE then show ?thesis by (rule kept_FREE [OF inv])
next
  case CACHE then show ?thesis by (auto simp: ioctl_CACHE_def Let_def pools_kept_same split: if_splits)
next
  case REGUSER then show ?thesis by (rule kept_REGUSER)
qed simp

lemma departed_survivors:
  "mset (map physp (departed lc f es)) + mset (map physp (survivors lc f es)) = mset (map physp es)"
  by (induction es) (auto simp: departed_def survivors_def)

lemma kept_release_pool:
  assumes "cmem_inv st" and "bi < NBLOCKS" and "i < num_pools st bi"
    and "release_pool lc filp bi i st = Some st'"
  shows "pools_kept st st'"
proof -
  have "pool_addresses (p_objs st' b j) = pool_addresses (p_objs st b j)" if "j < npools st b" for b j
    using release_pool_spec [OF assms(1-3), of lc filp] assms(4) that departed_survivors [of lc filp "busylist (p_objs st b j)"]
    by (cases "(b, j) = (bi, i)") (auto simp: pool_addresses_def add.commute add.left_commute)
  moreover have "npools st' = npools st"
    using release_pool_spec [OF assms(1-3), of lc filp] assms(4) by (auto simp: same_config_def)
  ultimately show ?thesis by (simp add: pools_kept_def)
qed

lemma kept_release_pools:
  assumes "cmem_inv st" and "\<forall>(b, i)\<in>set is. b < NBLOCKS \<and> i < num_pools st b"
    and "release_pools locks lc filp is st = (r, st')"
  shows "pools_kept st st'"
  using assms
proof (induction "is" arbitrary: st)
  case (Cons x xs)
  obtain bi i where x: "x = (bi, i)" by (cases x)
  have bi: "bi < NBLOCKS" "i < num_pools st bi" using Cons.prems x by auto
  obtain st1 where st1: "release_pool lc filp bi i st = Some st1" "cmem_inv st1" "same_config st st1"
    using release_pool_spec [OF Cons.prems(1) bi] by blast
  have "\<forall>(b, i)\<in>set xs. b < NBLOCKS \<and> i < num_pools st1 b"
    using Cons.prems(2) same_config_num_pools [OF st1(3)] by auto
  then show ?case
    using Cons.IH [OF st1(2)] Cons.prems(3) st1(1) x pools_kept_trans
      kept_release_pool [OF Cons.prems(1) bi st1(1)] by (auto split: if_splits)
qed auto

lemma kept_release:
  assumes inv: "cmem_inv st" and run: "cmem_release locks filp st = (r, st')"
  shows "pools_kept st st'"
proof -
  let ?st = "st\<lparr>reference_count := reference_count st - 1\<rparr>"
  have "cmem_inv ?st" by (rule cmem_inv_same [OF inv]) (simp_all add: same_config_def)
  moreover have "\<forall>(b, i)\<in>set (all_pools ?st). b < NBLOCKS \<and> i < num_pools ?st b"
    using set_all_pools by auto
  ultimately have "pools_kept ?st st'"
    using kept_release_pools [of ?st "all_pools ?st"] run by (auto simp: cmem_release_def Let_def)
  then show ?thesis by (simp add: pools_kept_def)
qed

lemma kept_step: "cmem_step st st' \<Longrightarrow> cmem_inv st \<Longrightarrow> pools_kept st st'"
  by (elim cmem_stepE)
     (auto simp: cmem_open_def pools_kept_same dest: kept_ioctl kept_release)

lemma kept_reach: "cmem_reach st st' \<Longrightarrow> cmem_inv st \<Longrightarrow> pools_kept st st'"
  by (induction rule: cmem_reach.induct) (auto dest: kept_step inv_reach intro: pools_kept_trans)

end
