(* ===== verification/CmemProps.thy ===== *)
theory CmemProps
  imports CmemPools HeapProps
begin

text \<open>
  The properties of the CMEM driver: what its reachable states promise, what each
  command does to the users of a buffer, and which buffer or pool a command picks. A small
  concrete driver state, one block with a pool of two buffers and a heap, serves the
  witnesses.
\<close>

section \<open>A concrete driver state\<close>

definition demo_buffer :: "int \<Rightarrow> u32 \<Rightarrow> u32 \<Rightarrow> u32 \<Rightarrow> filp list \<Rightarrow> pool_buffer" where
  "demo_buffer i p v sz us = \<lparr>pb_id = i, physp = p, flags = 0, kvirtp = v, pb_size = sz, users = us\<rparr>"

definition demo_pool :: pool_object where
  "demo_pool = \<lparr>freelist = [demo_buffer 0 0x90000 0x10000 0x1000 []],
     busylist = [demo_buffer 1 0x91000 0x11000 0x1000 [7]],
     numbufs = 2, po_size = 0x1000, reqsize = 0x1000\<rparr>"

definition demo_heap_pool :: pool_object where
  "demo_heap_pool = \<lparr>freelist = [], busylist = [demo_buffer 1 0x83000 0x3000 0x1000 [7, 9], demo_buffer 1 0x8c000 0xc000 0x800 [9]],
     numbufs = 0, po_size = 0, reqsize = 0\<rparr>"

definition empty_pool :: pool_object where
  "empty_pool = \<lparr>freelist = [], busylist = [], numbufs = 0, po_size = 0, reqsize = 0\<rparr>"

definition demo_cmem :: cmem where
  "demo_cmem = \<lparr>
     p_objs = (\<lambda>_ _. empty_pool)(0 := ((\<lambda>_. empty_pool)(0 := demo_pool, 1 := demo_heap_pool))),
     npools = (\<lambda>_. 0)(0 := 1), heap_pool = (\<lambda>_. -1)(0 := 1), store = demo_heap,
     heap_size = (\<lambda>_. 0)(0 := 0xc000), heap_virtp = (\<lambda>_. 0)(0 := 0x1000),
     block_virtp = (\<lambda>_. 0)(0 := 0x1000), block_virtoff = (\<lambda>_. 0)(0 := 0xfff80000),
     block_virtend = (\<lambda>_. 0)(0 := 0x12000),
     block_start = (\<lambda>_. 0)(0 := 0x81000), block_end = (\<lambda>_. 0)(0 := 0x92000),
     block_avail_size = (\<lambda>_. 0), total_num_buffers = (\<lambda>_. 0)(0 := 3), nblocks = 1,
     reference_count = 2, useHeapIfPoolUnavailable = True, cache_ops = []\<rparr>"

lemma demo_num_pools [simp]: "num_pools demo_cmem b = (if b = 0 then 2 else 0)"
  by (simp add: num_pools_def demo_cmem_def)

lemma demo_inv: "cmem_inv demo_cmem"
proof -
  have r: "round_page 4096 = 4096" "round_page 2048 = 4096" by (simp_all add: round_page_def)
  have acc: "heap_accounts 0 0x1000 0xd000 demo_heap [(0x3000, 0x1000), (0xc000, 0x800)]"
    unfolding heap_accounts_def heap.accounts_def heap_bytes_def
  proof (intro exI [of _ "bytes demo_blocks"] conjI)
    have "heap_rep 0 0x1000 0xd000 demo_heap demo_blocks"
      by (simp add: heap_rep_def free_list_def demo_heap_def demo_blocks_def)
    then show "\<exists>xs. heap_rep 0 0x1000 0xd000 demo_heap xs \<and> bytes xs = bytes demo_blocks"
      by blast
  qed (auto simp: heap.pieces.simps heap.owned_simps good_size_def demo_blocks_def r)
  have "heap_inv demo_cmem b" for b
    using acc by (simp add: heap_inv_def demo_cmem_def heap_lo_def heap_hi_def buffers_of_def
        demo_heap_pool_def demo_buffer_def)
  moreover have "pool_inv (p_objs demo_cmem b i)" for b i
    by (simp add: pool_inv_def demo_cmem_def demo_pool_def demo_heap_pool_def empty_pool_def demo_buffer_def)
  moreover have "arenas_apart demo_cmem"
    by (simp add: arenas_apart_def demo_cmem_def)
  ultimately show ?thesis by (simp add: cmem_inv_def)
qed

definition demo_mm :: mm where
  "demo_mm = \<lparr>PAGE_OFFSET = 0xc0000000, virt_to_phys = (\<lambda>v. v - 0x40000000),
     find_vma = (\<lambda>_. None), user_page = (\<lambda>_. None)\<rparr>"

definition demo_io :: io where
  "demo_io = \<lparr>copy_in = True, copy_out = True, lock_ok = True,
     kmalloc_entry = Some (demo_buffer 0 0 0 0 []), kmalloc_user = True\<rparr>"

section \<open>The reachable states\<close>

text \<open>C2: In every state the driver reaches by opens, closes and expected ioctl calls in any
  order, two different busy buffers of the heap of a block share no byte, and each lies
  within the heap: no caller is ever handed memory that another one holds.\<close>

theorem busy_heap_buffers_disjoint:
  assumes "cmem_inv st0" and "cmem_reach st0 st" and "bi < NBLOCKS" and "heap_pool st bi \<noteq> -1"
    and "busylist (p_objs st bi (npools st bi)) = es1 @ e # es2"
  shows "{unat (kvirtp e)..<unat (kvirtp e) + round_page (unat (pb_size e))}
           \<subseteq> {unat (heap_virtp st bi)..<unat (heap_virtp st bi) + unat (heap_size st bi)}
         \<and> (\<forall>e'\<in>set (es1 @ es2).
             {unat (kvirtp e)..<unat (kvirtp e) + round_page (unat (pb_size e))}
             \<inter> {unat (kvirtp e')..<unat (kvirtp e') + round_page (unat (pb_size e'))} = {})"
proof -
  have inv: "cmem_inv st" by (rule inv_reach [OF assms(2,1)])
  have acc: "heap_accounts bi (heap_lo st bi) (heap_hi st bi) (store st)
      (bufs es1 @ (kvirtp e, pb_size e) # bufs es2)"
    using cmem_inv_heap(3) [OF inv assms(3,4)] assms(5) by (simp add: buffers_of_def bufs_def)
  note acc' = acc [unfolded heap_accounts_def]
  have "{unat (kvirtp e)..<unat (kvirtp e) + round_page (unat (pb_size e))}
      \<inter> {unat (kvirtp e')..<unat (kvirtp e') + round_page (unat (pb_size e'))} = {}"
    if "e' \<in> set (es1 @ es2)" for e'
    using that by (intro heap.accounts_disjoint [OF acc']) (auto simp: bufs_def)
  then show ?thesis
    using heap.accounts_arena [OF acc'] by (simp add: heap_lo_def heap_hi_def)
qed


text \<open>The demo state with a reachable successor: a second open, then a FREE by file 7.\<close>

lemma demo_reach: "cmem_reach demo_cmem (cmem_open demo_cmem)"
  by (rule reach_step [OF reach_start step_open])

lemma demo_open_inv: "cmem_inv (cmem_open demo_cmem)"
  by (rule inv_reach [OF demo_reach demo_inv])

theorem busy_heap_buffers_disjoint_witness:
  "{unat (0x3000 :: u32)..<unat (0x3000 :: u32) + round_page (unat (0x1000 :: u32))}
     \<inter> {unat (0xc000 :: u32)..<unat (0xc000 :: u32) + round_page (unat (0x800 :: u32))} = {}"
proof -
  have "heap_pool (cmem_open demo_cmem) 0 \<noteq> -1" "0 < NBLOCKS"
      "busylist (p_objs (cmem_open demo_cmem) 0 (npools (cmem_open demo_cmem) 0))
        = [] @ demo_buffer 1 0x83000 0x3000 0x1000 [7, 9] # [demo_buffer 1 0x8c000 0xc000 0x800 [9]]"
    by (simp_all add: cmem_open_def demo_cmem_def demo_heap_pool_def NBLOCKS_def)
  from busy_heap_buffers_disjoint [OF demo_inv demo_reach this(2,1,3)]
  show ?thesis by (simp add: demo_buffer_def)
qed


section \<open>Users of a buffer\<close>

text \<open>Only a registered user can free a buffer: a FREE by a file that is not on the user list
  of the busy buffer, or of an address where no buffer is busy, fails and changes nothing
  at all, whatever other buffers exist and whatever the flavour of the command.\<close>

theorem FREE_by_stranger_refused:
  assumes "\<And>e k i bi. find_busy_entry st phys = Some (e, k, i, bi) \<Longrightarrow> filp \<notin> set (users e)"
    and "if cmd AND CMEM_PHYS = 0 then get_phys mm st w0 = phys else w0 = phys"
  shows "\<exists>err. ioctl_FREE mm io filp cmd w0 st = (Fail err, st)"
proof -
  have "free_entry io filp cmd v phys st = (Fail EFAULT, st)" for v
    using assms(1) by (auto simp: free_entry_def split: option.splits)
  with assms(2) show ?thesis by (auto simp: ioctl_FREE_def Let_def split: if_splits)
qed

theorem FREE_by_stranger_refused_witness:
  "\<exists>err. ioctl_FREE demo_mm demo_io 8 (3 OR CMEM_PHYS) 0x91000 demo_cmem = (Fail err, demo_cmem)"
proof (rule FREE_by_stranger_refused [where phys = "0x91000"])
  fix e k i bi assume "find_busy_entry demo_cmem 0x91000 = Some (e, k, i, bi)"
  then show "8 \<notin> set (users e)"
    by (auto simp: find_busy_entry_def demo_cmem_def demo_pool_def demo_buffer_def
        num_pools_def NBLOCKS_def upt_rec split: if_splits)
next
  show "if (3 OR CMEM_PHYS) AND CMEM_PHYS = 0 then get_phys demo_mm demo_cmem 0x91000 = 0x91000
      else (0x91000 :: u32) = 0x91000"
    by (simp add: CMEM_PHYS_def)
qed

text \<open>Updating an entry on its busy list leaves the searches of the other addresses, and finds
  the entry itself at the same place.\<close>

lemma scan_busylist_update:
  assumes "scan_busylist p bi i j es = Some (e, k, i', bi')" and "physp e' = physp e"
  shows "scan_busylist p bi i j (es[k - j := e']) = Some (e', k, i', bi')"
  using assms
proof (induction es arbitrary: j)
  case (Cons a es)
  show ?case
  proof (cases "physp a = p")
    case False
    with Cons.prems have s: "scan_busylist p bi i (Suc j) es = Some (e, k, i', bi')" by simp
    then have "Suc j \<le> k" using scan_busylist_Some by blast
    then have "k - j = Suc (k - Suc j)" by simp
    with Cons.IH [OF s Cons.prems(2)] False show ?thesis by simp
  qed (use Cons.prems in auto)
qed simp

lemma scan_pools_update:
  assumes "scan_pools st p b is = Some (e, k, i, bi)" and "physp e' = physp e" and "distinct is"
  shows "scan_pools (upd_pool bi i (set_busy k e') st) p b is = Some (e', k, i, bi)"
  using assms
proof (induction "is")
  case (Cons a as)
  show ?case
  proof (cases "scan_busylist p b a 0 (busylist (p_objs st b a))")
    case None
    with Cons.prems have s: "scan_pools st p b as = Some (e, k, i, bi)" by simp
    from scan_pools_Some [OF s] Cons.prems(3) have "a \<noteq> i" by auto
    with Cons.IH [OF s Cons.prems(2)] None Cons.prems(3) show ?thesis by simp
  next
    case (Some h)
    then have h: "scan_busylist p b a 0 (busylist (p_objs st b a)) = Some (e, k, i, bi)"
      using Cons.prems(1) by simp
    from scan_busylist_Some [OF h] have "i = a" "bi = b" by auto
    with scan_busylist_update [OF h Cons.prems(2)] show ?thesis by (simp add: set_busy_def)
  qed
qed simp

lemma find_busy_entry_update:
  assumes "find_busy_entry st p = Some (e, k, i, bi)" and "physp e' = physp e"
  shows "find_busy_entry (upd_pool bi i (set_busy k e') st) p = Some (e', k, i, bi)"
proof -
  have "scan_blocks st p bis = Some (e, k, i, bi) \<Longrightarrow> distinct bis \<Longrightarrow>
      scan_blocks (upd_pool bi i (set_busy k e') st) p bis = Some (e', k, i, bi)" for bis
  proof (induction bis)
    case (Cons b bs)
    show ?case
    proof (cases "scan_pools st p b [0..<num_pools st b]")
      case None
      with Cons.prems have s: "scan_blocks st p bs = Some (e, k, i, bi)" by simp
      have "bi \<in> set bs"
        using s by (induction bs) (auto dest!: scan_pools_Some split: option.splits)
      then have nb: "b \<noteq> bi" using Cons.prems(2) by auto
      have "scan_pools (upd_pool bi i (set_busy k e') st) p b is = scan_pools st p b is" for "is"
        using nb by (induction "is") (auto split: option.splits)
      with Cons.IH [OF s] None Cons.prems(2) show ?thesis by simp
    next
      case (Some h)
      then have "scan_pools st p b [0..<num_pools st b] = Some (e, k, i, bi)" using Cons.prems(1) by simp
      from scan_pools_update [OF this assms(2)] show ?thesis by simp
    qed
  qed simp
  with assms(1) show ?thesis by (simp add: find_busy_entry_def)
qed

lemma upd_pool_twice: "upd_pool bi i f (upd_pool bi i g st) = upd_pool bi i (f \<circ> g) st"
  by (simp add: upd_pool_def)

lemma upd_pool_id: "f (p_objs st bi i) = p_objs st bi i \<Longrightarrow> upd_pool bi i f st = st"
  by (simp add: upd_pool_def)

text \<open>Registering and freeing are inverse: after a successful REGUSER of a busy buffer, a FREE
  of the same physical address by the same file succeeds and restores the state of the
  driver exactly, however often the file was registered before. In particular a file that
  registered twice has to free twice.\<close>

theorem REGUSER_FREE_roundtrip:
  assumes hit: "find_busy_entry st phys = Some (entry, k, i, bi)" and reg: "users entry \<noteq> []"
    and run: "ioctl_REGUSER io filp phys st = (Done reply, st1)"
    and ok: "copy_in io'" "lock_ok io'" "copy_out io'" and cmd: "cmd AND CMEM_PHYS \<noteq> 0"
  shows "\<exists>reply'. ioctl_FREE mm io' filp cmd phys st1 = (Done reply', st)"
proof -
  note h = find_busy_entry_Some [OF hit]
  let ?e = "entry\<lparr>users := filp # users entry\<rparr>"
  have st1: "st1 = upd_pool bi i (set_busy k ?e) st"
    using run hit by (auto simp: ioctl_REGUSER_def Let_def split: if_splits)
  have hit1: "find_busy_entry st1 phys = Some (?e, k, i, bi)"
    unfolding st1 by (rule find_busy_entry_update [OF hit]) simp
  have e: "?e\<lparr>users := remove1 filp (users ?e)\<rparr> = entry" by simp
  have "upd_pool bi i (set_busy k entry) st1 = st"
    using h(3,4) unfolding st1 upd_pool_twice
    by (intro upd_pool_id) (auto simp: set_busy_def)
  then have "free_entry io' filp cmd 0 phys st1
      = (Done [Some (of_nat i), Some (if int i = heap_pool st1 bi then pb_size entry
                 else po_size (p_objs st1 bi i)), None], st)"
    using hit1 reg ok(3) by (simp add: free_entry_def Let_def e)
  then show ?thesis using ok cmd by (simp add: ioctl_FREE_def)
qed

theorem REGUSER_FREE_roundtrip_witness:
  "\<exists>st1 reply reply'. ioctl_REGUSER demo_io 7 0x83000 demo_cmem = (Done reply, st1)
     \<and> ioctl_FREE demo_mm demo_io 7 CMEM_PHYS 0x83000 st1 = (Done reply', demo_cmem)"
proof -
  have hit: "find_busy_entry demo_cmem 0x83000 = Some (demo_buffer 1 0x83000 0x3000 0x1000 [7, 9], 0, 1, 0)"
    by (simp add: find_busy_entry_def demo_cmem_def demo_pool_def demo_heap_pool_def demo_buffer_def
        num_pools_def NBLOCKS_def upt_rec)
  obtain reply st1 where run: "ioctl_REGUSER demo_io 7 0x83000 demo_cmem = (Done reply, st1)"
    by (simp add: ioctl_REGUSER_def hit demo_io_def)
  have "copy_in demo_io" "lock_ok demo_io" "copy_out demo_io" "CMEM_PHYS AND CMEM_PHYS \<noteq> 0"
      "users (demo_buffer 1 0x83000 0x3000 0x1000 [7, 9]) \<noteq> []"
    by (simp_all add: demo_io_def CMEM_PHYS_def demo_buffer_def)
  from REGUSER_FREE_roundtrip [OF hit this(5) run this(1-4)] run show ?thesis by blast
qed

section \<open>Pools\<close>

definition pool_fits :: "u32 \<Rightarrow> pool_object \<Rightarrow> bool" where
  "pool_fits req p \<longleftrightarrow> req \<le> po_size p \<and> po_size p - req < MAXTYPE_int \<and> freelist p \<noteq> []"

definition candidate :: "u32 \<Rightarrow> u32 \<Rightarrow> pool_object \<Rightarrow> bool" where
  "candidate req delta p \<longleftrightarrow> req \<le> po_size p \<and> po_size p - req < delta \<and> freelist p \<noteq> []"

lemma minus_less_iff_u32:
  fixes a b r :: u32
  assumes "r \<le> a" and "r \<le> b"
  shows "a - r < b - r \<longleftrightarrow> a < b"
  using assms by (auto simp: word_less_nat_alt word_le_nat_alt unat_minus_no_wrap)

definition best_index :: "u32 \<Rightarrow> u32 \<Rightarrow> pool_object list \<Rightarrow> nat \<Rightarrow> bool" where
  "best_index req delta ps j \<longleftrightarrow> j < length ps \<and> candidate req delta (ps ! j)
     \<and> (\<forall>k<length ps. candidate req delta (ps ! k) \<longrightarrow>
           po_size (ps ! j) \<le> po_size (ps ! k) \<and> (k < j \<longrightarrow> po_size (ps ! j) < po_size (ps ! k)))"

lemma best_index_skip: "\<not> candidate req delta p \<Longrightarrow> best_index req delta ps j \<Longrightarrow> best_index req delta (p # ps) (Suc j)"
  by (auto simp: best_index_def nth_Cons split: nat.splits)

text \<open>A candidate lowers the bound: what is better than it is searched for in the rest.\<close>

lemma candidate_lower:
  "candidate req delta p \<Longrightarrow> candidate req (po_size p - req) q \<longleftrightarrow> candidate req delta q \<and> po_size q < po_size p"
  using minus_less_iff_u32 [of req "po_size q" "po_size p"] by (auto simp: candidate_def)

lemma best_index_first:
  assumes "candidate req delta p" and "\<forall>q\<in>set ps. \<not> candidate req (po_size p - req) q"
  shows "best_index req delta (p # ps) 0"
proof -
  have "po_size p \<le> po_size ((p # ps) ! k)" if "k < length (p # ps)" "candidate req delta ((p # ps) ! k)" for k
    using that assms(2) candidate_lower [OF assms(1)] by (cases k) (auto simp: not_less)
  then show ?thesis using assms(1) by (simp add: best_index_def)
qed

lemma best_index_better:
  assumes "candidate req delta p" and "best_index req (po_size p - req) ps j"
  shows "best_index req delta (p # ps) (Suc j)"
proof -
  note less = candidate_lower [OF assms(1)]
  have jp: "po_size (ps ! j) < po_size p" using assms(2) less by (simp add: best_index_def)
  have "po_size (ps ! j) \<le> po_size ((p # ps) ! k) \<and> (k < Suc j \<longrightarrow> po_size (ps ! j) < po_size ((p # ps) ! k))"
    if k: "k < length (p # ps)" "candidate req delta ((p # ps) ! k)" for k
  proof (cases k)
    case (Suc k')
    then show ?thesis
      using k assms(2) less jp by (cases "po_size (ps ! k') < po_size p") (auto simp: best_index_def not_less)
  qed (use jp in simp)
  then show ?thesis using assms(2) less by (simp add: best_index_def)
qed

lemma best_pool_finds:
  "(\<forall>p\<in>set ps. \<not> candidate req delta p) \<and> best_pool ps req i delta pool = pool
   \<or> (\<exists>j. best_index req delta ps j \<and> best_pool ps req i delta pool = int (i + j))"
proof (induction ps arbitrary: i delta pool)
  case (Cons p ps)
  show ?case
  proof (cases "candidate req delta p")
    case True
    have "best_pool (p # ps) req i delta pool = best_pool ps req (Suc i) (po_size p - req) (int i)"
      using True by (simp add: candidate_def)
    with Cons.IH [of "po_size p - req" "Suc i" "int i"] show ?thesis
      using best_index_first [OF True] best_index_better [OF True] by fastforce
  next
    case False
    have "best_pool (p # ps) req i delta pool = best_pool ps req (Suc i) delta pool"
      using False by (auto simp: candidate_def)
    with Cons.IH [of delta "Suc i" pool] show ?thesis using best_index_skip [OF False] False by fastforce
  qed
qed simp

lemma best_pool_spec:
  "(\<forall>p\<in>set ps. \<not> candidate req delta p) \<and> best_pool ps req i delta pool = pool
   \<or> (\<exists>j<length ps. candidate req delta (ps ! j) \<and> best_pool ps req i delta pool = int (i + j)
        \<and> (\<forall>k<length ps. candidate req delta (ps ! k) \<longrightarrow>
              po_size (ps ! j) \<le> po_size (ps ! k) \<and> (k < j \<longrightarrow> po_size (ps ! j) < po_size (ps ! k))))"
  using best_pool_finds [of ps req delta i pool] unfolding best_index_def by blast

text \<open>GETPOOL without a heap to fall back on returns the best fitting pool: a pool that has a
  free buffer of at least the requested size, no other such pool being smaller and no
  earlier one being as small; ENOMEM exactly when no pool with a free buffer is large
  enough by less than the largest \<open>int\<close>. The driver's state does not change.\<close>

theorem GETPOOL_best_fit:
  assumes "copy_in io" "copy_out io" "lock_ok io" and b: "0 \<le> blockid" "blockid < int NBLOCKS"
    and "heap_pool st (nat blockid) = -1 \<or> \<not> useHeapIfPoolUnavailable st"
  shows "(\<forall>j<npools st (nat blockid). \<not> pool_fits req (p_objs st (nat blockid) j))
           \<and> ioctl_GETPOOL io req blockid st = (Fail ENOMEM, st)
         \<or> (\<exists>j<npools st (nat blockid). pool_fits req (p_objs st (nat blockid) j)
              \<and> ioctl_GETPOOL io req blockid st = (Done [Some (of_nat j)], st)
              \<and> (\<forall>k<npools st (nat blockid). pool_fits req (p_objs st (nat blockid) k) \<longrightarrow>
                    po_size (p_objs st (nat blockid) j) \<le> po_size (p_objs st (nat blockid) k)
                    \<and> (k < j \<longrightarrow> po_size (p_objs st (nat blockid) j) < po_size (p_objs st (nat blockid) k))))"
proof -
  let ?ps = "map (p_objs st (nat blockid)) [0..<npools st (nat blockid)]"
  have c: "candidate req MAXTYPE_int = pool_fits req"
    by (simp add: candidate_def pool_fits_def fun_eq_iff)
  have run: "ioctl_GETPOOL io req blockid st =
      (let pool = best_pool ?ps req 0 MAXTYPE_int (-1)
       in if pool = -1 then (Fail ENOMEM, st) else (Done [Some (word_of_int pool)], st))"
    using assms by (auto simp: ioctl_GETPOOL_def Let_def)
  from best_pool_spec [of ?ps req MAXTYPE_int 0 "-1", unfolded c] show ?thesis
  proof (elim disjE conjE exE)
    fix j assume j: "j < length ?ps" "pool_fits req (?ps ! j)"
        "best_pool ?ps req 0 MAXTYPE_int (-1) = int (0 + j)"
      and min: "\<forall>k<length ?ps. pool_fits req (?ps ! k) \<longrightarrow>
              po_size (?ps ! j) \<le> po_size (?ps ! k) \<and> (k < j \<longrightarrow> po_size (?ps ! j) < po_size (?ps ! k))"
    then show ?thesis using run by (intro disjI2 exI [of _ j]) auto
  qed (use run in auto)
qed

theorem GETPOOL_best_fit_witness:
  "ioctl_GETPOOL demo_io 0x800 0 (demo_cmem\<lparr>useHeapIfPoolUnavailable := False\<rparr>)
     = (Done [Some 0], demo_cmem\<lparr>useHeapIfPoolUnavailable := False\<rparr>)"
proof -
  let ?st = "demo_cmem\<lparr>useHeapIfPoolUnavailable := False\<rparr>"
  have np: "npools ?st (nat 0) = 1" by (simp add: demo_cmem_def)
  have fits: "pool_fits 0x800 (p_objs ?st (nat 0) 0)"
    by (simp add: demo_cmem_def demo_pool_def pool_fits_def MAXTYPE_int_def demo_buffer_def)
  have "copy_in demo_io" "copy_out demo_io" "lock_ok demo_io" "(0 :: int) \<le> 0" "0 < int NBLOCKS"
      "heap_pool ?st (nat 0) = -1 \<or> \<not> useHeapIfPoolUnavailable ?st"
    by (simp_all add: demo_io_def NBLOCKS_def)
  from GETPOOL_best_fit [OF this, of "0x800"] fits show ?thesis
    unfolding np by (elim disjE conjE exE) (simp_all only: less_one, simp_all)
qed

section \<open>Conservation\<close>

text \<open>No pool buffer is ever lost, duplicated or invented: in every reachable state the free
  and the busy list of each pool together hold exactly the buffers of the start, with the
  same physical addresses and the same multiplicity.\<close>

theorem pool_buffers_conserved:
  assumes "cmem_inv st0" and "cmem_reach st0 st" and "bi < NBLOCKS" and "i < npools st0 bi"
  shows "mset (map physp (freelist (p_objs st bi i))) + mset (map physp (busylist (p_objs st bi i)))
       = mset (map physp (freelist (p_objs st0 bi i))) + mset (map physp (busylist (p_objs st0 bi i)))"
  using kept_reach [OF assms(2,1)] assms(3,4) by (simp add: pools_kept_def pool_addresses_def)

theorem pool_buffers_conserved_witness:
  "mset (map physp (freelist (p_objs (cmem_open demo_cmem) 0 0)))
   + mset (map physp (busylist (p_objs (cmem_open demo_cmem) 0 0))) = {#0x90000, 0x91000#}"
proof -
  have "0 < NBLOCKS" "0 < npools demo_cmem 0" by (simp_all add: NBLOCKS_def demo_cmem_def)
  from pool_buffers_conserved [OF demo_inv demo_reach this] show ?thesis
    by (simp add: demo_cmem_def demo_pool_def demo_buffer_def)
qed



section \<open>Allocation from a pool\<close>

lemma find_busy_entry_fresh:
  assumes "find_busy_entry st (physp e) = None" and "bi < NBLOCKS" and "i < num_pools st bi"
  shows "find_busy_entry (upd_pool bi i (free_to_busy e) st) (physp e) = Some (e, 0, i, bi)"
proof -
  let ?st = "upd_pool bi i (free_to_busy e) st"
  have old: "physp e' \<noteq> physp e" if "b < NBLOCKS" "j < num_pools st b" "e' \<in> set (busylist (p_objs st b j))" for b j e'
    using assms(1) that by (auto simp: find_busy_entry_None)
  have "find_busy_entry ?st (physp e) \<noteq> None"
    using assms(2,3) by (auto simp: find_busy_entry_None free_to_busy_def)
  then obtain e' k j b where hit: "find_busy_entry ?st (physp e) = Some (e', k, j, b)" by auto
  note h = find_busy_entry_Some [OF hit]
  have at: "b = bi \<and> j = i"
    using h old [of b j e'] by (auto split: if_splits)
  have "k = 0"
  proof (rule ccontr)
    assume "k \<noteq> 0"
    then have "e' \<in> set (busylist (p_objs st bi i))"
      using h(3,4) at by (cases k) (auto simp: free_to_busy_def)
    with old [OF assms(2,3)] h(5) show False by blast
  qed
  then show ?thesis using hit h(4) at by (simp add: free_to_busy_def)
qed

text \<open>C15: ALLOC hands out the head of the free list of the pool with the caller as its only user,
  and the FREE of the returned physical address by the same file puts it back in front:
  the free list, the busy list and the rest of the state are as before, up to the caching
  flags of that buffer.\<close>

theorem ALLOC_FREE_roundtrip:
  assumes inv: "cmem_inv st" and bi: "bi < NBLOCKS" "i < npools st bi"
    and head: "freelist (p_objs st bi i) = e # es" and fresh: "find_busy_entry st (physp e) = None"
    and ok: "copy_in io" "lock_ok io" "copy_out io" "kmalloc_user io" and cmd: "fcmd AND CMEM_PHYS \<noteq> 0"
  shows "\<exists>st1 reply. ioctl_ALLOC io filp cmd (int i) (int bi) w2 st
             = (Done [Some (physp e), Some (po_size (p_objs st bi i)), Some w2], st1)
           \<and> ioctl_FREE mm io filp fcmd (physp e) st1 = (Done reply,
               upd_pool bi i (\<lambda>p. p\<lparr>freelist := e\<lparr>flags := cmd AND NOT CMEM_IOCCMDMASK\<rparr> # es\<rparr>) st)"
proof -
  have i: "i < num_pools st bi" using bi(2) by (simp add: num_pools_def)
  have ue: "users e = []" using cmem_inv_pool [OF inv bi(1) i] head by (simp add: pool_inv_def)
  let ?e = "e\<lparr>flags := cmd AND NOT CMEM_IOCCMDMASK, users := [filp]\<rparr>"
  let ?st = "upd_pool bi i (free_to_busy ?e) st"
  have alloc: "ioctl_ALLOC io filp cmd (int i) (int bi) w2 st
      = (Done [Some (physp e), Some (po_size (p_objs st bi i)), Some w2], ?st)"
    using bi head ok ue by (simp add: ioctl_ALLOC_def with_block_def Let_def)
  have hit: "find_busy_entry ?st (physp e) = Some (?e, 0, i, bi)"
    using find_busy_entry_fresh [of st ?e bi i] fresh bi(1) i by simp
  have np: "int i \<noteq> heap_pool st bi" using heap_pool_iff [OF inv bi(1) i] bi(2) by simp
  have "upd_pool bi i (busy_to_free 0 (?e\<lparr>users := []\<rparr>)) ?st
      = upd_pool bi i (\<lambda>p. p\<lparr>freelist := e\<lparr>flags := cmd AND NOT CMEM_IOCCMDMASK\<rparr> # es\<rparr>) st"
    using head ue
    by (cases "p_objs st bi i", cases e)
       (simp add: upd_pool_def busy_to_free_def free_to_busy_def remove_nth_def)
  then have "\<exists>reply. free_entry io filp fcmd 0 (physp e) ?st = (Done reply,
      upd_pool bi i (\<lambda>p. p\<lparr>freelist := e\<lparr>flags := cmd AND NOT CMEM_IOCCMDMASK\<rparr> # es\<rparr>) st)"
    using hit np ok(3) by (simp add: free_entry_def release_buffer_def Let_def)
  with alloc show ?thesis using ok cmd by (simp add: ioctl_FREE_def)
qed

theorem ALLOC_FREE_roundtrip_witness:
  "\<exists>st1 reply. ioctl_ALLOC demo_io 5 1 0 0 0 demo_cmem = (Done [Some 0x90000, Some 0x1000, Some 0], st1)
     \<and> ioctl_FREE demo_mm demo_io 5 CMEM_PHYS 0x90000 st1 = (Done reply, demo_cmem)"
proof -
  have head: "freelist (p_objs demo_cmem 0 0) = demo_buffer 0 0x90000 0x10000 0x1000 [] # []"
    and fresh: "find_busy_entry demo_cmem (physp (demo_buffer 0 0x90000 0x10000 0x1000 [])) = None"
    and bi: "0 < NBLOCKS" "0 < npools demo_cmem 0"
    by (simp_all add: find_busy_entry_def demo_cmem_def demo_pool_def demo_heap_pool_def demo_buffer_def
        num_pools_def NBLOCKS_def upt_rec)
  have ok: "copy_in demo_io" "lock_ok demo_io" "copy_out demo_io" "kmalloc_user demo_io"
      "CMEM_PHYS AND CMEM_PHYS \<noteq> 0" by (simp_all add: demo_io_def CMEM_PHYS_def)
  have same: "upd_pool 0 0 (\<lambda>p. p\<lparr>freelist := [(demo_buffer 0 0x90000 0x10000 0x1000 [])\<lparr>flags := 1 AND NOT CMEM_IOCCMDMASK\<rparr>]\<rparr>) demo_cmem = demo_cmem"
    by (rule upd_pool_id) (simp add: demo_cmem_def demo_pool_def demo_buffer_def CMEM_IOCCMDMASK_def)
  from ALLOC_FREE_roundtrip [OF demo_inv bi head fresh ok, of 5 1 0 demo_mm] same
  show ?thesis by (simp add: demo_buffer_def demo_cmem_def demo_pool_def)
qed

section \<open>Block ids\<close>

text \<open>The block id of ALLOCHEAP, ALLOC, GETSIZE and GETPOOL is compared with the number of blocks
  as a signed integer: a negative one passes the check and the arrays of the blocks are
  indexed out of their bounds. GETBLOCK, which compares unsigned, rejects the same word.\<close>

theorem negative_block_id_out_of_bounds:
  assumes "sint b < 0" and "copy_in io" and "lock_ok io" and "nblocks st \<le> of_nat NBLOCKS"
  shows "fst (ioctl_ALLOCHEAP mm io filp cmd sz al (sint b) st) = Crash Out_of_bounds
       \<and> fst (ioctl_ALLOC io filp cmd pool (sint b) w2 st) = Crash Out_of_bounds
       \<and> fst (ioctl_GETSIZE io pool (sint b) st) = Crash Out_of_bounds
       \<and> fst (ioctl_GETPOOL io req (sint b) st) = Crash Out_of_bounds
       \<and> ioctl_GETBLOCK io b w2 st = (Fail EINVAL, st)"
proof -
  have "2 \<le> unat b"
  proof (rule ccontr)
    assume "\<not> 2 \<le> unat b"
    then have "b = 0 \<or> b = 1"
      using unat_gt_0 [of b] by (auto simp: word_unat_eq_iff less_Suc_eq numeral_2_eq_2)
    with assms(1) show False by auto
  qed
  then have "nblocks st \<le> b" using assms(4) by (simp add: NBLOCKS_def word_le_nat_alt)
  then show ?thesis
    using assms
    by (simp add: ioctl_ALLOCHEAP_def ioctl_ALLOC_def ioctl_GETSIZE_def ioctl_GETPOOL_def
        ioctl_GETBLOCK_def with_block_def NBLOCKS_def)
qed

theorem negative_block_id_out_of_bounds_witness:
  "fst (cmem_ioctl demo_mm demo_io 7 5 (0, 0xffffffff, 0) demo_cmem) = Crash Out_of_bounds"
proof -
  have "sint (0xffffffff :: u32) < 0" "copy_in demo_io" "lock_ok demo_io"
      "nblocks demo_cmem \<le> of_nat NBLOCKS"
    by (simp_all add: demo_io_def demo_cmem_def NBLOCKS_def)
  from negative_block_id_out_of_bounds [OF this] show ?thesis
    by (simp add: cmem_ioctl_def CMEM_IOCCMDMASK_def)
qed

section \<open>mmap\<close>

text \<open>A pool buffer can be mapped exactly while it is allocated: before the ALLOC an mmap of its
  page offset fails with EINVAL, after it the mapping succeeds and is cached exactly when
  the ALLOC command carried the cached flavour. The length of the mapped area plays no
  role, it is not compared with the size of the buffer.\<close>

theorem ALLOC_mmap:
  assumes inv: "cmem_inv st" and bi: "bi < NBLOCKS" "i < npools st bi"
    and head: "freelist (p_objs st bi i) = e # es" and fresh: "find_busy_entry st (physp e) = None"
    and ok: "copy_in io" "lock_ok io" "copy_out io" "kmalloc_user io"
    and off: "push_bit PAGE_SHIFT (vm_pgoff vma) = physp e"
  shows "cmem_mmap io True vma st = Fail EINVAL
         \<and> (\<exists>reply st1. ioctl_ALLOC io filp cmd (int i) (int bi) w2 st = (Done reply, st1)
           \<and> cmem_mmap io True vma st1
               = Done ((if cmd AND CMEM_CACHED \<noteq> 0 then Map_cached else Map_noncached) (vma\<lparr>vm_io := True\<rparr>)))"
proof
  show "cmem_mmap io True vma st = Fail EINVAL"
    using ok(2) fresh off by (simp add: cmem_mmap_def set_cached_def set_noncached_def Let_def)
  have i: "i < num_pools st bi" using bi(2) by (simp add: num_pools_def)
  let ?e = "e\<lparr>flags := cmd AND NOT CMEM_IOCCMDMASK, users := filp # users e\<rparr>"
  let ?st = "upd_pool bi i (free_to_busy ?e) st"
  have "ioctl_ALLOC io filp cmd (int i) (int bi) w2 st
      = (Done [Some (physp e), Some (po_size (p_objs st bi i)), Some w2], ?st)"
    using bi head ok by (simp add: ioctl_ALLOC_def with_block_def Let_def)
  moreover have "find_busy_entry ?st (physp e) = Some (?e, 0, i, bi)"
    using find_busy_entry_fresh [of st ?e bi i] fresh bi(1) i by simp
  moreover have "(cmd AND NOT CMEM_IOCCMDMASK) AND CMEM_CACHED = cmd AND CMEM_CACHED"
    by (simp add: and.assoc CMEM_IOCCMDMASK_def CMEM_CACHED_def)
  ultimately show "\<exists>reply st1. ioctl_ALLOC io filp cmd (int i) (int bi) w2 st = (Done reply, st1)
      \<and> cmem_mmap io True vma st1
          = Done ((if cmd AND CMEM_CACHED \<noteq> 0 then Map_cached else Map_noncached) (vma\<lparr>vm_io := True\<rparr>))"
    using ok(2) off by (simp add: cmem_mmap_def set_cached_def set_noncached_def Let_def)
qed

theorem ALLOC_mmap_witness:
  "\<exists>reply st1. ioctl_ALLOC demo_io 5 (1 OR CMEM_CACHED) 0 0 0 demo_cmem = (Done reply, st1)
     \<and> cmem_mmap demo_io True \<lparr>vm_start = 0, vm_end = 0x9000, vm_pgoff = 0x90, vm_io = False\<rparr> st1
         = Done (Map_cached \<lparr>vm_start = 0, vm_end = 0x9000, vm_pgoff = 0x90, vm_io = True\<rparr>)"
proof -
  have head: "freelist (p_objs demo_cmem 0 0) = demo_buffer 0 0x90000 0x10000 0x1000 [] # []"
    and fresh: "find_busy_entry demo_cmem (physp (demo_buffer 0 0x90000 0x10000 0x1000 [])) = None"
    and bi: "0 < NBLOCKS" "0 < npools demo_cmem 0"
    by (simp_all add: find_busy_entry_def demo_cmem_def demo_pool_def demo_heap_pool_def demo_buffer_def
        num_pools_def NBLOCKS_def upt_rec)
  have ok: "copy_in demo_io" "lock_ok demo_io" "copy_out demo_io" "kmalloc_user demo_io"
      "push_bit PAGE_SHIFT (vm_pgoff \<lparr>vm_start = 0, vm_end = 0x9000, vm_pgoff = 0x90, vm_io = False\<rparr>)
        = physp (demo_buffer 0 0x90000 0x10000 0x1000 [])"
      "(1 OR CMEM_CACHED) AND CMEM_CACHED \<noteq> 0"
    by (simp_all add: demo_io_def CMEM_CACHED_def demo_buffer_def PAGE_SHIFT_def)
  from ALLOC_mmap [OF demo_inv bi head fresh ok(1-5), of 5 "1 OR CMEM_CACHED" 0] ok(6)
  show ?thesis by simp
qed

end
