(* ===== verification/Numerals.thy ===== *)
theory Numerals
  imports Prelude
begin

text \<open>
  Numbers as text: the parsing functions of the kernel (\<open>simple_strtol\<close>, \<open>kstrtoul\<close>) and the
  conversions of \<open>printf\<close>, and that reading gives back what was written.
\<close>

section \<open>Reading\<close>

definition digit_value :: "char \<Rightarrow> nat option" where
  "digit_value c =
     (let n = of_char c :: nat
      in if 48 \<le> n \<and> n \<le> 57 then Some (n - 48)
         else if 97 \<le> n \<and> n \<le> 102 then Some (n - 87)
         else if 65 \<le> n \<and> n \<le> 70 then Some (n - 55)
         else None)"

text \<open>\<open>simple_strtol\<close> of the kernel: an optional sign, an optional prefix 0x for base 16, then
  digits up to the first other character; an overflow wraps around.\<close>

fun parse_digits :: "nat \<Rightarrow> u32 \<Rightarrow> string \<Rightarrow> u32" where
  "parse_digits base acc [] = acc"
| "parse_digits base acc (c # cs) =
     (case digit_value c of
        None \<Rightarrow> acc
      | Some d \<Rightarrow> if d < base then parse_digits base (acc * of_nat base + of_nat d) cs else acc)"

definition simple_strtoul :: "nat \<Rightarrow> string \<Rightarrow> u32" where
  "simple_strtoul base s =
     parse_digits base 0
       (if base = 16 \<and> (take 2 s = ''0x'' \<or> take 2 s = ''0X'') then drop 2 s else s)"

definition simple_strtol :: "nat \<Rightarrow> string \<Rightarrow> u32" where
  "simple_strtol base s =
     (case s of
        [] \<Rightarrow> 0
      | c # cs \<Rightarrow> if c = CHR ''-'' then - simple_strtoul base cs else simple_strtoul base s)"

text \<open>\<open>kstrtoul\<close> with base 0: an optional plus, the base from the prefix, at least one digit, nothing
  after the digits but one line end, and no overflow.\<close>

definition digit_in :: "nat \<Rightarrow> char \<Rightarrow> bool" where
  "digit_in base c = (case digit_value c of None \<Rightarrow> False | Some d \<Rightarrow> d < base)"

definition number_value :: "nat \<Rightarrow> string \<Rightarrow> nat" where
  "number_value base = foldl (\<lambda>acc c. acc * base + the (digit_value c)) 0"

definition kstrtoul :: "string \<Rightarrow> u32 option" where
  "kstrtoul s =
     (let s = (if take 1 s = ''+'' then drop 1 s else s);
          hex = (take 2 s \<in> {''0x'', ''0X''} \<and> length s > 2 \<and> digit_in 16 (s ! 2));
          base = (if hex then 16 else if take 1 s = ''0'' then 8 else 10);
          s = (if hex then drop 2 s else s);
          ds = takeWhile (digit_in base) s; rest = dropWhile (digit_in base) s
      in if ds = [] \<or> number_value base ds \<ge> 2 ^ 32 \<or> rest \<notin> {[], [CHR 0x0A]} then None
         else Some (of_nat (number_value base ds)))"

section \<open>Writing\<close>

definition digit_char :: "nat \<Rightarrow> char" where
  "digit_char d = char_of (if d < 10 then 48 + d else 87 + d)"

text \<open>The digits of a number; a base below 2 has none.\<close>

function numeral_text :: "nat \<Rightarrow> nat \<Rightarrow> string" where
  "numeral_text base n =
     (if base < 2 then []
      else if n < base then [digit_char n]
      else numeral_text base (n div base) @ [digit_char (n mod base)])"
  by auto
termination
  by (relation "measure snd") (auto intro: div_less_dividend)

declare numeral_text.simps [simp del]

text \<open>\<open>%u\<close>, \<open>%lu\<close>, \<open>%d\<close>, \<open>%x\<close> and \<open>%#lx\<close>.\<close>

definition fmt_u :: "u32 \<Rightarrow> string" where
  "fmt_u v = numeral_text 10 (unat v)"

definition fmt_d :: "u32 \<Rightarrow> string" where
  "fmt_d v = (if sint v < 0 then CHR ''-'' # numeral_text 10 (nat (- sint v)) else numeral_text 10 (nat (sint v)))"

definition fmt_x :: "u32 \<Rightarrow> string" where
  "fmt_x v = numeral_text 16 (unat v)"

definition fmt_hash_x :: "u32 \<Rightarrow> string" where
  "fmt_hash_x v = (if v = 0 then ''0'' else ''0x'' @ fmt_x v)"

text \<open>What \<open>snprintf\<close> stores in a buffer of \<open>n\<close> bytes, and what it returns: the length of the whole
  text. \<open>scnprintf\<close> returns the length of what it stored.\<close>

definition NUL :: char where "NUL = CHR 0x00"

definition snprintf :: "nat \<Rightarrow> string \<Rightarrow> string \<times> nat" where
  "snprintf n s = (if n = 0 then [] else take (n - 1) s @ [NUL], length s)"

definition scnprintf :: "nat \<Rightarrow> string \<Rightarrow> string \<times> nat" where
  "scnprintf n s = (if n = 0 then [] else take (n - 1) s @ [NUL], min (length s) (n - 1))"

section \<open>Reading what was written\<close>

lemma digit_value_char: "d < 16 \<Longrightarrow> digit_value (digit_char d) = Some d"
  by (auto simp: digit_value_def digit_char_def Let_def)

lemma digit_range: "2 \<le> base \<Longrightarrow> base \<le> 16 \<Longrightarrow> n mod base < base \<and> n mod base < 16" for base n :: nat
  using mod_less_divisor [of base n] by linarith

lemma numeral_text_digits:
  assumes "c \<in> set (numeral_text base n)" and "2 \<le> base" and "base \<le> 16"
  shows "\<exists>d<base. digit_value c = Some d"
  using assms
proof (induction base n rule: numeral_text.induct)
  case (1 base n)
  have "\<exists>d<base. digit_value (digit_char m) = Some d" if "m < base" for m
    using that 1(4) by (intro exI [of _ m]) (simp add: digit_value_char)
  then show ?case
    using 1(1) 1(2,3,4) by (subst (asm) numeral_text.simps) (auto split: if_splits)
qed

lemma numeral_text_not_Nil [simp]: "2 \<le> base \<Longrightarrow> numeral_text base n \<noteq> []"
  by (subst numeral_text.simps) simp

lemma length_numeral_text:
  assumes "2 \<le> base" and "n < base ^ k" and "0 < k"
  shows "length (numeral_text base n) \<le> k"
  using assms
proof (induction base n arbitrary: k rule: numeral_text.induct)
  case (1 base n)
  show ?case
  proof (cases "n < base")
    case True
    then show ?thesis using 1(2,4) by (subst numeral_text.simps) simp
  next
    case False
    then obtain j where k: "k = Suc j" "0 < j" using 1(3,4) by (cases k; cases "k - 1") auto
    then have "n div base < base ^ j" using 1(2,3) by (simp add: less_mult_imp_div_less mult.commute)
    then show ?thesis using False 1(1) [OF _ False 1(2) _ k(2)] 1(2) k(1) by (subst numeral_text.simps) simp
  qed
qed

lemma length_fmt_x: "length (fmt_x v) \<le> 8"
  using length_numeral_text [of 16 "unat v" 8] unat_less_2p32 [of v] by (simp add: fmt_x_def del: unat_less_2p32)

lemma fmt_x_no_NUL: "NUL \<notin> set (fmt_x v)"
  using numeral_text_digits [of NUL 16 "unat v"] by (auto simp: fmt_x_def NUL_def digit_value_def)

lemma parse_digits_append:
  "\<forall>c\<in>set s. \<exists>d. digit_value c = Some d \<and> d < base \<Longrightarrow>
     parse_digits base acc (s @ t) = parse_digits base (parse_digits base acc s) t"
  by (induction s arbitrary: acc) auto

lemma parse_digits_numeral:
  assumes "2 \<le> base" and "base \<le> 16"
  shows "parse_digits base 0 (numeral_text base n) = of_nat n"
  using assms
proof (induction base n rule: numeral_text.induct)
  case (1 base n)
  show ?case
  proof (cases "n < base")
    case True
    then show ?thesis using 1(2,3) by (subst numeral_text.simps) (simp add: digit_value_char)
  next
    case False
    have ds: "\<forall>c\<in>set (numeral_text base (n div base)). \<exists>d. digit_value c = Some d \<and> d < base"
      using numeral_text_digits [OF _ 1(2,3)] by blast
    have "(of_nat (n div base) * of_nat base + of_nat (n mod base) :: u32) = of_nat (n div base * base + n mod base)"
      by (simp only: of_nat_add of_nat_mult)
    also have "\<dots> = of_nat n" by (simp only: div_mult_mod_eq)
    finally show ?thesis
      using False 1 parse_digits_append [OF ds] digit_range [OF 1(2,3)]
      by (subst numeral_text.simps) (simp add: digit_value_char)
  qed
qed

lemma number_value_numeral:
  assumes "2 \<le> base" and "base \<le> 16"
  shows "number_value base (numeral_text base n) = n"
  using assms
proof (induction base n rule: numeral_text.induct)
  case (1 base n)
  show ?case
  proof (cases "n < base")
    case True
    then show ?thesis using 1(2,3) by (subst numeral_text.simps) (simp add: digit_value_char number_value_def)
  next
    case False
    have "n mod base < 16" using digit_range [OF 1(2,3)] by simp
    then show ?thesis
      using False 1 by (subst numeral_text.simps) (simp add: digit_value_char number_value_def)
  qed
qed

lemma numeral_text_no_minus: "2 \<le> base \<Longrightarrow> base \<le> 16 \<Longrightarrow> CHR ''-'' \<notin> set (numeral_text base n)"
  using numeral_text_digits [of "CHR ''-''" base n] by (auto simp: digit_value_def)

lemma simple_strtol_numeral: "simple_strtol 10 (numeral_text 10 n) = of_nat n"
proof -
  obtain c cs where c: "numeral_text 10 n = c # cs" using numeral_text_not_Nil [of 10 n] by (cases "numeral_text 10 n") auto
  then have "c \<noteq> CHR ''-''" using numeral_text_no_minus [of 10 n] by auto
  then show ?thesis
    using parse_digits_numeral [of 10 n] c by (simp add: simple_strtol_def simple_strtoul_def)
qed

lemma simple_strtol_hex: "simple_strtol 16 (''0x'' @ fmt_x v) = v"
  using parse_digits_numeral [of 16 "unat v"]
  by (simp add: simple_strtol_def simple_strtoul_def fmt_x_def)

end
