(* ===== verification/CmemInit.thy ===== *)
theory CmemInit
  imports CmemSystem Numerals
begin

text \<open>
  Loading and unloading of the CMEM module (\<open>cmem_init\<close>, \<open>alloc_pool\<close>,
  \<open>alloc_pool_buffer\<close> and \<open>cmem_exit\<close> of \<open>cmemk/cmemk.c\<close>): the module parameters are
  parsed, each block of physical memory is claimed and mapped, its pools are cut off from
  its top and what is left at the bottom becomes the heap. Kernel services are fields of a
  record \<open>kernel\<close>; what the module holds of the kernel is a list of resources.
\<close>

section \<open>Strings\<close>

text \<open>\<open>strsep\<close>: the token up to the first delimiter, and the rest of the string after it, if
  the delimiter occurs. The second call has no delimiter and takes the rest.\<close>

definition strsep :: "char \<Rightarrow> string \<Rightarrow> string \<times> string option" where
  "strsep delim s =
     (takeWhile (\<lambda>c. c \<noteq> delim) s,
      if delim \<in> set s then Some (tl (dropWhile (\<lambda>c. c \<noteq> delim) s)) else None)"

definition parse_pool :: "string \<Rightarrow> (int \<times> u32) res" where
  "parse_pool s =
     (case strsep (CHR ''x'') s of
        (t, None) \<Rightarrow> Fail EINVAL
      | (t, Some rest) \<Rightarrow> Done (sint (simple_strtol 10 t), simple_strtol 10 rest))"

section \<open>The module\<close>

datatype resource = Chrdev | Mem_region u32 u32 | Io_mapping u32

definition BLOCK_IOREMAP :: u32 where "BLOCK_IOREMAP = 1"
definition BLOCK_MEMREGION :: u32 where "BLOCK_MEMREGION = 2"

text \<open>\<open>ready\<close> tells the pools whose list heads were initialised.\<close>

record module =
  drv :: cmem
  block_flags :: "nat \<Rightarrow> u32"
  held :: "resource list"
  ready :: "nat \<Rightarrow> nat \<Rightarrow> bool"

text \<open>The parameters: \<open>npools\<close> of a block is the length of its list of pools.\<close>

record module_params =
  par_start :: "nat \<Rightarrow> string option"
  par_end :: "nat \<Rightarrow> string option"
  par_pools :: "nat \<Rightarrow> string list"
  par_use_heap :: bool

record kernel =
  chrdev_ok :: bool
  request_mem_region :: "u32 \<Rightarrow> u32 \<Rightarrow> bool"
  ioremap :: "u32 \<Rightarrow> u32 \<Rightarrow> u32"
  kmalloc_buffer :: "nat \<Rightarrow> nat \<Rightarrow> nat \<Rightarrow> pool_buffer option"
  kmm :: mm
  old_memory :: hmem

definition no_pool :: pool_object where
  "no_pool = \<lparr>freelist = [], busylist = [], numbufs = 0, po_size = 0, reqsize = 0\<rparr>"

text \<open>The static data of the module when it is loaded.\<close>

definition loaded :: "module_params \<Rightarrow> kernel \<Rightarrow> module" where
  "loaded p k =
     \<lparr>drv = \<lparr>p_objs = (\<lambda>_ _. no_pool), npools = (\<lambda>bi. length (par_pools p bi)), heap_pool = (\<lambda>_. -1),
        store = old_memory k, heap_size = (\<lambda>_. 0), heap_virtp = (\<lambda>_. 0), block_virtp = (\<lambda>_. 0),
        block_virtoff = (\<lambda>_. 0), block_virtend = (\<lambda>_. 0), block_start = (\<lambda>_. 0), block_end = (\<lambda>_. 0),
        block_avail_size = (\<lambda>_. 0), total_num_buffers = (\<lambda>_. 0), nblocks = 0, reference_count = 0,
        useHeapIfPoolUnavailable = par_use_heap p, cache_ops = []\<rparr>,
      block_flags = (\<lambda>_. 0), held = [], ready = (\<lambda>_ _. False)\<rparr>"

abbreviation on_drv :: "(cmem \<Rightarrow> cmem) \<Rightarrow> module \<Rightarrow> module" where
  "on_drv f m \<equiv> m\<lparr>drv := f (drv m)\<rparr>"

section \<open>Allocating the pools\<close>

definition alloc_pool_buffer :: "nat \<Rightarrow> u32 \<Rightarrow> cmem \<Rightarrow> u32 \<times> cmem" where
  "alloc_pool_buffer bi sz st =
     (if sz \<le> block_avail_size st bi then
        let avail = block_avail_size st bi - sz
        in (block_virtp st bi + avail, st\<lparr>block_avail_size := (block_avail_size st)(bi := avail)\<rparr>)
      else (0, st))"

text \<open>The loop of \<open>alloc_pool\<close> for \<open>n\<close> more buffers from number \<open>i\<close> on, and the addresses it
  stores through \<open>virtpRet\<close>. The flags and the virtual address of a new entry keep what
  \<open>kmalloc\<close> left there.\<close>

fun pool_buffers :: "kernel \<Rightarrow> nat \<Rightarrow> nat \<Rightarrow> u32 \<Rightarrow> nat \<Rightarrow> nat \<Rightarrow> cmem \<Rightarrow> u32 list res \<times> cmem" where
  "pool_buffers k bi idx sz 0 i st = (Done [], st)"
| "pool_buffers k bi idx sz (Suc n) i st =
     (case kmalloc_buffer k bi idx i of
        None \<Rightarrow> (Fail ENOMEM, st)
      | Some entry \<Rightarrow>
          let (virtp, st) = alloc_pool_buffer bi sz st
          in if virtp = 0 then (Fail ENOMEM, st)
             else
               let entry = entry\<lparr>pb_id := int i, physp := get_phys (kmm k) st virtp, pb_size := sz, users := []\<rparr>;
                   st = upd_pool bi idx (\<lambda>p. p\<lparr>freelist := freelist p @ [entry]\<rparr>) st
               in (case pool_buffers k bi idx sz n (Suc i) st of
                     (Done vs, st) \<Rightarrow> (Done (virtp # vs), st)
                   | (r, st) \<Rightarrow> (r, st)))"

text \<open>The array of a block has \<open>MAX_POOLS\<close> pools.\<close>

definition alloc_pool :: "kernel \<Rightarrow> nat \<Rightarrow> nat \<Rightarrow> int \<Rightarrow> u32 \<Rightarrow> module \<Rightarrow> u32 list res \<times> module" where
  "alloc_pool k bi idx num req m =
     (if idx \<ge> MAX_POOLS then (Crash Out_of_bounds, m)
      else
        let sz = PAGE_ALIGN req;
            st = upd_pool bi idx (\<lambda>p. \<lparr>freelist = [], busylist = [], numbufs = word_of_int num, po_size = sz,
                   reqsize = req\<rparr>) (drv m);
            (r, st) = pool_buffers k bi idx sz (nat num) 0 st
        in (r, m\<lparr>drv := st, ready := (ready m)(bi := (ready m bi)(idx := True))\<rparr>))"

fun init_pools :: "kernel \<Rightarrow> nat \<Rightarrow> nat \<Rightarrow> string list \<Rightarrow> module \<Rightarrow> unit res \<times> module" where
  "init_pools k bi i [] m = (Done (), m)"
| "init_pools k bi i (s # ss) m =
     (case parse_pool s of
        Fail e \<Rightarrow> (Fail e, m)
      | Crash f \<Rightarrow> (Crash f, m)
      | Done (num, req) \<Rightarrow>
          (case alloc_pool k bi i num req m of
             (Fail _, m) \<Rightarrow> (Fail ENOMEM, m)
           | (Crash f, m) \<Rightarrow> (Crash f, m)
           | (Done _, m) \<Rightarrow>
               init_pools k bi (Suc i) ss
                 (on_drv (\<lambda>st. st\<lparr>total_num_buffers :=
                    (total_num_buffers st)(bi := total_num_buffers st bi + word_of_int num)\<rparr>) m)))"

section \<open>Initialising a block\<close>

text \<open>The first word of every page of the new mapping is cleared. The loop compares with the
  length minus one: for an empty block it runs beyond the mapping.\<close>

definition zero_pages :: "u32 \<Rightarrow> u32 \<Rightarrow> hmem \<Rightarrow> hmem" where
  "zero_pages virtp sz m =
     (\<lambda>l. case l of
        HeadAt b \<Rightarrow> m l
      | BlockAt a \<Rightarrow> if a - virtp < sz \<and> (a - virtp) AND (PAGE_SIZE - 1) = 0 then (m l)\<lparr>hdr_next := 0\<rparr> else m l)"

definition map_block :: "kernel \<Rightarrow> nat \<Rightarrow> u32 \<Rightarrow> u32 \<Rightarrow> module \<Rightarrow> unit res \<times> module" where
  "map_block k bi s e m =
     (let sz = e - s;
          m = on_drv (\<lambda>st. st\<lparr>block_start := (block_start st)(bi := s), block_end := (block_end st)(bi := e)\<rparr>) m
      in if s = 0 then (Fail EINVAL, m)
         else
           let m = on_drv (\<lambda>st. st\<lparr>block_avail_size := (block_avail_size st)(bi := sz)\<rparr>) m
           in if \<not> request_mem_region k s sz then (Fail EFAULT, m)
              else
                let m = m\<lparr>block_flags := (block_flags m)(bi := block_flags m bi OR BLOCK_MEMREGION),
                          held := Mem_region s sz # held m\<rparr>;
                    virtp = ioremap k s sz;
                    m = on_drv (\<lambda>st. st\<lparr>block_virtp := (block_virtp st)(bi := virtp)\<rparr>) m
                in if virtp = 0 then (Fail EFAULT, m)
                   else
                     let m = m\<lparr>block_flags := (block_flags m)(bi := block_flags m bi OR BLOCK_IOREMAP),
                               held := Io_mapping virtp # held m\<rparr>;
                         m = on_drv (\<lambda>st. st\<lparr>block_virtoff := (block_virtoff st)(bi := virtp - s),
                               block_virtend := (block_virtend st)(bi := virtp + sz)\<rparr>) m
                     in if sz = 0 then (Crash Out_of_bounds, m)
                        else (Done (), on_drv (\<lambda>st. st\<lparr>store := zero_pages virtp sz (store st)\<rparr>) m))"

text \<open>What is left becomes the heap, one free block.\<close>

definition init_heap :: "kernel \<Rightarrow> nat \<Rightarrow> module \<Rightarrow> unit res \<times> module" where
  "init_heap k bi m =
     (let hs = block_avail_size (drv m) bi AND NOT (PAGE_SIZE - 1);
          m = on_drv (\<lambda>st. st\<lparr>heap_size := (heap_size st)(bi := hs)\<rparr>) m
      in if hs > 0 then
           (case alloc_pool k bi (npools (drv m) bi) 1 hs m of
              (Fail e, m) \<Rightarrow> (Fail e, m)
            | (Crash f, m) \<Rightarrow> (Crash f, m)
            | (Done vs, m) \<Rightarrow>
                let header = hd vs
                in (Done (), on_drv (\<lambda>st. st\<lparr>heap_virtp := (heap_virtp st)(bi := header),
                      heap_pool := (heap_pool st)(bi := int (npools st bi)),
                      store := set_size (set_next (set_size (set_next (store st) (HeadAt bi) header)
                        (HeadAt bi) hs) (BlockAt header) 0) (BlockAt header) hs\<rparr>) m))
         else (Done (), on_drv (\<lambda>st. st\<lparr>store := set_next (store st) (HeadAt bi) 0\<rparr>) m))"

definition init_block :: "module_params \<Rightarrow> kernel \<Rightarrow> nat \<Rightarrow> string \<Rightarrow> string \<Rightarrow> module \<Rightarrow> unit res \<times> module" where
  "init_block p k bi pstart pend m =
     (case map_block k bi (PAGE_ALIGN (simple_strtol 16 pstart)) (PAGE_ALIGN (simple_strtol 16 pend)) m of
        (Done _, m) \<Rightarrow>
          (case init_pools k bi 0 (par_pools p bi) m of
             (Done _, m) \<Rightarrow>
               (case init_heap k bi m of
                  (Done _, m) \<Rightarrow> (Done (), on_drv (\<lambda>st. st\<lparr>nblocks := nblocks st + 1\<rparr>) m)
                | (r, m) \<Rightarrow> (r, m))
           | (r, m) \<Rightarrow> (r, m))
      | (r, m) \<Rightarrow> (r, m))"

text \<open>The loop over the blocks ends at the first one without memory.\<close>

fun init_blocks :: "module_params \<Rightarrow> kernel \<Rightarrow> nat list \<Rightarrow> module \<Rightarrow> unit res \<times> module" where
  "init_blocks p k [] m = (Done (), m)"
| "init_blocks p k (bi # bis) m =
     (case (par_start p bi, par_end p bi) of
        (Some pstart, Some pend) \<Rightarrow>
          (case init_block p k bi pstart pend m of
             (Done _, m) \<Rightarrow> init_blocks p k bis m
           | (r, m) \<Rightarrow> (r, m))
      | _ \<Rightarrow> if bi = 0 \<and> par_pools p 0 \<noteq> [] then (Fail EINVAL, m) else (Done (), m))"

section \<open>Loading and unloading\<close>

definition release_mapping :: "nat \<Rightarrow> module \<Rightarrow> module" where
  "release_mapping bi m =
     (if block_flags m bi AND BLOCK_IOREMAP \<noteq> 0 then
        m\<lparr>held := remove1 (Io_mapping (block_virtp (drv m) bi)) (held m),
          block_flags := (block_flags m)(bi := block_flags m bi AND NOT BLOCK_IOREMAP)\<rparr>
      else m)"

definition release_region :: "nat \<Rightarrow> module \<Rightarrow> module" where
  "release_region bi m =
     (if block_flags m bi AND BLOCK_MEMREGION \<noteq> 0 then
        m\<lparr>held := remove1 (Mem_region (block_start (drv m) bi) (block_end (drv m) bi - block_start (drv m) bi)) (held m),
          block_flags := (block_flags m)(bi := block_flags m bi AND NOT BLOCK_MEMREGION)\<rparr>
      else m)"

definition unregister_chrdev :: "module \<Rightarrow> module" where
  "unregister_chrdev m = m\<lparr>held := remove1 Chrdev (held m)\<rparr>"

definition fail_after_create :: "module \<Rightarrow> module" where
  "fail_after_create m =
     unregister_chrdev (fold release_region [0..<NBLOCKS] (fold release_mapping [0..<NBLOCKS] m))"

definition cmem_init :: "module_params \<Rightarrow> kernel \<Rightarrow> unit res \<times> module" where
  "cmem_init p k =
     (let m = loaded p k
      in if length (par_pools p 0) > MAX_POOLS then (Fail EINVAL, m)
         else if length (par_pools p 1) > MAX_POOLS then (Fail EINVAL, m)
         else if \<not> chrdev_ok k then (Fail ENODEV, m)
         else
           (case init_blocks p k [0..<NBLOCKS] (m\<lparr>held := Chrdev # held m\<rparr>) of
              (Done _, m) \<Rightarrow> (Done (), m)
            | (Fail e, m) \<Rightarrow> (Fail e, fail_after_create m)
            | (Crash f, m) \<Rightarrow> (Crash f, m)))"

text \<open>The entries unloading frees, in its order; a pool whose list heads were never initialised
  is walked through a null pointer.\<close>

fun free_pools :: "module \<Rightarrow> nat \<Rightarrow> nat list \<Rightarrow> pool_buffer list res" where
  "free_pools m bi [] = Done []"
| "free_pools m bi (i # is) =
     (if \<not> ready m bi i then Crash Null_deref
      else case free_pools m bi is of
        Done es \<Rightarrow> Done (busylist (p_objs (drv m) bi i) @ freelist (p_objs (drv m) bi i) @ es)
      | r \<Rightarrow> r)"

fun exit_blocks :: "nat list \<Rightarrow> module \<Rightarrow> pool_buffer list res \<times> module" where
  "exit_blocks [] m = (Done [], m)"
| "exit_blocks (bi # bis) m =
     (case free_pools m bi [0..<num_pools (drv m) bi] of
        Done es \<Rightarrow>
          (case exit_blocks bis (release_mapping bi (release_region bi m)) of
             (Done es', m) \<Rightarrow> (Done (es @ es'), m)
           | (r, m) \<Rightarrow> (r, m))
      | r \<Rightarrow> (r, m))"

definition cmem_exit :: "module \<Rightarrow> pool_buffer list res \<times> module" where
  "cmem_exit m =
     (case exit_blocks [0..<NBLOCKS] m of
        (Done es, m) \<Rightarrow> (Done es, unregister_chrdev m)
      | (r, m) \<Rightarrow> (r, m))"

end
