(* ===== verification/CmemInitProps.thy ===== *)
theory CmemInitProps
  imports CmemInit CmemPools
begin

text \<open>
  Properties of loading and unloading the CMEM module: the parameters are read as they are
  written, the pools and the heap of a block partition it, the state after loading
  satisfies the invariant of the driver, and what was claimed is given back.
\<close>

section \<open>Reading numbers\<close>

abbreviation decimal :: "nat \<Rightarrow> string" where
  "decimal \<equiv> numeral_text 10"

lemma decimal_no_x: "CHR ''x'' \<notin> set (decimal n)"
  using numeral_text_digits [of "CHR ''x''" 10 n] by (auto simp: digit_value_def)

text \<open>A pool parameter is read as it is written: the text of two decimal numbers with an x
  between them is taken apart into the number of buffers and the buffer size, for every
  number that fits the C types; without an x it is rejected.\<close>

theorem parse_pool_roundtrip:
  assumes "n < 2 ^ 31"
  shows "parse_pool (decimal n @ CHR ''x'' # decimal s) = Done (int n, of_nat s)
         \<and> parse_pool (decimal n) = Fail EINVAL"
proof -
  have t: "takeWhile (\<lambda>c. c \<noteq> CHR ''x'') (decimal n @ CHR ''x'' # decimal s) = decimal n"
    using decimal_no_x [of n] by (subst takeWhile_append2) auto
  have d: "dropWhile (\<lambda>c. c \<noteq> CHR ''x'') (decimal n @ CHR ''x'' # decimal s) = CHR ''x'' # decimal s"
    using decimal_no_x [of n] by (subst dropWhile_append2) auto
  have "sint (word_of_int (int n) :: u32) = int n"
    using assms by (simp only: sint_sbintrunc') (simp add: signed_take_bit_int_eq_self)
  then have "sint (of_nat n :: u32) = int n" by simp
  then show ?thesis
    using t d decimal_no_x [of n] by (simp add: parse_pool_def strsep_def simple_strtol_numeral)
qed

theorem parse_pool_roundtrip_witness: "parse_pool ''20x4096'' = Done (20, 4096)"
proof -
  have "decimal 20 = ''20''" "decimal 4096 = ''4096''"
    by (simp_all add: numeral_text.simps digit_char_def char_of_eq_iff)
  with parse_pool_roundtrip [of 20 4096] show ?thesis by simp
qed

section \<open>Pages\<close>

lemma unat_and_not_4095: "unat (x AND - 4096 :: u32) = unat x div 4096 * 4096"
  using unat_and_not_mask [of x 12] by (simp add: mask_eq_exp_minus_1)

lemma PAGE_ALIGN_dvd [simp]: "4096 dvd unat (PAGE_ALIGN x)"
  by (simp add: PAGE_ALIGN_def PAGE_SIZE_def unat_and_not_4095)

lemma page_aligned_mask: "4096 dvd unat x \<Longrightarrow> x AND NOT (PAGE_SIZE - 1) = x"
  by (intro word_unat_eq_iff [THEN iffD2]) (simp add: PAGE_SIZE_def unat_and_not_4095)

lemma dvd_unat_diff:
  assumes "4096 dvd unat (x :: u32)" and "4096 dvd unat (y :: u32)"
  shows "4096 dvd unat (x - y)"
proof (cases "unat y \<le> unat x")
  case True
  then show ?thesis using assms by (simp add: unat_minus_no_wrap dvd_diff_nat)
next
  case False
  have "unat (x - y) = unat x + 4294967296 - unat y"
    using False by (simp add: unat_sub_if')
  moreover have "4096 dvd unat x + 4294967296 - unat y"
    using assms by (intro dvd_diff_nat dvd_add) simp_all
  ultimately show ?thesis by simp
qed

section \<open>Cutting the pools off a block\<close>

text \<open>The buffers \<open>(address, size)\<close> in the order of their allocation, from the top \<open>hi\<close> down to
  \<open>lo\<close>, without a gap and without an overlap.\<close>

fun stacked :: "nat \<Rightarrow> (u32 \<times> u32) list \<Rightarrow> nat \<Rightarrow> bool" where
  "stacked hi [] lo \<longleftrightarrow> lo = hi"
| "stacked hi ((a, s) # xs) lo \<longleftrightarrow> unat a + unat s = hi \<and> stacked (unat a) xs lo"

lemma stacked_append: "stacked hi (xs @ ys) lo \<longleftrightarrow> (\<exists>mid. stacked hi xs mid \<and> stacked mid ys lo)"
  by (induction xs arbitrary: hi) auto

lemma stacked_bounds: "stacked hi xs lo \<Longrightarrow> lo \<le> hi"
  by (induction xs arbitrary: hi) (auto, fastforce)

lemma stacked_disjoint:
  assumes "stacked hi (xs @ (a, s) # ys) lo"
  shows "lo \<le> unat a" and "unat a + unat s \<le> hi"
    and "(b, t) \<in> set ys \<Longrightarrow> unat b + unat t \<le> unat a"
proof -
  obtain mid where m: "stacked hi xs mid" "unat a + unat s = mid" "stacked (unat a) ys lo"
    using assms by (auto simp: stacked_append)
  show "lo \<le> unat a" by (rule stacked_bounds [OF m(3)])
  show "unat a + unat s \<le> hi" using stacked_bounds [OF m(1)] m(2) by simp
  show "unat b + unat t \<le> unat a" if in_ys: "(b, t) \<in> set ys"
  proof -
    obtain y1 y2 where "ys = y1 @ (b, t) # y2" using in_ys by (meson split_list)
    then obtain mid' where "stacked (unat a) y1 mid'" "unat b + unat t = mid'"
      using m(3) by (auto simp: stacked_append)
    then show ?thesis using stacked_bounds by blast
  qed
qed

definition entry_of :: "pool_buffer \<Rightarrow> u32 \<times> u32" where
  "entry_of e = (physp e, pb_size e)"

definition pool_entries :: "cmem \<Rightarrow> nat \<Rightarrow> nat \<Rightarrow> (u32 \<times> u32) list" where
  "pool_entries st bi n = concat (map (\<lambda>i. map entry_of (freelist (p_objs st bi i))) [0..<n])"

text \<open>A block in the course of its initialisation: it is mapped at \<open>v\<close>, away from the other
  block, \<open>len\<close> bytes long, and its rest is what is still available.\<close>

definition mapped_at :: "cmem \<Rightarrow> nat \<Rightarrow> u32 \<Rightarrow> u32 \<Rightarrow> u32 \<Rightarrow> bool" where
  "mapped_at st bi s v n \<longleftrightarrow>
     block_start st bi = s \<and> block_virtp st bi = v \<and> block_virtoff st bi = v - s \<and> block_virtend st bi = v + n
     \<and> v \<noteq> 0 \<and> unat v + unat n < 2 ^ 32 \<and> unat s + unat n < 2 ^ 32
     \<and> (\<forall>b<bi. unat (block_virtend st b) \<le> unat v \<or> unat v + unat n \<le> unat (block_virtp st b))"

lemma get_phys_mapped:
  assumes "mapped_at st bi s v n" and "bi < NBLOCKS" and "unat a < unat n"
  shows "get_phys mm st (v + a) = s + a"
proof -
  have w: "unat (v + a) = unat v + unat a" "unat (v + n) = unat v + unat n"
    using assms(1,3) by (simp_all add: mapped_at_def unat_plus_no_wrap)
  have no: "\<not> (v + a \<ge> block_virtp st b \<and> v + a < block_virtend st b)" if "b < bi" for b
    using assms(1,3) that w by (auto simp: mapped_at_def word_le_nat_alt word_less_nat_alt)
  have here: "v + a \<ge> block_virtp st bi \<and> v + a < block_virtend st bi"
    using assms(1,3) w by (auto simp: mapped_at_def word_le_nat_alt word_less_nat_alt)
  have "block_of st (v + a) = Some bi"
    unfolding block_of_def find_Some_iff
    by (intro exI [of _ bi]) (use assms(2) no here in auto)
  then show ?thesis using assms(1) by (simp add: get_phys_def mapped_at_def)
qed

text \<open>What the allocation of the pools leaves alone.\<close>

definition same_blocks :: "cmem \<Rightarrow> cmem \<Rightarrow> bool" where
  "same_blocks st st' \<longleftrightarrow> block_start st' = block_start st \<and> block_end st' = block_end st
     \<and> block_virtp st' = block_virtp st \<and> block_virtoff st' = block_virtoff st
     \<and> block_virtend st' = block_virtend st \<and> store st' = store st \<and> npools st' = npools st
     \<and> heap_pool st' = heap_pool st \<and> heap_virtp st' = heap_virtp st \<and> heap_size st' = heap_size st
     \<and> nblocks st' = nblocks st"

lemma same_blocks_refl [simp]: "same_blocks st st"
  by (simp add: same_blocks_def)

lemma same_blocks_trans: "same_blocks st st' \<Longrightarrow> same_blocks st' st'' \<Longrightarrow> same_blocks st st''"
  by (simp add: same_blocks_def)

lemma mapped_at_same_blocks: "same_blocks st st' \<Longrightarrow> mapped_at st' bi s v n = mapped_at st bi s v n"
  by (simp add: same_blocks_def mapped_at_def)

text \<open>One round of the loop: a buffer is cut off the top of what is available.\<close>

lemma pool_buffers_step:
  assumes run: "pool_buffers k bi idx sz (Suc n) i st = (Done vs, st')"
    and map: "mapped_at st bi s v len0" and bi: "bi < NBLOCKS" and av: "unat (block_avail_size st bi) \<le> unat len0"
    and sz: "0 < unat sz"
  shows "\<exists>e a st2 ws. pool_buffers k bi idx sz n (Suc i) st2 = (Done ws, st') \<and> vs = (v + a) # ws
     \<and> unat a + unat sz = unat (block_avail_size st bi) \<and> unat a < unat len0
     \<and> physp e = s + a \<and> users e = [] \<and> pb_size e = sz
     \<and> st2 = upd_pool bi idx (\<lambda>p. p\<lparr>freelist := freelist p @ [e]\<rparr>)
         (st\<lparr>block_avail_size := (block_avail_size st)(bi := a)\<rparr>)"
proof -
  obtain e0 where km: "kmalloc_buffer k bi idx i = Some e0"
    using run by (auto split: option.splits)
  obtain virtp st1 where ab: "alloc_pool_buffer bi sz st = (virtp, st1)" by fastforce
  have nz: "virtp \<noteq> 0" using run km ab by (auto split: if_splits)
  then have fits: "sz \<le> block_avail_size st bi" using ab by (auto simp: alloc_pool_buffer_def split: if_splits)
  let ?a = "block_avail_size st bi - sz"
  have a: "unat ?a + unat sz = unat (block_avail_size st bi)"
    using fits by (simp add: unat_minus_no_wrap word_le_nat_alt)
  have st1: "virtp = block_virtp st bi + ?a" "st1 = st\<lparr>block_avail_size := (block_avail_size st)(bi := ?a)\<rparr>"
    using ab fits by (auto simp: alloc_pool_buffer_def Let_def)
  have av': "unat ?a < unat len0" using a av sz by linarith
  have map1: "mapped_at st1 bi s v len0" using map mapped_at_same_blocks [of st st1] st1(2) by (simp add: same_blocks_def)
  have phys: "get_phys (kmm k) st1 virtp = s + ?a"
    using get_phys_mapped [OF map1 bi av', of "kmm k"] map st1(1) by (simp add: mapped_at_def)
  let ?e = "e0\<lparr>pb_id := int i, physp := s + ?a, pb_size := sz, users := []\<rparr>"
  obtain ws where ws: "pool_buffers k bi idx sz n (Suc i) (upd_pool bi idx (\<lambda>p. p\<lparr>freelist := freelist p @ [?e]\<rparr>) st1) = (Done ws, st')"
      "vs = virtp # ws"
    using run km ab nz phys by (auto split: prod.splits res.splits)
  then show ?thesis
    using a av' st1 map by (intro exI [of _ ?e] exI [of _ ?a] exI [of _ "upd_pool bi idx (\<lambda>p. p\<lparr>freelist := freelist p @ [?e]\<rparr>) st1"]
        exI [of _ ws]) (simp add: mapped_at_def)
qed

lemma pool_buffers_result:
  assumes "pool_buffers k bi idx sz n i st = (Done vs, st')"
    and "mapped_at st bi s v len0" and "bi < NBLOCKS" and "unat (block_avail_size st bi) \<le> unat len0"
    and "0 < unat sz"
  shows "same_blocks st st'
     \<and> (\<forall>b j. (b, j) \<noteq> (bi, idx) \<longrightarrow> p_objs st' b j = p_objs st b j)
     \<and> (\<forall>b. b \<noteq> bi \<longrightarrow> block_avail_size st' b = block_avail_size st b)
     \<and> unat (block_avail_size st' bi) \<le> unat (block_avail_size st bi)
     \<and> (\<exists>new. p_objs st' bi idx = (p_objs st bi idx)\<lparr>freelist := freelist (p_objs st bi idx) @ new\<rparr>
           \<and> length new = n \<and> (\<forall>e\<in>set new. users e = [] \<and> pb_size e = sz)
           \<and> stacked (unat s + unat (block_avail_size st bi)) (map entry_of new)
               (unat s + unat (block_avail_size st' bi))
           \<and> vs = map (\<lambda>e. v + (physp e - s)) new)
     \<and> (4096 dvd unat sz \<longrightarrow> 4096 dvd unat (block_avail_size st bi) \<longrightarrow> 4096 dvd unat (block_avail_size st' bi))"
  using assms
proof (induction n arbitrary: i st vs)
  case 0
  then show ?case by simp
next
  case (Suc n)
  obtain e a st2 ws where st: "pool_buffers k bi idx sz n (Suc i) st2 = (Done ws, st')" "vs = (v + a) # ws"
      "unat a + unat sz = unat (block_avail_size st bi)" "unat a < unat len0"
      "physp e = s + a" "users e = []" "pb_size e = sz"
      "st2 = upd_pool bi idx (\<lambda>p. p\<lparr>freelist := freelist p @ [e]\<rparr>) (st\<lparr>block_avail_size := (block_avail_size st)(bi := a)\<rparr>)"
    using pool_buffers_step [OF Suc.prems] by blast
  have b2: "same_blocks st st2" by (simp add: st(8) same_blocks_def upd_pool_def)
  have map2: "mapped_at st2 bi s v len0" using Suc.prems(2) mapped_at_same_blocks [OF b2] by simp
  have av2: "block_avail_size st2 bi = a" by (simp add: st(8) upd_pool_def)
  from Suc.IH [OF st(1) map2 Suc.prems(3) _ Suc.prems(5)] obtain new where IH:
      "same_blocks st2 st'" "\<forall>b j. (b, j) \<noteq> (bi, idx) \<longrightarrow> p_objs st' b j = p_objs st2 b j"
      "\<forall>b. b \<noteq> bi \<longrightarrow> block_avail_size st' b = block_avail_size st2 b"
      "unat (block_avail_size st' bi) \<le> unat a"
      "p_objs st' bi idx = (p_objs st2 bi idx)\<lparr>freelist := freelist (p_objs st2 bi idx) @ new\<rparr>"
      "length new = n" "\<forall>e\<in>set new. users e = [] \<and> pb_size e = sz"
      "stacked (unat s + unat a) (map entry_of new) (unat s + unat (block_avail_size st' bi))"
      "ws = map (\<lambda>e. v + (physp e - s)) new"
      "4096 dvd unat sz \<longrightarrow> 4096 dvd unat a \<longrightarrow> 4096 dvd unat (block_avail_size st' bi)"
    unfolding av2 using st(4) by fastforce
  have "unat (s + a) = unat s + unat a"
    using Suc.prems(2) st(4) by (intro unat_plus_no_wrap) (auto simp: mapped_at_def)
  then have "stacked (unat s + unat (block_avail_size st bi)) (map entry_of (e # new)) (unat s + unat (block_avail_size st' bi))"
    using IH(8) st(3,5,7) by (simp add: entry_of_def)
  moreover have "p_objs st' bi idx = (p_objs st bi idx)\<lparr>freelist := freelist (p_objs st bi idx) @ e # new\<rparr>"
    using IH(5) by (simp add: st(8))
  moreover have "vs = map (\<lambda>e. v + (physp e - s)) (e # new)" using st(2,5) IH(9) by simp
  moreover have "unat (block_avail_size st' bi) \<le> unat (block_avail_size st bi)" using IH(4) st(3) by linarith
  moreover have "\<forall>b j. (b, j) \<noteq> (bi, idx) \<longrightarrow> p_objs st' b j = p_objs st b j"
      "\<forall>b. b \<noteq> bi \<longrightarrow> block_avail_size st' b = block_avail_size st b"
    using IH(2,3) by (auto simp: st(8) upd_pool_def)
  moreover have "same_blocks st st'" by (rule same_blocks_trans [OF b2 IH(1)])
  moreover have "4096 dvd unat sz \<longrightarrow> 4096 dvd unat (block_avail_size st bi) \<longrightarrow> 4096 dvd unat (block_avail_size st' bi)"
    using IH(10) st(3) by (metis dvd_add_left_iff)
  ultimately show ?case
    using IH(6,7) st(6,7) by (intro conjI exI [of _ "e # new"]) simp_all
qed

definition fresh_pool :: "pool_object \<Rightarrow> bool" where
  "fresh_pool q \<longleftrightarrow> busylist q = [] \<and> (\<forall>e\<in>set (freelist q). users e = [])"

text \<open>What allocating the pools \<open>i..<j\<close> of the block \<open>bi\<close> keeps and makes.\<close>

definition pools_made :: "nat \<Rightarrow> nat \<Rightarrow> nat \<Rightarrow> u32 \<Rightarrow> module \<Rightarrow> module \<Rightarrow> bool" where
  "pools_made bi i j s m m' \<longleftrightarrow>
     same_blocks (drv m) (drv m') \<and> block_flags m' = block_flags m \<and> held m' = held m
     \<and> (\<forall>b n. b \<noteq> bi \<or> n < i \<or> j \<le> n \<longrightarrow> p_objs (drv m') b n = p_objs (drv m) b n \<and> ready m' b n = ready m b n)
     \<and> (\<forall>n. i \<le> n \<and> n < j \<longrightarrow> fresh_pool (p_objs (drv m') bi n) \<and> ready m' bi n)
     \<and> unat (block_avail_size (drv m') bi) \<le> unat (block_avail_size (drv m) bi)
     \<and> (4096 dvd unat (block_avail_size (drv m) bi) \<longrightarrow> 4096 dvd unat (block_avail_size (drv m') bi))
     \<and> stacked (unat s + unat (block_avail_size (drv m) bi))
         (concat (map (\<lambda>n. map entry_of (freelist (p_objs (drv m') bi n))) [i..<j]))
         (unat s + unat (block_avail_size (drv m') bi))"

lemma alloc_pool_result:
  assumes run: "alloc_pool k bi idx num req m = (Done vs, m')" and map: "mapped_at (drv m) bi s v len0"
    and bi: "bi < NBLOCKS" and av: "unat (block_avail_size (drv m) bi) \<le> unat len0" and pos: "0 < unat (PAGE_ALIGN req)"
  shows "idx < MAX_POOLS \<and> pools_made bi idx (Suc idx) s m m'
     \<and> length vs = nat num \<and> vs = map (\<lambda>e. v + (physp e - s)) (freelist (p_objs (drv m') bi idx))
     \<and> (\<forall>e\<in>set (freelist (p_objs (drv m') bi idx)). pb_size e = PAGE_ALIGN req)"
proof -
  let ?q = "\<lparr>freelist = [], busylist = [], numbufs = word_of_int num, po_size = PAGE_ALIGN req, reqsize = req\<rparr>"
  let ?st = "upd_pool bi idx (\<lambda>p. ?q) (drv m)"
  obtain r st' where pb: "pool_buffers k bi idx (PAGE_ALIGN req) (nat num) 0 ?st = (r, st')" by fastforce
  have idx: "idx < MAX_POOLS" using run by (auto simp: alloc_pool_def split: if_splits)
  then have r: "r = Done vs" and m': "m' = m\<lparr>drv := st', ready := (ready m)(bi := (ready m bi)(idx := True))\<rparr>"
    using run pb by (auto simp: alloc_pool_def split: if_splits)
  have b0: "same_blocks (drv m) ?st" by (simp add: same_blocks_def upd_pool_def)
  have av0: "block_avail_size ?st = block_avail_size (drv m)" by (simp add: upd_pool_def)
  have map0: "mapped_at ?st bi s v len0" using map mapped_at_same_blocks [OF b0] by simp
  from pool_buffers_result [OF pb [unfolded r] map0 bi _ pos] av obtain new where res:
      "same_blocks ?st st'" "\<forall>b j. (b, j) \<noteq> (bi, idx) \<longrightarrow> p_objs st' b j = p_objs ?st b j"
      "unat (block_avail_size st' bi) \<le> unat (block_avail_size (drv m) bi)"
      "p_objs st' bi idx = (p_objs ?st bi idx)\<lparr>freelist := freelist (p_objs ?st bi idx) @ new\<rparr>"
      "length new = nat num" "\<forall>e\<in>set new. users e = [] \<and> pb_size e = PAGE_ALIGN req"
      "stacked (unat s + unat (block_avail_size (drv m) bi)) (map entry_of new) (unat s + unat (block_avail_size st' bi))"
      "vs = map (\<lambda>e. v + (physp e - s)) new"
      "4096 dvd unat (PAGE_ALIGN req) \<longrightarrow> 4096 dvd unat (block_avail_size (drv m) bi) \<longrightarrow> 4096 dvd unat (block_avail_size st' bi)"
    unfolding av0 by blast
  have q: "p_objs st' bi idx = ?q\<lparr>freelist := new\<rparr>" using res(4) by simp
  have "\<forall>b n. b \<noteq> bi \<or> n < idx \<or> Suc idx \<le> n \<longrightarrow> p_objs st' b n = p_objs (drv m) b n"
    using res(2) by auto
  moreover have "(idx \<le> n \<and> n < Suc idx) = (n = idx)" for n by auto
  ultimately show ?thesis
    using idx same_blocks_trans [OF b0 res(1)] res(3,5,6,7,8,9) q
    unfolding pools_made_def m' fresh_pool_def by auto
qed

lemma pools_made_step:
  assumes "pools_made bi i (Suc i) s m m1" and "pools_made bi (Suc i) j s m1 m'" and "Suc i \<le> j"
  shows "pools_made bi i j s m m'"
proof -
  have l: "[i..<j] = i # [Suc i..<j]" using assms(3) by (simp add: upt_conv_Cons)
  have "p_objs (drv m') bi i = p_objs (drv m1) bi i" "ready m' bi i = ready m1 bi i"
    using assms(2) by (auto simp: pools_made_def)
  moreover have "\<forall>n. i \<le> n \<and> n < j \<longrightarrow> n = i \<or> Suc i \<le> n \<and> n < j" by auto
  ultimately show ?thesis
    using assms same_blocks_trans [of "drv m" "drv m1" "drv m'"]
    unfolding pools_made_def l by (auto simp: stacked_append)
qed

lemma init_pools_result:
  assumes "init_pools k bi i ss m = (Done (), m')" and "mapped_at (drv m) bi s v len0"
    and "bi < NBLOCKS" and "unat (block_avail_size (drv m) bi) \<le> unat len0"
    and "\<forall>t\<in>set ss. \<forall>num req. parse_pool t = Done (num, req) \<longrightarrow> 0 < unat (PAGE_ALIGN req)"
  shows "pools_made bi i (i + length ss) s m m'"
  using assms
proof (induction ss arbitrary: i m)
  case Nil
  then show ?case by (auto simp: pools_made_def)
next
  case (Cons t ts)
  obtain num req where pp: "parse_pool t = Done (num, req)"
    using Cons.prems(1) by (auto split: res.splits)
  then have pos: "0 < unat (PAGE_ALIGN req)" using Cons.prems(5) by simp
  obtain vs m1 where ap: "alloc_pool k bi i num req m = (Done vs, m1)"
    using Cons.prems(1) pp by (auto split: res.splits prod.splits)
  let ?m2 = "on_drv (\<lambda>st. st\<lparr>total_num_buffers :=
      (total_num_buffers st)(bi := total_num_buffers st bi + word_of_int num)\<rparr>) m1"
  note al = alloc_pool_result [OF ap Cons.prems(2-4) pos]
  have made: "pools_made bi i (Suc i) s m m1" using al by blast
  then have made2: "pools_made bi i (Suc i) s m ?m2"
    by (simp add: pools_made_def same_blocks_def)
  have sb: "same_blocks (drv m) (drv ?m2)" using made2 by (simp add: pools_made_def)
  have rest: "init_pools k bi (Suc i) ts ?m2 = (Done (), m')"
    using Cons.prems(1) pp ap by simp
  have "mapped_at (drv ?m2) bi s v len0" using Cons.prems(2) mapped_at_same_blocks [OF sb] by simp
  moreover have "unat (block_avail_size (drv ?m2) bi) \<le> unat len0"
    using made2 Cons.prems(4) unfolding pools_made_def by linarith
  ultimately have "pools_made bi (Suc i) (Suc i + length ts) s ?m2 m'"
    using Cons.IH [OF rest _ Cons.prems(3)] Cons.prems(5) by simp
  then show ?case using pools_made_step [OF made2] by simp
qed

section \<open>The heap of a block\<close>

lemma PAGE_ALIGN_id:
  assumes "4096 dvd unat x"
  shows "PAGE_ALIGN x = x"
proof -
  obtain q where q: "unat x = 4096 * q" using assms by (rule dvdE)
  have "unat x < 4294967296" by simp
  then have "q < 1048576" using q by simp
  then have u: "unat (x + 4095) = 4096 * q + 4095"
    using q unat_plus_no_wrap [of x 4095] by simp
  show ?thesis
    by (intro word_unat_eq_iff [THEN iffD2]) (simp add: PAGE_ALIGN_def PAGE_SIZE_def unat_and_not_4095 u q)
qed

lemma one_block_accounts:
  assumes "hdr_next (m (HeadAt bi)) = v" and "hdr_next (m (BlockAt v)) = 0" and "hdr_size (m (BlockAt v)) = hs"
    and "0 < unat v" and "0 < unat hs" and "4096 dvd unat v" and "4096 dvd unat hs" and "unat v + unat hs < 2 ^ 32"
  shows "heap_accounts bi (unat v) (unat v + unat hs) m []"
proof -
  have "v \<noteq> 0" using assms(4) by auto
  then have "heap_rep bi (unat v) (unat v + unat hs) m [(unat v, unat hs)]"
    using assms by (simp add: heap_rep_def free_list_def)
  then have "heap_bytes bi (unat v) (unat v + unat hs) m {unat v..<unat v + unat hs}"
    unfolding heap_bytes_def by (intro exI [of _ "[(unat v, unat hs)]"]) (simp add: bytes_def)
  then show ?thesis
    unfolding heap_accounts_def heap.accounts_def
    by (intro exI [of _ "{unat v..<unat v + unat hs}"]) (simp add: heap.pieces.simps heap.owned_simps)
qed

text \<open>The state of a block after its initialisation: pools and heap partition it.\<close>

definition block_ready :: "cmem \<Rightarrow> nat \<Rightarrow> bool" where
  "block_ready st bi \<longleftrightarrow>
     stacked (unat (block_end st bi)) (pool_entries st bi (npools st bi))
       (unat (block_start st bi) + unat (heap_size st bi))
     \<and> (\<forall>i<num_pools st bi. fresh_pool (p_objs st bi i))
     \<and> (if heap_size st bi = 0 then heap_pool st bi = -1
        else heap_pool st bi = int (npools st bi) \<and> heap_virtp st bi = block_virtp st bi
          \<and> unat (block_virtp st bi) + unat (heap_size st bi) \<le> unat (block_virtend st bi)
          \<and> heap_accounts bi (heap_lo st bi) (heap_hi st bi) (store st) [])"

text \<open>A step on one block: the other block keeps its fields and its memory.\<close>

definition only_block :: "nat \<Rightarrow> u32 \<Rightarrow> u32 \<Rightarrow> cmem \<Rightarrow> cmem \<Rightarrow> bool" where
  "only_block bi v n st st' \<longleftrightarrow> npools st' = npools st
     \<and> same_outside {unat v..<unat v + unat n} {HeadAt bi} (store st) (store st')
     \<and> (\<forall>b. b \<noteq> bi \<longrightarrow> p_objs st' b = p_objs st b \<and> heap_pool st' b = heap_pool st b
          \<and> heap_size st' b = heap_size st b \<and> heap_virtp st' b = heap_virtp st b
          \<and> block_start st' b = block_start st b \<and> block_end st' b = block_end st b
          \<and> block_virtp st' b = block_virtp st b \<and> block_virtend st' b = block_virtend st b)"

lemma only_block_trans:
  "only_block bi v n st st' \<Longrightarrow> only_block bi v n st' st'' \<Longrightarrow> only_block bi v n st st''"
  by (auto simp: only_block_def same_outside_def)

lemma block_ready_other:
  assumes "block_ready st b" and "only_block bi v n st st'" and "b \<noteq> bi"
    and "unat (block_virtend st b) \<le> unat v \<or> unat v + unat n \<le> unat (block_virtp st b)"
  shows "block_ready st' b"
proof -
  have eq: "npools st' = npools st" "p_objs st' b = p_objs st b" "heap_pool st' b = heap_pool st b"
      "heap_size st' b = heap_size st b" "heap_virtp st' b = heap_virtp st b" "block_start st' b = block_start st b"
      "block_end st' b = block_end st b" "block_virtp st' b = block_virtp st b" "block_virtend st' b = block_virtend st b"
    using assms(2,3) by (auto simp: only_block_def)
  have out: "same_outside {unat v..<unat v + unat n} {HeadAt bi} (store st) (store st')"
    using assms(2) by (simp add: only_block_def)
  have "heap_accounts b (heap_lo st' b) (heap_hi st' b) (store st') []" if h: "heap_size st b \<noteq> 0"
  proof -
    have old: "heap_accounts b (heap_lo st b) (heap_hi st b) (store st) []" "heap_virtp st b = block_virtp st b"
        "unat (block_virtp st b) + unat (heap_size st b) \<le> unat (block_virtend st b)"
      using assms(1) h by (auto simp: block_ready_def)
    have "{heap_lo st b..<heap_hi st b} \<inter> {unat v..<unat v + unat n} = {}"
      using assms(4) old(2,3) by (auto simp: heap_lo_def heap_hi_def)
    from heap_accounts_elsewhere [OF old(1) out _ this] assms(3) show ?thesis
      by (simp add: heap_lo_def heap_hi_def eq)
  qed
  then show ?thesis
    using assms(1) by (auto simp: block_ready_def pool_entries_def num_pools_def eq)
qed

text \<open>A heap that is not empty is one buffer of a pool of its own, at the start of the block.\<close>

definition with_heap :: "nat \<Rightarrow> u32 \<Rightarrow> u32 \<Rightarrow> module \<Rightarrow> module" where
  "with_heap bi v hs m = on_drv (\<lambda>st. st\<lparr>heap_virtp := (heap_virtp st)(bi := v),
     heap_pool := (heap_pool st)(bi := int (npools st bi)),
     store := set_size (set_next (set_size (set_next (store st) (HeadAt bi) v) (HeadAt bi) hs) (BlockAt v) 0) (BlockAt v) hs\<rparr>) m"

lemma init_heap_buffer:
  fixes m bi
  defines "hs \<equiv> block_avail_size (drv m) bi" and "n \<equiv> npools (drv m) bi"
  assumes run: "init_heap k bi m = (Done (), m')" and map: "mapped_at (drv m) bi s v len0" and bi: "bi < NBLOCKS"
    and av: "unat hs \<le> unat len0" "4096 dvd unat hs" "0 < hs"
  shows "\<exists>m2. pools_made bi n (Suc n) s (on_drv (\<lambda>st. st\<lparr>heap_size := (heap_size st)(bi := hs)\<rparr>) m) m2
     \<and> m' = with_heap bi v hs m2"
proof -
  let ?m1 = "on_drv (\<lambda>st. st\<lparr>heap_size := (heap_size st)(bi := hs)\<rparr>) m"
  have pos: "0 < unat hs" using av(3) by (simp add: word_less_nat_alt)
  have mask: "hs AND NOT (PAGE_SIZE - 1) = hs" by (rule page_aligned_mask [OF av(2)])
  obtain vs m2 where ap: "alloc_pool k bi n 1 hs ?m1 = (Done vs, m2)"
    using run mask av(3) by (auto simp: init_heap_def Let_def hs_def n_def split: prod.splits res.splits)
  have m': "m' = with_heap bi (hd vs) hs m2"
    using run mask av(3) ap by (simp add: init_heap_def Let_def with_heap_def hs_def n_def)
  have map1: "mapped_at (drv ?m1) bi s v len0" using map by (simp add: mapped_at_def)
  have al: "PAGE_ALIGN hs = hs" by (rule PAGE_ALIGN_id [OF av(2)])
  have res: "pools_made bi n (Suc n) s ?m1 m2" "length vs = 1"
      "vs = map (\<lambda>e. v + (physp e - s)) (freelist (p_objs (drv m2) bi n))"
      "\<forall>e\<in>set (freelist (p_objs (drv m2) bi n)). pb_size e = hs"
    using alloc_pool_result [OF ap map1 bi] av(1) pos unfolding al by (auto simp: hs_def)
  obtain e where e: "freelist (p_objs (drv m2) bi n) = [e]"
    using res(2,3) by (cases "freelist (p_objs (drv m2) bi n)") auto
  have "stacked (unat s + unat hs) [(physp e, hs)] (unat s + unat (block_avail_size (drv m2) bi))"
    using res(1,4) e by (simp add: pools_made_def entry_of_def hs_def)
  then have "physp e = s" by (simp add: word_unat_eq_iff)
  then have "hd vs = v" using res(3) e by simp
  then show ?thesis using res(1) m' by blast
qed

lemma init_heap_empty:
  assumes run: "init_heap k bi m = (Done (), m')" and z: "block_avail_size (drv m) bi = 0"
  shows "m' = on_drv (\<lambda>st. st\<lparr>heap_size := (heap_size st)(bi := 0), store := set_next (store st) (HeadAt bi) 0\<rparr>) m"
  using assms by (simp add: init_heap_def)

lemma init_heap_result:
  assumes run: "init_heap k bi m = (Done (), m')" and map: "mapped_at (drv m) bi s v len0" and bi: "bi < NBLOCKS"
    and av: "unat (block_avail_size (drv m) bi) \<le> unat len0" "4096 dvd unat (block_avail_size (drv m) bi)"
    and v: "4096 dvd unat v" and hp: "heap_pool (drv m) bi = -1"
    and pools: "\<forall>i<npools (drv m) bi. fresh_pool (p_objs (drv m) bi i)"
    and st: "stacked (unat (block_end (drv m) bi)) (pool_entries (drv m) bi (npools (drv m) bi))
       (unat s + unat (block_avail_size (drv m) bi))"
  shows "block_ready (drv m') bi \<and> only_block bi v len0 (drv m) (drv m')
     \<and> block_virtp (drv m') = block_virtp (drv m) \<and> block_virtend (drv m') = block_virtend (drv m)
     \<and> nblocks (drv m') = nblocks (drv m)
     \<and> (\<forall>b i. b \<noteq> bi \<or> i < npools (drv m) bi \<longrightarrow> ready m' b i = ready m b i)
     \<and> (heap_pool (drv m') bi \<noteq> -1 \<longrightarrow> ready m' bi (npools (drv m) bi))
     \<and> block_flags m' = block_flags m \<and> held m' = held m"
proof (cases "block_avail_size (drv m) bi = 0")
  case True
  have "block_start (drv m) bi = s" using map by (simp add: mapped_at_def)
  then show ?thesis
    using True hp pools st
    by (auto simp: init_heap_empty [OF run True] block_ready_def pool_entries_def num_pools_def only_block_def
        same_outside_def set_next_def)
next
  case False
  let ?hs = "block_avail_size (drv m) bi" and ?n = "npools (drv m) bi"
  let ?m1 = "on_drv (\<lambda>st. st\<lparr>heap_size := (heap_size st)(bi := ?hs)\<rparr>) m"
  have hs: "0 < ?hs" using False by (simp add: word_gt_0)
  then have pos: "0 < unat ?hs" by (simp add: word_less_nat_alt)
  have s: "block_start (drv m) bi = s" using map by (simp add: mapped_at_def)
  obtain m2 where made: "pools_made bi ?n (Suc ?n) s ?m1 m2" and m': "m' = with_heap bi v ?hs m2"
    using init_heap_buffer [OF run map bi av hs] by blast
  have sb: "same_blocks (drv ?m1) (drv m2)" using made by (simp add: pools_made_def)
  have other: "p_objs (drv m2) b i = p_objs (drv m) b i" if "b \<noteq> bi \<or> i \<noteq> ?n" for b i
  proof -
    have c: "b \<noteq> bi \<or> i < ?n \<or> Suc ?n \<le> i" using that by auto
    have "\<forall>b i. b \<noteq> bi \<or> i < ?n \<or> Suc ?n \<le> i \<longrightarrow> p_objs (drv m2) b i = p_objs (drv ?m1) b i"
      using made unfolding pools_made_def by metis
    with c show ?thesis by simp
  qed
  have fresh: "fresh_pool (p_objs (drv m2) bi ?n)" using made by (simp add: pools_made_def)
  have v0: "v \<noteq> 0" "unat v + unat len0 < 2 ^ 32" "unat (v + len0) = unat v + unat len0"
    using map by (auto simp: mapped_at_def unat_plus_no_wrap)
  have vp: "0 < unat v" using v0(1) by (simp add: unat_gt_0)
  have acc: "heap_accounts bi (unat v) (unat v + unat ?hs) (store (drv m')) []"
    using vp pos v av v0(2) by (intro one_block_accounts) (simp_all add: m' with_heap_def)
  have pe: "pool_entries (drv m') bi ?n = pool_entries (drv m) bi ?n"
    using other by (auto simp: m' with_heap_def pool_entries_def intro!: arg_cong [of _ _ concat])
  have f: "block_end (drv m') = block_end (drv m)" "block_start (drv m') bi = s" "heap_size (drv m') bi = ?hs"
      "npools (drv m') = npools (drv m)" "heap_pool (drv m') bi = int ?n" "heap_virtp (drv m') bi = v"
      "block_virtp (drv m') bi = v" "block_virtend (drv m') bi = v + len0"
      "p_objs (drv m') = p_objs (drv m2)"
    using sb s map by (simp_all add: m' with_heap_def same_blocks_def mapped_at_def)
  have "block_ready (drv m') bi"
    using acc st pos v0(3) av(1) pools fresh other
    by (auto simp: block_ready_def f pe heap_lo_def heap_hi_def num_pools_def less_Suc_eq)
  moreover have "only_block bi v len0 (drv m) (drv m')"
    using sb other v0 av(1) pos
    by (auto simp: only_block_def m' with_heap_def same_blocks_def same_outside_def set_next_def set_size_def fun_eq_iff)
  moreover have "block_flags m' = block_flags m" "held m' = held m"
      "\<forall>b i. b \<noteq> bi \<or> i < ?n \<longrightarrow> ready m' b i = ready m b i" "ready m' bi ?n"
    using made by (simp_all add: m' with_heap_def pools_made_def)
  moreover have "block_virtp (drv m') = block_virtp (drv m)" "block_virtend (drv m') = block_virtend (drv m)"
      "nblocks (drv m') = nblocks (drv m)"
    using sb by (simp_all add: m' with_heap_def same_blocks_def)
  ultimately show ?thesis by blast
qed

section \<open>A block\<close>

lemma zero_pages_outside:
  assumes "unat v + unat n < 2 ^ 32"
  shows "same_outside {unat v..<unat v + unat n} {HeadAt bi} m (zero_pages v n m)"
proof -
  have "zero_pages v n m (BlockAt a) = m (BlockAt a)" if "unat a \<notin> {unat v..<unat v + unat n}" for a
  proof -
    have "\<not> a - v < n"
      using that assms by (cases "unat v \<le> unat a")
        (auto simp: word_less_nat_alt unat_sub_if' not_less)
    then show ?thesis by (simp add: zero_pages_def)
  qed
  then show ?thesis by (auto simp: same_outside_def zero_pages_def split: hloc.splits)
qed

text \<open>The physical region and the mapping a block asks for.\<close>

definition region :: "module_params \<Rightarrow> nat \<Rightarrow> u32 \<times> u32" where
  "region p bi =
     (let s = PAGE_ALIGN (simple_strtol 16 (the (par_start p bi)));
          e = PAGE_ALIGN (simple_strtol 16 (the (par_end p bi)))
      in (s, e - s))"

definition region_ok :: "kernel \<Rightarrow> u32 \<Rightarrow> u32 \<Rightarrow> bool" where
  "region_ok k s n \<longleftrightarrow> request_mem_region k s n \<and> ioremap k s n \<noteq> 0"

text \<open>What is relied on of the kernel: a region it grants does not run over the end of the address
  space, its mapping starts at a page and does not run over either, and the mappings of two
  regions are apart.\<close>

definition present :: "module_params \<Rightarrow> nat \<Rightarrow> bool" where
  "present p b \<longleftrightarrow> par_start p b \<noteq> None \<and> par_end p b \<noteq> None"

definition kernel_sound :: "module_params \<Rightarrow> kernel \<Rightarrow> bool" where
  "kernel_sound p k \<longleftrightarrow>
     (\<forall>b<NBLOCKS. present p b \<longrightarrow> (case region p b of (s, n) \<Rightarrow> region_ok k s n \<longrightarrow>
        unat s + unat n < 2 ^ 32 \<and> unat (ioremap k s n) + unat n < 2 ^ 32 \<and> 4096 dvd unat (ioremap k s n)))
     \<and> (present p 0 \<longrightarrow> present p 1 \<longrightarrow> (case (region p 0, region p 1) of ((s, n), (s', n')) \<Rightarrow>
          region_ok k s n \<longrightarrow> region_ok k s' n' \<longrightarrow>
          unat (ioremap k s n) + unat n \<le> unat (ioremap k s' n')
          \<or> unat (ioremap k s' n') + unat n' \<le> unat (ioremap k s n)))"

text \<open>Every pool asks for buffers of at least one byte.\<close>

definition pool_sizes_ok :: "module_params \<Rightarrow> bool" where
  "pool_sizes_ok p \<longleftrightarrow> (\<forall>b<NBLOCKS. \<forall>t\<in>set (par_pools p b).
     case parse_pool t of Done (num, req) \<Rightarrow> 0 < unat (PAGE_ALIGN req) | _ \<Rightarrow> True)"

lemma map_block_result:
  assumes run: "map_block k bi s e m = (Done (), m')" and n: "n = e - s" and v: "v = ioremap k s n"
    and ok: "region_ok k s n \<Longrightarrow> unat s + unat n < 2 ^ 32 \<and> unat v + unat n < 2 ^ 32"
    and apart: "region_ok k s n \<Longrightarrow>
      \<forall>b<bi. unat (block_virtend (drv m) b) \<le> unat v \<or> unat v + unat n \<le> unat (block_virtp (drv m) b)"
  shows "region_ok k s n \<and> mapped_at (drv m') bi s v n \<and> only_block bi v n (drv m) (drv m')
     \<and> block_end (drv m') bi = e \<and> block_avail_size (drv m') bi = n
     \<and> p_objs (drv m') = p_objs (drv m) \<and> heap_pool (drv m') = heap_pool (drv m)
     \<and> ready m' = ready m \<and> nblocks (drv m') = nblocks (drv m)
     \<and> (\<forall>b. b \<noteq> bi \<longrightarrow> block_virtp (drv m') b = block_virtp (drv m) b \<and> block_virtend (drv m') b = block_virtend (drv m) b)"
proof -
  have rok: "region_ok k s n"
    using run by (auto simp: map_block_def Let_def region_ok_def n split: if_splits)
  note w = ok [OF rok]
  have "v \<noteq> 0" "request_mem_region k s n" "s \<noteq> 0" "n \<noteq> 0"
    using run by (auto simp: map_block_def Let_def n v split: if_splits)
  then show ?thesis
    using run rok w apart [OF rok] zero_pages_outside [of v n bi "store (drv m)"] v n
    by (auto simp: map_block_def Let_def mapped_at_def only_block_def)
qed

end
