(* ===== verification/CmemLoad.thy ===== *)
theory CmemLoad
  imports CmemInitProps
begin

text \<open>
  What a successful load of the CMEM module establishes: block by block, the pools and the heap
  are cut off the mapped memory (\<open>loading\<close> is the invariant of the loop over the blocks).
\<close>

lemma less_NBLOCKS: "b < NBLOCKS \<longleftrightarrow> b = 0 \<or> b = 1"
  by (auto simp: NBLOCKS_def)

section \<open>One block\<close>

lemma only_block_pools_made:
  assumes "pools_made bi i j s m m'" and "unat v + unat n < 2 ^ 32"
  shows "only_block bi v n (drv m) (drv m')"
  using assms by (auto simp: only_block_def pools_made_def same_blocks_def same_outside_def fun_eq_iff)

lemma pools_made_block:
  assumes ip: "pools_made bi 0 l s m1 m2" and m1: "mapped_at (drv m1) bi s v n" "block_end (drv m1) bi = s + n"
      "block_avail_size (drv m1) bi = n" "heap_pool (drv m1) bi = -1" "npools (drv m1) bi = l"
    and w: "unat s + unat n < 2 ^ 32" "4096 dvd unat n"
  shows "mapped_at (drv m2) bi s v n"
    and "npools (drv m2) bi = l \<and> heap_pool (drv m2) bi = -1"
    and "unat (block_avail_size (drv m2) bi) \<le> unat n \<and> 4096 dvd unat (block_avail_size (drv m2) bi)"
    and "\<forall>i<npools (drv m2) bi. fresh_pool (p_objs (drv m2) bi i)"
    and "stacked (unat (block_end (drv m2) bi)) (pool_entries (drv m2) bi (npools (drv m2) bi))
           (unat s + unat (block_avail_size (drv m2) bi))"
proof -
  have sb: "same_blocks (drv m1) (drv m2)" using ip by (simp add: pools_made_def)
  have e: "npools (drv m2) bi = l" "block_end (drv m2) bi = s + n" "heap_pool (drv m2) bi = -1"
    using sb m1(2,4,5) by (simp_all add: same_blocks_def)
  then show "npools (drv m2) bi = l \<and> heap_pool (drv m2) bi = -1" by simp
  show "mapped_at (drv m2) bi s v n" using m1(1) mapped_at_same_blocks [OF sb] by simp
  show "unat (block_avail_size (drv m2) bi) \<le> unat n \<and> 4096 dvd unat (block_avail_size (drv m2) bi)"
    using ip m1(3) w(2) unfolding pools_made_def by auto
  show "\<forall>i<npools (drv m2) bi. fresh_pool (p_objs (drv m2) bi i)" using ip e(1) by (simp add: pools_made_def)
  show "stacked (unat (block_end (drv m2) bi)) (pool_entries (drv m2) bi (npools (drv m2) bi))
       (unat s + unat (block_avail_size (drv m2) bi))"
    using ip m1(3) e unat_plus_no_wrap w(1) by (simp add: pools_made_def pool_entries_def)
qed

text \<open>The last statement of the loop counts the block; it changes nothing else.\<close>

lemma block_counted:
  assumes "m' = on_drv (\<lambda>st. st\<lparr>nblocks := nblocks st + 1\<rparr>) m3"
  shows "only_block bi v n (drv m3) (drv m')" "block_ready (drv m') bi = block_ready (drv m3) bi"
    "num_pools (drv m') = num_pools (drv m3)" "ready m' = ready m3"
    "block_virtp (drv m') = block_virtp (drv m3)" "block_virtend (drv m') = block_virtend (drv m3)"
  by (simp_all add: assms only_block_def same_outside_def block_ready_def pool_entries_def num_pools_def
      heap_lo_def heap_hi_def fun_eq_iff)

lemma init_block_result:
  assumes run: "init_block p k bi ps pe m = (Done (), m')"
    and r: "PAGE_ALIGN (simple_strtol 16 ps) = s" "PAGE_ALIGN (simple_strtol 16 pe) = e" "n = e - s" "v = ioremap k s n"
    and ok: "region_ok k s n \<Longrightarrow> unat s + unat n < 2 ^ 32 \<and> unat v + unat n < 2 ^ 32 \<and> 4096 dvd unat v"
    and apart: "region_ok k s n \<Longrightarrow>
      \<forall>b<bi. unat (block_virtend (drv m) b) \<le> unat v \<or> unat v + unat n \<le> unat (block_virtp (drv m) b)"
    and bi: "bi < NBLOCKS" and hp: "heap_pool (drv m) bi = -1" and np: "npools (drv m) bi = length (par_pools p bi)"
    and sizes: "\<forall>t\<in>set (par_pools p bi). \<forall>num req. parse_pool t = Done (num, req) \<longrightarrow> 0 < unat (PAGE_ALIGN req)"
  shows "region_ok k s n \<and> only_block bi v n (drv m) (drv m') \<and> block_ready (drv m') bi
     \<and> block_virtp (drv m') = (block_virtp (drv m))(bi := v)
     \<and> block_virtend (drv m') = (block_virtend (drv m))(bi := v + n)
     \<and> nblocks (drv m') = nblocks (drv m) + 1
     \<and> (\<forall>i<num_pools (drv m') bi. ready m' bi i) \<and> (\<forall>b. b \<noteq> bi \<longrightarrow> ready m' b = ready m b)"
proof -
  obtain m1 m2 m3 where st: "map_block k bi s e m = (Done (), m1)" "init_pools k bi 0 (par_pools p bi) m1 = (Done (), m2)"
      "init_heap k bi m2 = (Done (), m3)" "m' = on_drv (\<lambda>st. st\<lparr>nblocks := nblocks st + 1\<rparr>) m3"
    using run unfolding init_block_def r(1,2) by (auto split: prod.splits res.splits)
  note mb = map_block_result [OF st(1) r(3,4) _ apart]
  have rok: "region_ok k s n" using mb ok by blast
  have w: "unat s + unat n < 2 ^ 32" "unat v + unat n < 2 ^ 32" "4096 dvd unat v" using ok [OF rok] by auto
  have m1: "mapped_at (drv m1) bi s v n" "only_block bi v n (drv m) (drv m1)" "block_end (drv m1) bi = e"
      "block_avail_size (drv m1) bi = n" "heap_pool (drv m1) = heap_pool (drv m)" "ready m1 = ready m"
      "nblocks (drv m1) = nblocks (drv m)"
      "\<forall>b. b \<noteq> bi \<longrightarrow> block_virtp (drv m1) b = block_virtp (drv m) b \<and> block_virtend (drv m1) b = block_virtend (drv m) b"
    using mb ok by blast+
  let ?l = "length (par_pools p bi)"
  have ip: "pools_made bi 0 ?l s m1 m2"
    using init_pools_result [OF st(2) m1(1) bi _ sizes] m1(4) by simp
  have sb: "same_blocks (drv m1) (drv m2)" using ip by (simp add: pools_made_def)
  have npe: "npools (drv m1) bi = ?l" using m1(2) np by (simp add: only_block_def)
  have hp1: "heap_pool (drv m1) bi = -1" using m1(5) hp by simp
  have e: "block_end (drv m1) bi = s + n" using m1(3) r(3) by simp
  have al: "4096 dvd unat n" unfolding r(3) r(1,2) [symmetric] by (intro dvd_unat_diff PAGE_ALIGN_dvd)
  note pb = pools_made_block [OF ip m1(1) e m1(4) hp1 npe w(1) al]
  note ih = init_heap_result [OF st(3) pb(1) bi conjunct1 [OF pb(3)] conjunct2 [OF pb(3)] w(3)
      conjunct2 [OF pb(2)] pb(4,5)]
  note d = block_counted [OF st(4)]
  have "only_block bi v n (drv m) (drv m')"
    using only_block_trans [OF m1(2) only_block_trans [OF only_block_pools_made [OF ip w(2)]
      only_block_trans [OF conjunct1 [OF conjunct2 [OF ih]] d(1)]]] .
  moreover have "block_virtp (drv m') = (block_virtp (drv m))(bi := v)"
      "block_virtend (drv m') = (block_virtend (drv m))(bi := v + n)"
    using d(5,6) ih sb m1(8) pb(1) by (auto simp: fun_eq_iff same_blocks_def mapped_at_def)
  moreover have "nblocks (drv m') = nblocks (drv m) + 1"
    using ih sb m1(7) by (simp add: st(4) same_blocks_def)
  moreover have "ready m' bi i" if i: "i < num_pools (drv m') bi" for i
  proof -
    have np3: "npools (drv m3) bi = npools (drv m2) bi" using ih by (simp add: only_block_def)
    consider "i < npools (drv m2) bi" | "heap_pool (drv m3) bi \<noteq> -1" "i = npools (drv m2) bi"
      using i d(3) np3 by (auto simp: num_pools_def less_Suc_eq split: if_splits)
    then show ?thesis using ih ip pb(2) d(4) by cases (simp_all add: pools_made_def)
  qed
  moreover have "\<forall>b. b \<noteq> bi \<longrightarrow> ready m' b = ready m b"
    using ih ip d(4) m1(6) by (auto simp: pools_made_def fun_eq_iff)
  ultimately show ?thesis using rok ih d(2) by blast
qed

section \<open>All blocks\<close>

text \<open>The blocks before \<open>b0\<close> are initialised, the others have no memory.\<close>

definition loading :: "module_params \<Rightarrow> kernel \<Rightarrow> nat \<Rightarrow> module \<Rightarrow> bool" where
  "loading p k b0 m \<longleftrightarrow>
     nblocks (drv m) = of_nat b0 \<and> npools (drv m) = (\<lambda>b. length (par_pools p b))
     \<and> (\<forall>b<NBLOCKS. block_ready (drv m) b)
     \<and> (\<forall>b<b0. present p b \<and> region_ok k (fst (region p b)) (snd (region p b))
          \<and> block_virtp (drv m) b = ioremap k (fst (region p b)) (snd (region p b))
          \<and> block_virtend (drv m) b = block_virtp (drv m) b + snd (region p b)
          \<and> (\<forall>i<num_pools (drv m) b. ready m b i))
     \<and> (\<forall>b\<ge>b0. heap_pool (drv m) b = -1 \<and> block_virtp (drv m) b = 0 \<and> block_virtend (drv m) b = 0
          \<and> (\<forall>i. \<not> ready m b i))"

lemma kernel_sound_region:
  assumes "kernel_sound p k" and "region p b = (s, n)" and "b < NBLOCKS" and "region_ok k s n" and "present p b"
  shows "unat s + unat n < 2 ^ 32 \<and> unat (ioremap k s n) + unat n < 2 ^ 32 \<and> 4096 dvd unat (ioremap k s n)"
  using assms unfolding kernel_sound_def by fastforce

lemma kernel_sound_apart:
  assumes "kernel_sound p k" and "b < c" and "c < NBLOCKS" and "region p b = (s, n)" and "region p c = (s', n')"
    and "region_ok k s n" and "region_ok k s' n'" and "present p b" and "present p c"
  shows "unat (ioremap k s n) + unat n \<le> unat (ioremap k s' n')
          \<or> unat (ioremap k s' n') + unat n' \<le> unat (ioremap k s n)"
proof -
  have "b = 0" "c = 1" using assms(2,3) by (auto simp: NBLOCKS_def)
  then show ?thesis using assms unfolding kernel_sound_def by fastforce
qed

lemma loading_block:
  assumes l: "loading p k b0 m" and ks: "kernel_sound p k" and b: "b < b0" "b0 \<le> NBLOCKS"
  shows "region_ok k (fst (region p b)) (snd (region p b))" and "present p b"
    and "block_virtp (drv m) b = ioremap k (fst (region p b)) (snd (region p b))"
    and "block_virtend (drv m) b = block_virtp (drv m) b + snd (region p b)"
    and "unat (block_virtend (drv m) b) = unat (block_virtp (drv m) b) + unat (snd (region p b))"
proof -
  show o: "region_ok k (fst (region p b)) (snd (region p b))" "present p b"
    "block_virtp (drv m) b = ioremap k (fst (region p b)) (snd (region p b))"
    "block_virtend (drv m) b = block_virtp (drv m) b + snd (region p b)"
    using l b(1) by (auto simp: loading_def)
  show "unat (block_virtend (drv m) b) = unat (block_virtp (drv m) b) + unat (snd (region p b))"
    using kernel_sound_region [OF ks _ _ o(1,2)] b o(3,4) unat_plus_no_wrap by simp
qed

text \<open>The next block is mapped apart from the ones before it.\<close>

lemma loading_apart:
  assumes l: "loading p k b0 m" and ks: "kernel_sound p k" and b: "b < b0" "b0 < NBLOCKS"
    and r: "region p b0 = (s, n)" "region_ok k s n" "present p b0"
  shows "unat (block_virtend (drv m) b) \<le> unat (ioremap k s n) \<or> unat (ioremap k s n) + unat n \<le> unat (block_virtp (drv m) b)"
proof -
  note o = loading_block [OF l ks b(1) less_imp_le [OF b(2)]]
  show ?thesis
    using kernel_sound_apart [OF ks b prod.collapse [symmetric] r(1) o(1) r(2) o(2) r(3)] o(3,5) by simp
qed

lemma loading_extend:
  assumes l: "loading p k b0 m" and r: "region p b0 = (s, n)" "region_ok k s n" "present p b0"
    and ready: "\<forall>b<NBLOCKS. block_ready (drv m') b" and blk: "only_block b0 (ioremap k s n) n (drv m) (drv m')"
    and v: "block_virtp (drv m') = (block_virtp (drv m))(b0 := ioremap k s n)"
      "block_virtend (drv m') = (block_virtend (drv m))(b0 := ioremap k s n + n)"
    and nb: "nblocks (drv m') = nblocks (drv m) + 1"
    and rd: "\<forall>i<num_pools (drv m') b0. ready m' b0 i" "\<forall>b. b \<noteq> b0 \<longrightarrow> ready m' b = ready m b"
  shows "loading p k (Suc b0) m'"
proof -
  have same: "heap_pool (drv m') b = heap_pool (drv m) b" "num_pools (drv m') b = num_pools (drv m) b" if "b \<noteq> b0" for b
    using blk that by (simp_all add: only_block_def num_pools_def)
  have np: "npools (drv m') = npools (drv m)" using blk by (simp add: only_block_def)
  have old: "present p b" "region_ok k (fst (region p b)) (snd (region p b))"
      "block_virtp (drv m) b = ioremap k (fst (region p b)) (snd (region p b))"
      "block_virtend (drv m) b = block_virtp (drv m) b + snd (region p b)"
      "\<forall>i<num_pools (drv m) b. ready m b i" if "b < b0" for b
    using l that by (simp_all add: loading_def)
  have new: "heap_pool (drv m) b = -1" "block_virtp (drv m) b = 0" "block_virtend (drv m) b = 0" "\<not> ready m b i" if "b0 \<le> b" for b i
    using l that by (simp_all add: loading_def)
  have "present p b \<and> region_ok k (fst (region p b)) (snd (region p b))
      \<and> block_virtp (drv m') b = ioremap k (fst (region p b)) (snd (region p b))
      \<and> block_virtend (drv m') b = block_virtp (drv m') b + snd (region p b)
      \<and> (\<forall>i<num_pools (drv m') b. ready m' b i)" if "b < Suc b0" for b
    using that old [of b] r v rd same(2) [of b] by (cases "b = b0") simp_all
  moreover have "heap_pool (drv m') b = -1 \<and> block_virtp (drv m') b = 0 \<and> block_virtend (drv m') b = 0
      \<and> (\<forall>i. \<not> ready m' b i)" if "Suc b0 \<le> b" for b
    using that new [of b] v rd(2) same(1) [of b] by simp
  moreover have "nblocks (drv m') = of_nat (Suc b0) \<and> npools (drv m') = (\<lambda>b. length (par_pools p b))"
    using l nb np by (simp add: loading_def)
  ultimately show ?thesis using ready by (simp add: loading_def)
qed

lemma loading_step:
  assumes l: "loading p k b0 m" and b0: "b0 < NBLOCKS" and ks: "kernel_sound p k" and ps: "pool_sizes_ok p"
    and s: "par_start p b0 = Some pstart" and e: "par_end p b0 = Some pend"
    and run: "init_block p k b0 pstart pend m = (Done (), m')"
  shows "loading p k (Suc b0) m'"
proof -
  obtain s n where r: "region p b0 = (s, n)" by fastforce
  then have r': "PAGE_ALIGN (simple_strtol 16 pstart) = s" "PAGE_ALIGN (simple_strtol 16 pend) = s + n" "n = s + n - s"
    using s e by (auto simp: region_def Let_def)
  have here: "present p b0" using s e by (simp add: present_def)
  note apart = loading_apart [OF l ks _ b0 r _ here]
  have unready: "heap_pool (drv m) b = -1" "block_virtend (drv m) b = 0" if "b0 \<le> b" for b
    using l that by (auto simp: loading_def)
  have np: "npools (drv m) b0 = length (par_pools p b0)" using l by (simp add: loading_def)
  have sizes: "\<forall>t\<in>set (par_pools p b0). \<forall>num req. parse_pool t = Done (num, req) \<longrightarrow> 0 < unat (PAGE_ALIGN req)"
    using ps b0 by (fastforce simp: pool_sizes_ok_def)
  have res: "region_ok k s n" "only_block b0 (ioremap k s n) n (drv m) (drv m')" "block_ready (drv m') b0"
      "block_virtp (drv m') = (block_virtp (drv m))(b0 := ioremap k s n)"
      "block_virtend (drv m') = (block_virtend (drv m))(b0 := ioremap k s n + n)"
      "nblocks (drv m') = nblocks (drv m) + 1"
      "\<forall>i<num_pools (drv m') b0. ready m' b0 i" "\<forall>b. b \<noteq> b0 \<longrightarrow> ready m' b = ready m b"
    using init_block_result [OF run r'(1,2,3) refl _ _ b0 unready(1) [OF le_refl] np sizes]
      kernel_sound_region [OF ks r b0 _ here] apart by blast+
  have "block_ready (drv m') b" if b: "b < NBLOCKS" for b
  proof (cases "b = b0")
    case False
    have "unat (block_virtend (drv m) b) \<le> unat (ioremap k s n) \<or> unat (ioremap k s n) + unat n \<le> unat (block_virtp (drv m) b)"
      using apart [OF _ res(1), of b] unready(2) [of b] by (cases "b < b0") simp_all
    with block_ready_other [OF _ res(2) False] l b show ?thesis by (simp add: loading_def)
  qed (use res(3) in simp)
  then show ?thesis using loading_extend [OF l r res(1) here _ res(2,4-8)] by blast
qed

lemma loading_start: "loading p k 0 ((loaded p k)\<lparr>held := rs\<rparr>)"
proof -
  have "stacked 0 (concat (map (\<lambda>_. []) xs)) 0" for xs :: "nat list" by (induction xs) simp_all
  then show ?thesis
    by (simp add: loading_def loaded_def block_ready_def pool_entries_def no_pool_def fresh_pool_def)
qed

lemma init_blocks_result:
  assumes "init_blocks p k [b0..<NBLOCKS] m = (Done (), m')" and "loading p k b0 m" and "b0 \<le> NBLOCKS"
    and "kernel_sound p k" and "pool_sizes_ok p"
  shows "\<exists>b1\<le>NBLOCKS. loading p k b1 m' \<and> (b1 < NBLOCKS \<longrightarrow> \<not> present p b1)"
  using assms
proof (induction "[b0..<NBLOCKS]" arbitrary: b0 m)
  case Nil
  then have "[b0..<NBLOCKS] = []" by simp
  then have "b0 = NBLOCKS" using Nil.prems(3) by auto
  then show ?case using Nil by (intro exI [of _ b0]) simp
next
  case (Cons b bs)
  have b: "b = b0" "b0 < NBLOCKS" "bs = [Suc b0..<NBLOCKS]"
    using Cons.hyps(2) [symmetric] by (auto simp: upt_eq_Cons_conv)
  then have b4: "[b0..<NBLOCKS] = b0 # [Suc b0..<NBLOCKS]" by (simp add: upt_conv_Cons)
  show ?case
  proof (cases "par_start p b0 = None \<or> par_end p b0 = None")
    case True
    then have "m' = m" using Cons.prems(1) b4 by (auto split: option.splits if_splits)
    then show ?thesis using Cons.prems(2) b(2) True by (intro exI [of _ b0]) (auto simp: present_def)
  next
    case False
    then obtain ps pe where pp: "par_start p b0 = Some ps" "par_end p b0 = Some pe" by auto
    then obtain m1 where m1: "init_block p k b0 ps pe m = (Done (), m1)" "init_blocks p k [Suc b0..<NBLOCKS] m1 = (Done (), m')"
      using Cons.prems(1) b4 by (auto split: prod.splits res.splits)
    from loading_step [OF Cons.prems(2) b(2) Cons.prems(4,5) pp m1(1)]
    show ?thesis using Cons.hyps(1) [OF b(3) m1(2)] b(2) Cons.prems(4,5) by simp
  qed
qed

lemma cmem_init_loading:
  assumes "cmem_init p k = (Done (), m)" and "kernel_sound p k" and "pool_sizes_ok p"
  shows "\<exists>b1\<le>NBLOCKS. loading p k b1 m \<and> (b1 < NBLOCKS \<longrightarrow> \<not> present p b1)"
proof -
  have "init_blocks p k [0..<NBLOCKS] ((loaded p k)\<lparr>held := Chrdev # held (loaded p k)\<rparr>) = (Done (), m)"
    using assms(1) by (auto simp: cmem_init_def Let_def split: if_splits prod.splits res.splits)
  from init_blocks_result [OF this loading_start _ assms(2,3)] show ?thesis by simp
qed

end
