(* ===== verification/CmemUnload.thy ===== *)
theory CmemUnload
  imports CmemLoad
begin

text \<open>
  What the CMEM module holds of the kernel, and that the flags of the blocks account for it from
  the first step of a load on (\<open>accounted\<close>); what a failed load and unloading give back; and that
  no system call changes the data of a block in between (\<open>layout\<close>).
\<close>

section \<open>What the module holds\<close>

definition holdings :: "module \<Rightarrow> nat \<Rightarrow> resource list" where
  "holdings m b =
     (if block_flags m b AND BLOCK_IOREMAP \<noteq> 0 then [Io_mapping (block_virtp (drv m) b)] else [])
     @ (if block_flags m b AND BLOCK_MEMREGION \<noteq> 0
        then [Mem_region (block_start (drv m) b) (block_end (drv m) b - block_start (drv m) b)] else [])"

text \<open>The flags of the blocks account for everything the module holds.\<close>

definition accounted :: "module \<Rightarrow> bool" where
  "accounted m \<longleftrightarrow> mset (held m) = add_mset Chrdev (mset (holdings m 0) + mset (holdings m 1))"

definition block_data :: "cmem \<Rightarrow> (nat \<Rightarrow> u32) \<times> (nat \<Rightarrow> u32) \<times> (nat \<Rightarrow> u32)" where
  "block_data st = (block_start st, block_end st, block_virtp st)"

lemma accounted_cong:
  assumes "block_data (drv m') = block_data (drv m)" and "held m' = held m" and "block_flags m' = block_flags m"
  shows "accounted m' = accounted m"
  using assms by (simp add: accounted_def holdings_def block_data_def)

lemma flag_bits [simp]:
  "(f AND NOT BLOCK_IOREMAP) AND BLOCK_IOREMAP = (0 :: u32)"
  "(f AND NOT BLOCK_IOREMAP) AND BLOCK_MEMREGION = f AND BLOCK_MEMREGION"
  "(f AND NOT BLOCK_MEMREGION) AND BLOCK_MEMREGION = (0 :: u32)"
  "(f AND NOT BLOCK_MEMREGION) AND BLOCK_IOREMAP = f AND BLOCK_IOREMAP"
  by (simp_all add: BLOCK_IOREMAP_def BLOCK_MEMREGION_def and.assoc)

lemma release_mapping_fields:
  "drv (release_mapping bi m) = drv m"
  "block_flags (release_mapping bi m) b AND BLOCK_IOREMAP = (if b = bi then 0 else block_flags m b AND BLOCK_IOREMAP)"
  "block_flags (release_mapping bi m) b AND BLOCK_MEMREGION = block_flags m b AND BLOCK_MEMREGION"
  "ready (release_mapping bi m) = ready m"
  by (simp_all add: release_mapping_def)

lemma release_region_fields:
  "drv (release_region bi m) = drv m"
  "block_flags (release_region bi m) b AND BLOCK_MEMREGION = (if b = bi then 0 else block_flags m b AND BLOCK_MEMREGION)"
  "block_flags (release_region bi m) b AND BLOCK_IOREMAP = block_flags m b AND BLOCK_IOREMAP"
  "ready (release_region bi m) = ready m"
  by (simp_all add: release_region_def)

lemmas release_fields = release_mapping_fields release_region_fields

lemma accounted_release:
  assumes "accounted m" and "bi < NBLOCKS"
  shows "accounted (release_mapping bi m)" and "accounted (release_region bi m)"
proof -
  have bi: "bi = 0 \<or> bi = 1" using assms(2) by (simp add: less_NBLOCKS)
  have h: "mset (held m) = add_mset Chrdev (mset (holdings m 0) + mset (holdings m 1))"
    using assms(1) by (simp add: accounted_def)
  show "accounted (release_mapping bi m)"
    using bi h unfolding accounted_def holdings_def release_fields
    by (auto simp: release_mapping_def)
  show "accounted (release_region bi m)"
    using bi h unfolding accounted_def holdings_def release_fields
    by (auto simp: release_region_def)
qed

lemma blocks_list: "[0..<NBLOCKS] = [0, 1]"
  by (simp add: NBLOCKS_def upt_conv_Cons)

lemma fail_after_create_releases:
  assumes "accounted m"
  shows "held (fail_after_create m) = []"
proof -
  let ?m = "release_region 1 (release_region 0 (release_mapping 1 (release_mapping 0 m)))"
  have "accounted ?m" using assms by (intro accounted_release) (simp_all add: NBLOCKS_def)
  moreover have "holdings ?m 0 = []" "holdings ?m 1 = []"
    by (simp_all add: holdings_def release_fields)
  ultimately have "held ?m = [Chrdev]" by (simp add: accounted_def)
  then show ?thesis by (simp add: fail_after_create_def blocks_list unregister_chrdev_def)
qed

section \<open>A failed load\<close>

lemma pool_buffers_data: "pool_buffers k bi idx sz n i st = (r, st') \<Longrightarrow> block_data st' = block_data st"
proof (induction n arbitrary: i st r)
  case (Suc n)
  then show ?case
    by (auto simp: alloc_pool_buffer_def Let_def block_data_def upd_pool_def
        split: option.splits if_splits prod.splits res.splits)
qed (simp add: block_data_def)

definition same_holdings :: "module \<Rightarrow> module \<Rightarrow> bool" where
  "same_holdings m m' \<longleftrightarrow> block_data (drv m') = block_data (drv m) \<and> held m' = held m
     \<and> block_flags m' = block_flags m"

lemma alloc_pool_holdings: "alloc_pool k bi idx num req m = (r, m') \<Longrightarrow> same_holdings m m'"
  using pool_buffers_data [of k bi idx "PAGE_ALIGN req" "nat num" 0]
  by (fastforce simp: alloc_pool_def Let_def same_holdings_def block_data_def upd_pool_def split: if_splits prod.splits)

lemma init_pools_holdings: "init_pools k bi i ss m = (r, m') \<Longrightarrow> same_holdings m m'"
proof (induction ss arbitrary: i m)
  case (Cons t ts)
  show ?case
  proof (cases "parse_pool t")
    case (Done q)
    obtain num req where q: "q = (num, req)" by fastforce
    obtain r1 m1 where ap: "alloc_pool k bi i num req m = (r1, m1)" by fastforce
    note h = alloc_pool_holdings [OF ap]
    show ?thesis
    proof (cases r1)
      case r1: (Done vs)
      let ?m2 = "on_drv (\<lambda>st. st\<lparr>total_num_buffers :=
        (total_num_buffers st)(bi := total_num_buffers st bi + word_of_int num)\<rparr>) m1"
      have "same_holdings ?m2 m'" using Cons.prems Done q ap r1 by (intro Cons.IH) simp
      then show ?thesis using h by (simp add: same_holdings_def block_data_def)
    qed (use Cons.prems Done q ap h in auto)
  qed (use Cons.prems in \<open>auto simp: same_holdings_def\<close>)
qed (auto simp: same_holdings_def)

lemma init_heap_holdings: "init_heap k bi m = (r, m') \<Longrightarrow> same_holdings m m'"
proof -
  let ?hs = "block_avail_size (drv m) bi AND NOT (PAGE_SIZE - 1)"
  let ?m1 = "on_drv (\<lambda>st. st\<lparr>heap_size := (heap_size st)(bi := ?hs)\<rparr>) m"
  assume run: "init_heap k bi m = (r, m')"
  obtain r1 m1 where ap: "alloc_pool k bi (npools (drv m) bi) 1 ?hs ?m1 = (r1, m1)" by fastforce
  have h: "same_holdings m m1"
    using alloc_pool_holdings [OF ap] by (simp add: same_holdings_def block_data_def)
  show ?thesis
  proof (cases "?hs > 0")
    case True
    then show ?thesis
      using run ap h by (cases r1) (auto simp: init_heap_def Let_def same_holdings_def block_data_def)
  next
    case False
    then show ?thesis
      using run by (auto simp: init_heap_def Let_def same_holdings_def block_data_def)
  qed
qed

text \<open>The three ways \<open>map_block\<close> ends: with nothing, with the region, and with both.\<close>

lemma map_block_holds:
  assumes "map_block k bi s e m = (r, m')"
  shows "block_start (drv m') = (block_start (drv m))(bi := s) \<and> block_end (drv m') = (block_end (drv m))(bi := e)
     \<and> (\<forall>b. b \<noteq> bi \<longrightarrow> block_virtp (drv m') b = block_virtp (drv m) b \<and> block_flags m' b = block_flags m b)
     \<and> (block_flags m' bi = block_flags m bi \<and> held m' = held m
       \<or> block_flags m' bi = block_flags m bi OR BLOCK_MEMREGION \<and> held m' = Mem_region s (e - s) # held m
       \<or> block_flags m' bi = (block_flags m bi OR BLOCK_MEMREGION) OR BLOCK_IOREMAP
         \<and> held m' = Io_mapping (block_virtp (drv m') bi) # Mem_region s (e - s) # held m)"
  using assms unfolding map_block_def Let_def by (simp split: if_splits) (elim conjE, hypsubst, simp)+

lemma map_block_accounted:
  assumes run: "map_block k bi s e m = (r, m')" and acc: "accounted m" and bi: "bi < NBLOCKS" and z: "block_flags m bi = 0"
  shows "accounted m' \<and> (\<forall>b. b \<noteq> bi \<longrightarrow> block_flags m' b = block_flags m b)"
proof -
  note h = map_block_holds [OF run]
  have old: "holdings m' b = holdings m b" if "b \<noteq> bi" for b
    using h that by (simp add: holdings_def)
  have none: "holdings m bi = []" using z by (simp add: holdings_def)
  have new: "mset (held m') = mset (held m) + mset (holdings m' bi)"
    using h z by (elim conjE disjE) (simp_all add: holdings_def BLOCK_IOREMAP_def BLOCK_MEMREGION_def)
  have "bi = 0 \<or> bi = 1" using bi by (simp add: less_NBLOCKS)
  then have "accounted m'"
    using acc new old none by (elim disjE) (simp_all add: accounted_def)
  then show ?thesis using h by blast
qed

lemma same_holdings_accounted: "same_holdings m m' \<Longrightarrow> accounted m \<Longrightarrow> accounted m'"
  using accounted_cong [of m' m] by (simp add: same_holdings_def)

lemma init_block_accounted:
  assumes "init_block p k bi ps pe m = (r, m')" and "accounted m" and "bi < NBLOCKS" and "block_flags m bi = 0"
  shows "accounted m' \<and> (\<forall>b. b \<noteq> bi \<longrightarrow> block_flags m' b = block_flags m b)"
proof -
  obtain r1 m1 where m1: "map_block k bi (PAGE_ALIGN (simple_strtol 16 ps)) (PAGE_ALIGN (simple_strtol 16 pe)) m = (r1, m1)"
    by fastforce
  note a1 = map_block_accounted [OF m1 assms(2-4)]
  obtain r2 m2 where m2: "init_pools k bi 0 (par_pools p bi) m1 = (r2, m2)" by fastforce
  note h2 = init_pools_holdings [OF m2]
  have a2: "accounted m2" "block_flags m2 = block_flags m1"
    using same_holdings_accounted [OF h2] a1 h2 by (simp_all add: same_holdings_def)
  obtain r3 m3 where m3: "init_heap k bi m2 = (r3, m3)" by fastforce
  note h3 = init_heap_holdings [OF m3]
  have a3: "accounted m3" "block_flags m3 = block_flags m2"
    using same_holdings_accounted [OF h3] a2 h3 by (simp_all add: same_holdings_def)
  have "accounted (on_drv (\<lambda>st. st\<lparr>nblocks := nblocks st + 1\<rparr>) m3)"
    using a3(1) by (simp add: accounted_def holdings_def)
  moreover have "m' = m1 \<or> m' = m2 \<or> m' = m3 \<or> m' = on_drv (\<lambda>st. st\<lparr>nblocks := nblocks st + 1\<rparr>) m3"
    using assms(1) m1 m2 m3 by (auto simp: init_block_def split: res.splits)
  ultimately show ?thesis using a1 a2 a3 by auto
qed

lemma init_blocks_accounted:
  assumes "init_blocks p k [b0..<NBLOCKS] m = (r, m')" and "accounted m" and "\<forall>b\<ge>b0. block_flags m b = 0"
  shows "accounted m'"
  using assms
proof (induction "[b0..<NBLOCKS]" arbitrary: b0 m)
  case (Cons b bs)
  have b: "b0 < NBLOCKS" "bs = [Suc b0..<NBLOCKS]"
    using Cons.hyps(2) [symmetric] by (auto simp: upt_eq_Cons_conv)
  then have b4: "[b0..<NBLOCKS] = b0 # [Suc b0..<NBLOCKS]" by (simp add: upt_conv_Cons)
  show ?case
  proof (cases "par_start p b0 = None \<or> par_end p b0 = None")
    case True
    then have "m' = m" using Cons.prems(1) b4 by (auto split: option.splits if_splits)
    then show ?thesis using Cons.prems(2) by simp
  next
    case False
    then obtain ps pe where pp: "par_start p b0 = Some ps" "par_end p b0 = Some pe" by auto
    obtain r1 m1 where m1: "init_block p k b0 ps pe m = (r1, m1)" by fastforce
    have a: "accounted m1" "\<forall>b. b \<noteq> b0 \<longrightarrow> block_flags m1 b = block_flags m b"
      using init_block_accounted [OF m1 Cons.prems(2) b(1)] Cons.prems(3) by auto
    then have z: "\<forall>b\<ge>Suc b0. block_flags m1 b = 0" using Cons.prems(3) by simp
    show ?thesis
    proof (cases r1)
      case (Done x)
      then have "init_blocks p k [Suc b0..<NBLOCKS] m1 = (r, m')" using Cons.prems(1) b4 pp m1 by simp
      then show ?thesis using Cons.hyps(1) [OF b(2) _ a(1) z] by simp
    qed (use Cons.prems(1) b4 pp m1 a(1) in auto)
  qed
qed auto

lemma cmem_init_accounted:
  assumes "init_blocks p k [0..<NBLOCKS] ((loaded p k)\<lparr>held := Chrdev # held (loaded p k)\<rparr>) = (r, m)"
  shows "accounted m"
  by (rule init_blocks_accounted [OF assms]) (simp_all add: accounted_def holdings_def loaded_def)

section \<open>Unloading\<close>

definition entries_of :: "cmem \<Rightarrow> nat \<times> nat \<Rightarrow> pool_buffer list" where
  "entries_of st = (\<lambda>(b, i). busylist (p_objs st b i) @ freelist (p_objs st b i))"

lemma free_pools_result:
  "free_pools m bi is = (if \<forall>i\<in>set is. ready m bi i
     then Done (concat (map (\<lambda>i. entries_of (drv m) (bi, i)) is)) else Crash Null_deref)"
  by (induction "is") (auto simp: entries_of_def)

lemma free_pools_cong: "drv m' = drv m \<Longrightarrow> ready m' = ready m \<Longrightarrow> free_pools m' bi is = free_pools m bi is"
  by (simp add: free_pools_result)

definition all_ready :: "module \<Rightarrow> bool" where
  "all_ready m \<longleftrightarrow> (\<forall>b<NBLOCKS. \<forall>i<num_pools (drv m) b. ready m b i)"

lemma cmem_exit_result:
  "fst (cmem_exit m) = (if all_ready m then Done (concat (map (entries_of (drv m)) (all_pools (drv m))))
     else Crash Null_deref)"
  "all_ready m \<Longrightarrow> snd (cmem_exit m) =
     unregister_chrdev (release_mapping 1 (release_region 1 (release_mapping 0 (release_region 0 m))))"
proof -
  have ar: "all_ready m = ((\<forall>i<num_pools (drv m) 0. ready m 0 i) \<and> (\<forall>i<num_pools (drv m) (Suc 0). ready m (Suc 0) i))"
    by (auto simp: all_ready_def NBLOCKS_def less_Suc_eq numeral_2_eq_2)
  have ap: "concat (map (entries_of (drv m)) (all_pools (drv m)))
      = concat (map (\<lambda>i. entries_of (drv m) (0, i)) [0..<num_pools (drv m) 0])
      @ concat (map (\<lambda>i. entries_of (drv m) (Suc 0, i)) [0..<num_pools (drv m) (Suc 0)])"
    by (simp add: all_pools_def blocks_list comp_def)
  show "fst (cmem_exit m) = (if all_ready m then Done (concat (map (entries_of (drv m)) (all_pools (drv m))))
     else Crash Null_deref)"
    unfolding ar ap
    by (simp add: cmem_exit_def blocks_list free_pools_result release_fields split: res.splits prod.splits)
  show "snd (cmem_exit m) =
     unregister_chrdev (release_mapping 1 (release_region 1 (release_mapping 0 (release_region 0 m))))" if "all_ready m"
    using that unfolding ar
    by (simp add: cmem_exit_def blocks_list free_pools_result release_fields)
qed

lemma cmem_exit_releases:
  assumes "accounted m" and "all_ready m"
  shows "held (snd (cmem_exit m)) = []"
proof -
  let ?m = "release_mapping 1 (release_region 1 (release_mapping 0 (release_region 0 m)))"
  have "accounted ?m" using assms(1) by (intro accounted_release) (simp_all add: NBLOCKS_def)
  moreover have "holdings ?m 0 = []" "holdings ?m 1 = []"
    by (simp_all add: holdings_def release_fields)
  ultimately have "held ?m = [Chrdev]" by (simp add: accounted_def)
  then show ?thesis by (simp add: cmem_exit_result(2) [OF assms(2)] unregister_chrdev_def)
qed

section \<open>No call moves a block\<close>

definition layout :: "cmem \<Rightarrow> ((nat \<Rightarrow> u32) \<times> (nat \<Rightarrow> u32) \<times> (nat \<Rightarrow> u32)) \<times> (nat \<Rightarrow> nat) \<times> (nat \<Rightarrow> int)" where
  "layout st = (block_data st, npools st, heap_pool st)"

lemma layout_upd [simp]:
  "layout (upd_pool bi i f st) = layout st" "layout (st\<lparr>store := m\<rparr>) = layout st"
  "layout (st\<lparr>cache_ops := c\<rparr>) = layout st" "layout (st\<lparr>reference_count := n\<rparr>) = layout st"
  by (simp_all add: layout_def block_data_def upd_pool_def)

lemma layout_ALLOCHEAP: "ioctl_ALLOCHEAP mm io filp cmd sz al b st = (r, st') \<Longrightarrow> layout st' = layout st"
  by (auto simp: ioctl_ALLOCHEAP_def enter_heap_buffer_def with_block_def Let_def
      split: if_splits option.splits prod.splits)

lemma layout_ALLOC: "ioctl_ALLOC io filp cmd pool b w2 st = (r, st') \<Longrightarrow> layout st' = layout st"
  by (auto simp: ioctl_ALLOC_def with_block_def Let_def split: if_splits list.splits)

lemma layout_release_buffer: "release_buffer cmd virtp bi pool k e st = (r, st') \<Longrightarrow> layout st' = layout st"
  by (auto simp: release_buffer_def Let_def split: if_splits option.splits)

lemma layout_free_entry:
  assumes "free_entry io filp cmd virtp phys st = (r, st')"
  shows "layout st' = layout st"
proof (cases "find_busy_entry st phys")
  case (Some h)
  obtain e k i bi where h: "h = (e, k, i, bi)" by (cases h)
  let ?e = "e\<lparr>users := remove1 filp (users e)\<rparr>"
  obtain q s where qs: "(if users ?e = [] then release_buffer cmd virtp bi i k ?e st
      else (Done (), upd_pool bi i (set_busy k ?e) st)) = (q, s)" by fastforce
  then have "layout s = layout st" using layout_release_buffer by (auto split: if_splits)
  then show ?thesis
    using assms qs by (auto simp: free_entry_def Some h Let_def split: if_splits res.splits prod.splits)
qed (use assms in \<open>auto simp: free_entry_def\<close>)

lemma layout_ioctl:
  assumes "cmem_ioctl mm io filp cmd args st = (r, st')"
  shows "layout st' = layout st"
proof -
  have *: "ioctl_FREE mm io filp cmd w0 st = (r, st') \<Longrightarrow> layout st' = layout st" for w0
    using layout_free_entry by (auto simp: ioctl_FREE_def Let_def split: if_splits)
  have "ioctl_REGUSER io filp w0 st = (r, st') \<Longrightarrow> layout st' = layout st" for w0
    by (auto simp: ioctl_REGUSER_def Let_def split: if_splits option.splits)
  moreover have "ioctl_CACHE io cmd w0 w1 st = (r, st') \<Longrightarrow> layout st' = layout st" for w0 w1
    by (auto simp: ioctl_CACHE_def Let_def split: if_splits)
  moreover have "ioctl_GETPHYS mm io w0 st = (r, st') \<Longrightarrow> layout st' = layout st" for w0
    by (auto simp: ioctl_GETPHYS_def Let_def split: if_splits)
  moreover have "ioctl_GETSIZE io w0 w1 st = (r, st') \<Longrightarrow> layout st' = layout st" for w0 w1
    by (auto simp: ioctl_GETSIZE_def with_block_def split: if_splits)
  moreover have "ioctl_GETPOOL io w0 w1 st = (r, st') \<Longrightarrow> layout st' = layout st" for w0 w1
    by (auto simp: ioctl_GETPOOL_def Let_def split: if_splits option.splits)
  moreover have "ioctl_GETVERSION io st = (r, st') \<or> ioctl_GETNUMBLOCKS io st = (r, st') \<Longrightarrow> layout st' = layout st"
    by (auto simp: ioctl_GETVERSION_def ioctl_GETNUMBLOCKS_def split: if_splits)
  moreover have "ioctl_GETBLOCK io w0 w2 st = (r, st') \<Longrightarrow> layout st' = layout st" for w0 w2
    by (auto simp: ioctl_GETBLOCK_def split: if_splits)
  ultimately show ?thesis
    using assms layout_ALLOCHEAP layout_ALLOC * unfolding cmem_ioctl_def Let_def
    by (cases args) (auto split: if_splits)
qed

lemma layout_release_pools: "release_pools locks lc filp is st = (r, st') \<Longrightarrow> layout st' = layout st"
proof (induction "is" arbitrary: st)
  case (Cons x xs)
  obtain b i where x: "x = (b, i)" by fastforce
  have "layout st1 = layout st" if "release_pool lc filp b i st = Some st1" for st1
    using that by (auto simp: release_pool_def Let_def split: option.splits)
  then show ?case using Cons.prems Cons.IH x by (auto split: if_splits option.splits)
qed simp

lemma layout_reach: "cmem_reach st st' \<Longrightarrow> layout st' = layout st"
proof (induction rule: cmem_reach.induct)
  case (reach_step st st' st'')
  have "layout st'' = layout st'"
    using reach_step.hyps(2)
  proof (cases rule: cmem_step.cases)
    case step_open then show ?thesis by (simp add: cmem_open_def)
  next
    case step_ioctl then show ?thesis using layout_ioctl by simp
  next
    case step_release then show ?thesis using layout_release_pools by (fastforce simp: cmem_release_def Let_def)
  qed
  then show ?case using reach_step.IH by simp
qed simp

end
