(* ===== verification/CmemLife.thy ===== *)
theory CmemLife
  imports CmemUnload CmemPools
begin

text \<open>
  The properties of the life of the CMEM module: when a load succeeds, what it establishes, that
  every run of calls after it keeps the invariant of the driver, and what a failed load and
  unloading after any run give back.
\<close>

section \<open>A load that has what it needs succeeds\<close>

definition pool_need :: "string \<Rightarrow> nat" where
  "pool_need t = (case parse_pool t of Done (num, req) \<Rightarrow> nat num * unat (PAGE_ALIGN req) | _ \<Rightarrow> 0)"

text \<open>The memory block \<open>bi\<close> has available, while it is mapped where no address is null.\<close>

definition has_room :: "cmem \<Rightarrow> nat \<Rightarrow> nat \<Rightarrow> bool" where
  "has_room st bi n \<longleftrightarrow> n \<le> unat (block_avail_size st bi) \<and> block_virtp st bi \<noteq> 0
     \<and> unat (block_virtp st bi) + unat (block_avail_size st bi) < 2 ^ 32
     \<and> 4096 dvd unat (block_avail_size st bi)"

lemma pool_buffers_succeed:
  assumes "\<forall>j. kmalloc_buffer k bi idx j \<noteq> None" and "4096 dvd unat sz" and "has_room st bi (n * unat sz + r)"
  shows "\<exists>vs st'. pool_buffers k bi idx sz n i st = (Done vs, st') \<and> has_room st' bi r \<and> npools st' = npools st"
  using assms(3)
proof (induction n arbitrary: i st)
  case (Suc n)
  obtain e0 where e0: "kmalloc_buffer k bi idx i = Some e0" using assms(1) by auto
  let ?a = "block_avail_size st bi - sz"
  let ?st1 = "st\<lparr>block_avail_size := (block_avail_size st)(bi := ?a)\<rparr>"
  have room: "unat sz \<le> unat (block_avail_size st bi)" "block_virtp st bi \<noteq> 0"
      "unat (block_virtp st bi) + unat (block_avail_size st bi) < 2 ^ 32"
    using Suc.prems by (auto simp: has_room_def)
  have fits: "sz \<le> block_avail_size st bi" using room(1) by (simp add: word_le_nat_alt)
  have a: "unat ?a = unat (block_avail_size st bi) - unat sz"
    using fits by (simp add: unat_minus_no_wrap word_le_nat_alt)
  have "unat (block_virtp st bi + ?a) = unat (block_virtp st bi) + unat ?a"
    using room a by (intro unat_plus_no_wrap) linarith
  then have nz: "block_virtp st bi + ?a \<noteq> 0"
    using room(2) by (metis add_is_0 unat_eq_zero)
  let ?e = "e0\<lparr>pb_id := int i, physp := get_phys (kmm k) ?st1 (block_virtp st bi + ?a), pb_size := sz, users := []\<rparr>"
  let ?st2 = "upd_pool bi idx (\<lambda>p. p\<lparr>freelist := freelist p @ [?e]\<rparr>) ?st1"
  have "4096 dvd unat ?a" using Suc.prems assms(2) by (intro dvd_unat_diff) (simp_all add: has_room_def)
  then have "has_room ?st2 bi (n * unat sz + r)"
    using Suc.prems a by (auto simp: has_room_def upd_pool_def)
  from Suc.IH [OF this] obtain vs st' where "pool_buffers k bi idx sz n (Suc i) ?st2 = (Done vs, st')"
      "has_room st' bi r" "npools st' = npools ?st2" by blast
  then show ?case
    using e0 fits nz by (simp add: alloc_pool_buffer_def Let_def)
qed simp

lemma alloc_pool_succeeds:
  assumes "\<forall>j. kmalloc_buffer k bi idx j \<noteq> None" and "idx < MAX_POOLS"
    and "has_room (drv m) bi (nat num * unat (PAGE_ALIGN req) + r)"
  shows "\<exists>vs m'. alloc_pool k bi idx num req m = (Done vs, m') \<and> has_room (drv m') bi r
           \<and> npools (drv m') = npools (drv m)"
proof -
  let ?st = "upd_pool bi idx (\<lambda>p. \<lparr>freelist = [], busylist = [], numbufs = word_of_int num,
    po_size = PAGE_ALIGN req, reqsize = req\<rparr>) (drv m)"
  have "has_room ?st bi (nat num * unat (PAGE_ALIGN req) + r)"
    using assms(3) by (simp add: has_room_def upd_pool_def)
  from pool_buffers_succeed [OF assms(1) PAGE_ALIGN_dvd this, of 0] show ?thesis
    using assms(2) by (auto simp: alloc_pool_def Let_def)
qed

lemma init_pools_succeeds:
  assumes "\<forall>j idx. kmalloc_buffer k bi idx j \<noteq> None"
    and "\<forall>t\<in>set ss. \<exists>num req. parse_pool t = Done (num, req)" and "i + length ss \<le> MAX_POOLS"
    and "has_room (drv m) bi (sum_list (map pool_need ss) + r)"
  shows "\<exists>m'. init_pools k bi i ss m = (Done (), m') \<and> has_room (drv m') bi r \<and> npools (drv m') = npools (drv m)"
  using assms(2-)
proof (induction ss arbitrary: i m)
  case (Cons t ts)
  obtain num req where t: "parse_pool t = Done (num, req)" using Cons.prems(1) by auto
  then have need: "pool_need t = nat num * unat (PAGE_ALIGN req)" by (simp add: pool_need_def)
  have "has_room (drv m) bi (nat num * unat (PAGE_ALIGN req) + (sum_list (map pool_need ts) + r))"
    using Cons.prems(3) need by (simp add: add.assoc)
  from alloc_pool_succeeds [OF _ _ this, of k i] obtain vs m1 where m1: "alloc_pool k bi i num req m = (Done vs, m1)"
      "has_room (drv m1) bi (sum_list (map pool_need ts) + r)" "npools (drv m1) = npools (drv m)"
    using assms(1) Cons.prems(2) by auto
  let ?m2 = "on_drv (\<lambda>st. st\<lparr>total_num_buffers :=
    (total_num_buffers st)(bi := total_num_buffers st bi + word_of_int num)\<rparr>) m1"
  have "has_room (drv ?m2) bi (sum_list (map pool_need ts) + r)" using m1(2) by (simp add: has_room_def)
  from Cons.IH [OF _ _ this, of "Suc i"] Cons.prems(1,2) m1 t show ?case by auto
qed auto

lemma init_heap_succeeds:
  assumes "\<forall>j idx. kmalloc_buffer k bi idx j \<noteq> None" and "npools (drv m) bi < MAX_POOLS"
    and "has_room (drv m) bi 0"
  shows "\<exists>m'. init_heap k bi m = (Done (), m')"
proof -
  let ?hs = "block_avail_size (drv m) bi"
  let ?m1 = "on_drv (\<lambda>st. st\<lparr>heap_size := (heap_size st)(bi := ?hs)\<rparr>) m"
  have d: "4096 dvd unat ?hs" using assms(3) by (simp add: has_room_def)
  then have "has_room (drv ?m1) bi (nat 1 * unat (PAGE_ALIGN ?hs) + 0)"
    using assms(3) PAGE_ALIGN_id [OF d] by (simp add: has_room_def)
  from alloc_pool_succeeds [OF _ _ this, of k "npools (drv m) bi"] assms(1,2) page_aligned_mask [OF d]
  show ?thesis by (auto simp: init_heap_def Let_def)
qed

text \<open>What a block needs of its parameters and of the kernel.\<close>

definition block_fits :: "module_params \<Rightarrow> kernel \<Rightarrow> nat \<Rightarrow> bool" where
  "block_fits p k b \<longleftrightarrow>
     (case region p b of (s, n) \<Rightarrow> s \<noteq> 0 \<and> n \<noteq> 0 \<and> region_ok k s n
        \<and> unat s + unat n < 2 ^ 32 \<and> unat (ioremap k s n) + unat n < 2 ^ 32 \<and> 4096 dvd unat (ioremap k s n)
        \<and> sum_list (map pool_need (par_pools p b)) \<le> unat n)
     \<and> length (par_pools p b) < MAX_POOLS
     \<and> list_all (\<lambda>t. case parse_pool t of Done _ \<Rightarrow> True | _ \<Rightarrow> False) (par_pools p b)
     \<and> pool_sizes_ok p"

lemma init_block_succeeds:
  assumes fits: "block_fits p k b" and km: "\<forall>j idx. kmalloc_buffer k b idx j \<noteq> None"
    and s: "par_start p b = Some ps" and e: "par_end p b = Some pe" and b: "b < NBLOCKS"
    and np: "npools (drv m) b = length (par_pools p b)"
  shows "\<exists>m'. init_block p k b ps pe m = (Done (), m')"
proof -
  obtain s n where r: "region p b = (s, n)" by fastforce
  let ?e = "PAGE_ALIGN (simple_strtol 16 pe)"
  let ?v = "ioremap k s n"
  have r': "PAGE_ALIGN (simple_strtol 16 ps) = s" "n = ?e - s"
    using r s e by (auto simp: region_def Let_def)
  have c: "s \<noteq> 0" "n \<noteq> 0" "request_mem_region k s n" "?v \<noteq> 0" "unat s + unat n < 2 ^ 32" "unat ?v + unat n < 2 ^ 32"
      "sum_list (map pool_need (par_pools p b)) \<le> unat n" "length (par_pools p b) < MAX_POOLS"
    using fits r by (auto simp: block_fits_def region_ok_def)
  have dvd: "4096 dvd unat n" unfolding r'(2) r'(1) [symmetric] by (intro dvd_unat_diff PAGE_ALIGN_dvd)
  obtain m1 where m1: "map_block k b s ?e m = (Done (), m1)" "block_avail_size (drv m1) b = n"
      "block_virtp (drv m1) b = ?v" "npools (drv m1) = npools (drv m)"
    using c(1-4) r'(2) by (auto simp: map_block_def Let_def)
  have "has_room (drv m1) b (sum_list (map pool_need (par_pools p b)) + 0)"
    using c(4,6,7) m1(2,3) dvd by (simp add: has_room_def)
  moreover have "\<forall>t\<in>set (par_pools p b). \<exists>num req. parse_pool t = Done (num, req)"
  proof
    fix t assume "t \<in> set (par_pools p b)"
    then have "case parse_pool t of Done _ \<Rightarrow> True | _ \<Rightarrow> False" using fits by (simp add: block_fits_def list_all_iff)
    then show "\<exists>num req. parse_pool t = Done (num, req)" by (cases "parse_pool t") auto
  qed
  ultimately obtain m2 where m2: "init_pools k b 0 (par_pools p b) m1 = (Done (), m2)"
      "has_room (drv m2) b 0" "npools (drv m2) = npools (drv m)"
    using init_pools_succeeds [OF km, of "par_pools p b" 0 m1 0] c(8) m1(4) by auto
  with init_heap_succeeds [OF km _ m2(2)] obtain m3 where "init_heap k b m2 = (Done (), m3)"
    using m2(3) np c(8) by auto
  then show ?thesis using m1(1) m2(1) r' by (auto simp: init_block_def)
qed

lemma init_blocks_succeed:
  assumes "\<forall>b<NBLOCKS. present p b \<longrightarrow> block_fits p k b" and "\<forall>b j idx. kmalloc_buffer k b idx j \<noteq> None"
    and "present p 0 \<or> par_pools p 0 = []" and "kernel_sound p k" and "loading p k b0 m" and "b0 \<le> NBLOCKS"
  shows "\<exists>m'. init_blocks p k [b0..<NBLOCKS] m = (Done (), m')"
  using assms(5,6)
proof (induction "[b0..<NBLOCKS]" arbitrary: b0 m)
  case (Cons b bs)
  have b: "b0 < NBLOCKS" "bs = [Suc b0..<NBLOCKS]"
    using Cons.hyps(2) [symmetric] by (auto simp: upt_eq_Cons_conv)
  then have b4: "[b0..<NBLOCKS] = b0 # [Suc b0..<NBLOCKS]" by (simp add: upt_conv_Cons)
  show ?case
  proof (cases "present p b0")
    case False
    then show ?thesis using b4 assms(3) by (auto simp: present_def split: option.splits)
  next
    case True
    then obtain ps pe where pp: "par_start p b0 = Some ps" "par_end p b0 = Some pe" by (auto simp: present_def)
    have fits: "block_fits p k b0" using assms(1) b(1) True by simp
    have np: "npools (drv m) b0 = length (par_pools p b0)" using Cons.prems(1) by (simp add: loading_def)
    obtain m1 where m1: "init_block p k b0 ps pe m = (Done (), m1)"
      using init_block_succeeds [OF fits _ pp b(1) np] assms(2) by auto
    have "pool_sizes_ok p" using fits by (simp add: block_fits_def)
    from loading_step [OF Cons.prems(1) b(1) assms(4) this pp m1]
    obtain m' where "init_blocks p k [Suc b0..<NBLOCKS] m1 = (Done (), m')"
      using Cons.hyps(1) [OF b(2)] b(1) by auto
    then show ?thesis using b4 pp m1 by simp
  qed
qed auto

section \<open>The life of the module\<close>

definition demo_params :: module_params where
  "demo_params = \<lparr>par_start = (\<lambda>b. if b = 0 then Some ''0x80000000'' else None),
     par_end = (\<lambda>b. if b = 0 then Some ''0x80005000'' else None),
     par_pools = (\<lambda>b. if b = 0 then [''2x4096''] else []), par_use_heap = True\<rparr>"

definition demo_kernel :: kernel where
  "demo_kernel = \<lparr>chrdev_ok = True, request_mem_region = (\<lambda>_ _. True), ioremap = (\<lambda>_ _. 0xD0000000),
     kmalloc_buffer = (\<lambda>_ _ _. Some \<lparr>pb_id = 0, physp = 0, flags = 0, kvirtp = 0, pb_size = 0, users = []\<rparr>),
     kmm = \<lparr>PAGE_OFFSET = 0xC0000000, virt_to_phys = (\<lambda>a. a), find_vma = (\<lambda>_. None), user_page = (\<lambda>_. None)\<rparr>,
     old_memory = (\<lambda>_. \<lparr>hdr_next = 0, hdr_size = 0\<rparr>)\<rparr>"

lemma demo_region: "region demo_params 0 = (0x80000000, 0x5000)" "present demo_params 0" "\<not> present demo_params 1"
  by (simp_all add: region_def present_def demo_params_def simple_strtol_def simple_strtoul_def digit_value_def
      PAGE_ALIGN_def PAGE_SIZE_def)

lemma demo_pool: "parse_pool ''2x4096'' = Done (2, 4096)"
  by (simp add: parse_pool_def strsep_def simple_strtol_def simple_strtoul_def digit_value_def)

lemma demo_sound: "kernel_sound demo_params demo_kernel"
  using demo_region by (auto simp: kernel_sound_def demo_kernel_def less_NBLOCKS)

lemma demo_sizes: "pool_sizes_ok demo_params"
  by (auto simp: pool_sizes_ok_def demo_pool demo_params_def PAGE_ALIGN_def PAGE_SIZE_def)

lemma demo_fits: "block_fits demo_params demo_kernel 0"
  using demo_region demo_sizes
  by (simp add: block_fits_def region_ok_def pool_need_def demo_pool demo_kernel_def MAX_POOLS_def)
     (simp add: demo_params_def pool_need_def demo_pool PAGE_ALIGN_def PAGE_SIZE_def)

text \<open>C9: Loading succeeds whenever the parameters and the kernel allow it: the character device
  number, the memory regions and the mappings are granted, \<open>kmalloc\<close> succeeds, the pool
  parameters parse, the pools fit into their blocks and leave the heap its place in the array of
  pools.\<close>

theorem cmem_init_succeeds:
  assumes "chrdev_ok k" and "\<forall>b<NBLOCKS. present p b \<longrightarrow> block_fits p k b"
    and "\<forall>b<NBLOCKS. length (par_pools p b) \<le> MAX_POOLS" and "present p 0 \<or> par_pools p 0 = []"
    and "\<forall>b j idx. kmalloc_buffer k b idx j \<noteq> None" and "kernel_sound p k"
  shows "fst (cmem_init p k) = Done ()"
proof -
  have "\<exists>m'. init_blocks p k [0..<NBLOCKS] ((loaded p k)\<lparr>held := Chrdev # held (loaded p k)\<rparr>) = (Done (), m')"
    using init_blocks_succeed [OF assms(2,5,4,6) loading_start] by simp
  then show ?thesis
    using assms(1,3) by (auto simp: cmem_init_def Let_def less_NBLOCKS)
qed

lemma demo_hyps:
  "\<forall>b<NBLOCKS. present demo_params b \<longrightarrow> block_fits demo_params demo_kernel b"
  "\<forall>b<NBLOCKS. length (par_pools demo_params b) \<le> MAX_POOLS" "chrdev_ok demo_kernel"
  "\<forall>b j idx. kmalloc_buffer demo_kernel b idx j \<noteq> None"
  using demo_fits demo_region(3) by (auto simp: less_NBLOCKS MAX_POOLS_def demo_kernel_def)
     (simp_all add: demo_params_def)

theorem cmem_init_succeeds_witness: "fst (cmem_init demo_params demo_kernel) = Done ()"
  using demo_hyps demo_region(2) demo_sound by (intro cmem_init_succeeds) auto

lemma demo_loads: "\<exists>m. cmem_init demo_params demo_kernel = (Done (), m)"
proof -
  have "\<exists>m'. init_blocks demo_params demo_kernel [0..<NBLOCKS]
      ((loaded demo_params demo_kernel)\<lparr>held := Chrdev # held (loaded demo_params demo_kernel)\<rparr>) = (Done (), m')"
    using demo_region(2) by (intro init_blocks_succeed [OF demo_hyps(1,4) _ demo_sound loading_start]) simp_all
  then show ?thesis
    using demo_hyps(2,3) by (auto simp: cmem_init_def Let_def less_NBLOCKS)
qed

lemma demo_nblocks: "cmem_init demo_params demo_kernel = (Done (), m) \<Longrightarrow> nblocks (drv m) = 1"
proof -
  assume "cmem_init demo_params demo_kernel = (Done (), m)"
  from cmem_init_loading [OF this demo_sound demo_sizes]
  obtain b1 where b1: "b1 \<le> NBLOCKS" "loading demo_params demo_kernel b1 m" "b1 < NBLOCKS \<longrightarrow> \<not> present demo_params b1"
    by blast
  have "b1 \<noteq> 2" using b1(2) demo_region(3) by (auto simp: loading_def)
  moreover have "b1 \<noteq> 0" using b1(3) demo_region(2) by (cases "b1 = 0") (simp_all add: NBLOCKS_def)
  ultimately have "b1 = 1" using b1(1) by (auto simp: NBLOCKS_def)
  then show ?thesis using b1(2) by (simp add: loading_def)
qed

text \<open>C6: After a successful load every block in use is partitioned: from its end down, in the order
  of their allocation, lie the buffers of its pools, without gap or overlap, then the heap, one
  free range from the start of the block up, in the model's heap order; every list of a pool is
  initialised, all pool buffers are free and have no user.\<close>

theorem cmem_init_partitions_blocks:
  assumes "cmem_init p k = (Done (), m)" and "kernel_sound p k" and "pool_sizes_ok p"
    and "of_nat b < nblocks (drv m)" and "b < NBLOCKS"
  shows "stacked (unat (block_end (drv m) b)) (pool_entries (drv m) b (length (par_pools p b)))
       (unat (block_start (drv m) b) + unat (heap_size (drv m) b))
     \<and> (heap_size (drv m) b \<noteq> 0 \<longrightarrow>
          heap_accounts b (heap_lo (drv m) b) (heap_hi (drv m) b) (store (drv m)) []
          \<and> heap_virtp (drv m) b = block_virtp (drv m) b)
     \<and> (\<forall>i<num_pools (drv m) b. ready m b i \<and> fresh_pool (p_objs (drv m) b i))"
proof -
  obtain b1 where l: "loading p k b1 m" "b1 \<le> NBLOCKS" using cmem_init_loading [OF assms(1-3)] by blast
  have "unat (of_nat x :: u32) = x" if "x \<le> NBLOCKS" for x
    using that by (simp add: NBLOCKS_def unat_of_nat take_bit_nat_eq_self)
  then have "b < b1"
    using assms(4,5) l by (auto simp: loading_def word_less_nat_alt)
  then show ?thesis using l(1) assms(5) by (auto simp: loading_def block_ready_def split: if_splits)
qed

theorem cmem_init_partitions_blocks_witness:
  "\<exists>m. cmem_init demo_params demo_kernel = (Done (), m)
     \<and> stacked (unat (block_end (drv m) 0)) (pool_entries (drv m) 0 1)
          (unat (block_start (drv m) 0) + unat (heap_size (drv m) 0))"
proof -
  obtain m where m: "cmem_init demo_params demo_kernel = (Done (), m)" using demo_loads by blast
  have "length (par_pools demo_params 0) = 1" by (simp add: demo_params_def)
  then show ?thesis
    using m cmem_init_partitions_blocks [OF m demo_sound demo_sizes, of 0] demo_nblocks [OF m]
    by (intro exI [of _ m]) (auto simp: NBLOCKS_def)
qed

lemma ready_inv:
  assumes "\<forall>b<NBLOCKS. block_ready st b" and "\<forall>b<NBLOCKS. \<forall>c<NBLOCKS. b \<noteq> c \<longrightarrow>
      unat (block_virtend st b) \<le> unat (block_virtp st c) \<or> unat (block_virtend st c) \<le> unat (block_virtp st b)"
  shows "cmem_inv st"
proof -
  have r: "(\<forall>i<num_pools st b. fresh_pool (p_objs st b i)) \<and> (heap_pool st b \<noteq> -1 \<longrightarrow>
      heap_pool st b = int (npools st b) \<and> heap_virtp st b = block_virtp st b
      \<and> heap_hi st b \<le> unat (block_virtend st b)
      \<and> heap_accounts b (heap_lo st b) (heap_hi st b) (store st) [])" if "b < NBLOCKS" for b
    using assms(1) that by (auto simp: block_ready_def heap_hi_def split: if_splits)
  have "heap_inv st b" if b: "b < NBLOCKS" for b
    unfolding heap_inv_def
  proof
    assume h: "heap_pool st b \<noteq> -1"
    then have "fresh_pool (p_objs st b (npools st b))" using r [OF b] by (simp add: num_pools_def)
    then show "heap_pool st b = int (npools st b)
        \<and> heap_accounts b (heap_lo st b) (heap_hi st b) (store st) (buffers_of (p_objs st b (npools st b)))"
      using r [OF b] h by (simp add: fresh_pool_def buffers_of_def)
  qed
  moreover have "pool_inv (p_objs st b i)" if "b < NBLOCKS" "i < num_pools st b" for b i
    using r [OF that(1)] that(2) by (auto simp: pool_inv_def fresh_pool_def)
  moreover have "arenas_apart st"
    unfolding arenas_apart_def
  proof (intro allI impI)
    fix b c assume *: "b < NBLOCKS" "c < NBLOCKS" "b \<noteq> c" "heap_pool st b \<noteq> -1" "heap_pool st c \<noteq> -1"
    have hi: "heap_hi st x \<le> unat (block_virtend st x)" "heap_lo st x = unat (block_virtp st x)"
      if "x < NBLOCKS" "heap_pool st x \<noteq> -1" for x
      using r [OF that(1)] that(2) by (simp_all add: heap_lo_def)
    have "unat (block_virtend st b) \<le> unat (block_virtp st c) \<or> unat (block_virtend st c) \<le> unat (block_virtp st b)"
      using assms(2) * by blast
    then have "heap_hi st b \<le> heap_lo st c \<or> heap_hi st c \<le> heap_lo st b"
      using hi [OF *(1,4)] hi [OF *(2,5)] by linarith
    then show "{heap_lo st b..<heap_hi st b} \<inter> {heap_lo st c..<heap_hi st c} = {}" by auto
  qed
  ultimately show ?thesis by (simp add: cmem_inv_def)
qed

lemma loading_inv:
  assumes l: "loading p k b1 m" and ks: "kernel_sound p k" and b1: "b1 \<le> NBLOCKS"
  shows "cmem_inv (drv m)"
proof (rule ready_inv)
  show "\<forall>b<NBLOCKS. block_ready (drv m) b" using l by (simp add: loading_def)
  note at = loading_block [OF l ks _ b1]
  have apart: "unat (block_virtend (drv m) b) \<le> unat (block_virtp (drv m) c) \<or>
      unat (block_virtend (drv m) c) \<le> unat (block_virtp (drv m) b)" if "b < c" "c < b1" for b c
  proof -
    have b: "b < b1" and c: "c < NBLOCKS" using that b1 by simp_all
    show ?thesis
      using kernel_sound_apart [OF ks that(1) c prod.collapse [symmetric] prod.collapse [symmetric]
          at(1) [OF b] at(1) [OF that(2)] at(2) [OF b] at(2) [OF that(2)]]
        at(3,5) [OF b] at(3,5) [OF that(2)] by simp
  qed
  have out: "block_virtend (drv m) b = 0" if "b1 \<le> b" for b using l that by (simp add: loading_def)
  show "\<forall>b<NBLOCKS. \<forall>c<NBLOCKS. b \<noteq> c \<longrightarrow>
      unat (block_virtend (drv m) b) \<le> unat (block_virtp (drv m) c)
      \<or> unat (block_virtend (drv m) c) \<le> unat (block_virtp (drv m) b)"
  proof (intro allI impI)
    fix b c assume "b < NBLOCKS" "c < NBLOCKS" and ne: "b \<noteq> c"
    consider "b1 \<le> b" | "b1 \<le> c" | "b < c" "c < b1" | "c < b" "b < b1" using ne by linarith
    then show "unat (block_virtend (drv m) b) \<le> unat (block_virtp (drv m) c)
      \<or> unat (block_virtend (drv m) c) \<le> unat (block_virtp (drv m) b)"
      using out apart by cases auto
  qed
qed

lemma run_from_load:
  assumes "cmem_init p k = (Done (), m)" and "kernel_sound p k" and "pool_sizes_ok p"
    and "cmem_reach (drv m) st"
  shows "cmem_inv (drv m)" and "cmem_inv st" and "pools_kept (drv m) st" and "layout st = layout (drv m)"
proof -
  obtain b1 where "loading p k b1 m" "b1 \<le> NBLOCKS" using cmem_init_loading [OF assms(1-3)] by blast
  then show i: "cmem_inv (drv m)" using loading_inv assms(2) by blast
  then show "cmem_inv st" using inv_reach assms(4) by blast
  show "pools_kept (drv m) st" by (rule kept_reach [OF assms(4) i])
  show "layout st = layout (drv m)" by (rule layout_reach [OF assms(4)])
qed

text \<open>C5: From a successful load on, whatever open, ioctl and close calls follow, the invariant of the
  driver holds, and the buffers on the two lists of each pool are exactly the ones the load cut off
  for it.\<close>

theorem cmem_runs_from_load:
  assumes "cmem_init p k = (Done (), m)" and "kernel_sound p k" and "pool_sizes_ok p"
    and "cmem_reach (drv m) st"
  shows "cmem_inv st \<and> (\<forall>b<NBLOCKS. \<forall>i<length (par_pools p b).
           pool_addresses (p_objs st b i) = mset (map physp (freelist (p_objs (drv m) b i))))"
proof -
  obtain b1 where l: "loading p k b1 m" "b1 \<le> NBLOCKS" using cmem_init_loading [OF assms(1-3)] by blast
  have "pool_addresses (p_objs st b i) = mset (map physp (freelist (p_objs (drv m) b i)))"
    if b: "b < NBLOCKS" "i < length (par_pools p b)" for b i
  proof -
    have i: "i < npools (drv m) b" using l(1) b(2) by (simp add: loading_def)
    have "block_ready (drv m) b" using l(1) b(1) by (simp add: loading_def)
    then have "busylist (p_objs (drv m) b i) = []"
      using i by (auto simp: block_ready_def fresh_pool_def num_pools_def)
    then show ?thesis
      using run_from_load(3) [OF assms] b(1) i by (simp add: pools_kept_def pool_addresses_def)
  qed
  then show ?thesis using run_from_load(2) [OF assms] by blast
qed

theorem cmem_runs_from_load_witness:
  "\<exists>m. cmem_init demo_params demo_kernel = (Done (), m) \<and> cmem_inv (drv m)"
proof -
  obtain m where m: "cmem_init demo_params demo_kernel = (Done (), m)" using demo_loads by blast
  from cmem_runs_from_load [OF m demo_sound demo_sizes reach_start] m show ?thesis by blast
qed

text \<open>C7: Unloading the module after any run of calls frees every entry of every list once, busy
  ones included, and gives back all the module holds, when every block that has pools also has
  memory. Pools given for a block without memory make it follow a null pointer: their lists were
  never initialised.\<close>

theorem cmem_exit_after_run:
  assumes "cmem_init p k = (Done (), m)" and "kernel_sound p k" and "pool_sizes_ok p"
    and "cmem_reach (drv m) st"
  shows "if \<exists>b<NBLOCKS. nblocks (drv m) \<le> of_nat b \<and> par_pools p b \<noteq> []
         then fst (cmem_exit (m\<lparr>drv := st\<rparr>)) = Crash Null_deref
         else fst (cmem_exit (m\<lparr>drv := st\<rparr>)) = Done (concat (map (entries_of st) (all_pools st)))
           \<and> held (snd (cmem_exit (m\<lparr>drv := st\<rparr>))) = []"
proof -
  obtain b1 where l: "loading p k b1 m" "b1 \<le> NBLOCKS" using cmem_init_loading [OF assms(1-3)] by blast
  note lay = run_from_load(4) [OF assms]
  have np: "num_pools st = num_pools (drv m)"
    using lay by (auto simp: layout_def num_pools_def fun_eq_iff)
  have le: "(of_nat b1 :: u32) \<le> of_nat b \<longleftrightarrow> b1 \<le> b" if "b < NBLOCKS" for b
    using that l(2) by (auto simp: word_le_nat_alt unat_of_nat take_bit_nat_eq_self NBLOCKS_def)
  have each: "(\<forall>i<num_pools (drv m) b. ready m b i) \<longleftrightarrow> \<not> (nblocks (drv m) \<le> of_nat b \<and> par_pools p b \<noteq> [])"
    if b: "b < NBLOCKS" for b
  proof (cases "b1 \<le> b")
    case True
    then have "num_pools (drv m) b = length (par_pools p b)" "\<forall>i. \<not> ready m b i"
      using l(1) by (simp_all add: loading_def num_pools_def)
    then show ?thesis using True le [OF b] l(1) by (cases "par_pools p b") (auto simp: loading_def)
  next
    case False
    then show ?thesis using le [OF b] l(1) by (simp add: loading_def)
  qed
  have ar: "all_ready (m\<lparr>drv := st\<rparr>) \<longleftrightarrow> \<not> (\<exists>b<NBLOCKS. nblocks (drv m) \<le> of_nat b \<and> par_pools p b \<noteq> [])"
    unfolding all_ready_def using each by (simp add: np) blast
  have "accounted m"
  proof -
    have "init_blocks p k [0..<NBLOCKS] ((loaded p k)\<lparr>held := Chrdev # held (loaded p k)\<rparr>) = (Done (), m)"
      using assms(1) by (auto simp: cmem_init_def Let_def split: if_splits prod.splits res.splits)
    then show ?thesis by (rule cmem_init_accounted)
  qed
  then have "accounted (m\<lparr>drv := st\<rparr>)"
    using lay accounted_cong [of "m\<lparr>drv := st\<rparr>" m] by (simp add: layout_def)
  then show ?thesis
    using ar cmem_exit_result(1) [of "m\<lparr>drv := st\<rparr>"] cmem_exit_releases [of "m\<lparr>drv := st\<rparr>"] by auto
qed

theorem cmem_exit_after_run_witness:
  "\<exists>m. cmem_init demo_params demo_kernel = (Done (), m) \<and> held (snd (cmem_exit m)) = []"
proof -
  obtain m where m: "cmem_init demo_params demo_kernel = (Done (), m)" using demo_loads by blast
  have "\<not> (\<exists>b<NBLOCKS. nblocks (drv m) \<le> of_nat b \<and> par_pools demo_params b \<noteq> [])"
    using demo_nblocks [OF m] by (auto simp: demo_params_def less_NBLOCKS)
  with cmem_exit_after_run [OF m demo_sound demo_sizes reach_start] m show ?thesis by auto
qed



end
