(* ===== verification/CmemSeq.thy ===== *)
theory CmemSeq
  imports CmemProps
begin

text \<open>
  The listing of the pools in \<open>/proc/cmem\<close> (\<open>cmemk/cmemk.c\<close>): \<open>find_buffer_n\<close> walks the busy
  and the free list of every pool to the n-th buffer and notes in the private word of the file
  which banners are due; \<open>cmem_seq_start\<close> and \<open>cmem_seq_next\<close> iterate over the positions and
  \<open>cmem_seq_show\<close> prints one buffer. A line is modelled by its parts; \<open>DriverText\<close> has its text.
\<close>

section \<open>The search\<close>

definition SHOW_BUSY_BANNER :: u32 where "SHOW_BUSY_BANNER = 1"
definition SHOW_PREV_FREE_BANNER :: u32 where "SHOW_PREV_FREE_BANNER = 2"
definition SHOW_LAST_FREE_BANNER :: u32 where "SHOW_LAST_FREE_BANNER = 4"
definition BUSY_ENTRY :: u32 where "BUSY_ENTRY = 8"
definition FREE_ENTRY :: u32 where "FREE_ENTRY = 16"

datatype which = Busy | Free

text \<open>A list element: block, pool, list and place on it. The private word goes with it.\<close>

record place =
  pl_block :: nat
  pl_pool :: nat
  pl_list :: which
  pl_index :: nat

fun walk_list :: "nat \<Rightarrow> nat \<Rightarrow> nat \<Rightarrow> 'a list \<Rightarrow> nat option \<times> nat" where
  "walk_list n cnt k [] = (None, cnt)"
| "walk_list n cnt k (x # xs) = (if cnt = n then (Some k, cnt) else walk_list n (cnt + 1) (k + 1) xs)"

definition banner_flags :: "cmem \<Rightarrow> nat \<Rightarrow> nat \<Rightarrow> bool \<Rightarrow> bool \<Rightarrow> u32" where
  "banner_flags st bi cnt busy_empty free_empty =
     (if busy_empty then SHOW_BUSY_BANNER else 0)
     OR (if free_empty then SHOW_PREV_FREE_BANNER else 0)
     OR (if of_nat cnt = total_num_buffers st bi - 1 then SHOW_LAST_FREE_BANNER else 0)"

text \<open>The walk over the pools; \<open>free_empty\<close> keeps its value from pool to pool.\<close>

fun find_from :: "cmem \<Rightarrow> nat \<Rightarrow> nat \<Rightarrow> bool \<Rightarrow> (nat \<times> nat) list \<Rightarrow> (place \<times> u32) option" where
  "find_from st n cnt free_empty [] = None"
| "find_from st n cnt free_empty ((bi, i) # ps) =
     (let busy = busylist (p_objs st bi i); busy_empty = (busy = [])
      in case walk_list n cnt 0 busy of
           (Some k, cnt) \<Rightarrow>
             Some (\<lparr>pl_block = bi, pl_pool = i, pl_list = Busy, pl_index = k\<rparr>,
               BUSY_ENTRY OR banner_flags st bi cnt busy_empty free_empty)
         | (None, cnt) \<Rightarrow>
             let free = freelist (p_objs st bi i);
                 free_empty = \<not> (free \<noteq> [] \<and> (i = 0 \<or> freelist (p_objs st bi (i - 1)) \<noteq> []))
             in case walk_list n cnt 0 free of
                  (Some k, cnt) \<Rightarrow>
                    Some (\<lparr>pl_block = bi, pl_pool = i, pl_list = Free, pl_index = k\<rparr>,
                      FREE_ENTRY OR banner_flags st bi cnt busy_empty free_empty)
                | (None, cnt) \<Rightarrow> find_from st n cnt free_empty ps)"

definition listed_pools :: "cmem \<Rightarrow> (nat \<times> nat) list" where
  "listed_pools st = concat (map (\<lambda>bi. map (Pair bi) [0..<npools st bi]) [0..<NBLOCKS])"

definition find_buffer_n :: "cmem \<Rightarrow> nat \<Rightarrow> (place \<times> u32) option" where
  "find_buffer_n st n = find_from st n 0 False (listed_pools st)"

section \<open>The iteration\<close>

text \<open>The mutex of the driver, taken by a start and given back by a stop.\<close>

record seq_state =
  seq_drv :: cmem
  seq_locked :: bool

definition total_num :: "cmem \<Rightarrow> int" where
  "total_num st = sint (total_num_buffers st 0 + total_num_buffers st 1)"

definition cmem_seq_start :: "bool \<Rightarrow> int \<Rightarrow> seq_state \<Rightarrow> (place \<times> u32) option res \<times> seq_state" where
  "cmem_seq_start lock pos s =
     (if \<not> lock then (Fail ERESTARTSYS, s)
      else
        let s = s\<lparr>seq_locked := True\<rparr>
        in if pos \<ge> total_num (seq_drv s) then (Done None, s)
           else (Done (find_buffer_n (seq_drv s) (nat pos)), s))"

definition cmem_seq_next :: "int \<Rightarrow> cmem \<Rightarrow> (place \<times> u32) option \<times> int" where
  "cmem_seq_next pos st =
     (let pos = pos + 1
      in if pos \<ge> total_num st then (None, pos) else (find_buffer_n st (nat pos), pos))"

text \<open>Unlocking a mutex that is not held is an error of the kernel.\<close>

definition cmem_seq_stop :: "seq_state \<Rightarrow> unit res \<times> seq_state" where
  "cmem_seq_stop s =
     (if seq_locked s then (Done (), s\<lparr>seq_locked := False\<rparr>) else (Crash Not_locked, s))"

section \<open>One line\<close>

datatype line =
    Busy_banner nat nat u32 u32 u32
  | Free_banner int
  | Entry int u32 "bool option"

definition show_busy_banner :: "cmem \<Rightarrow> nat \<Rightarrow> nat \<Rightarrow> line" where
  "show_busy_banner st bi n =
     Busy_banner bi n (numbufs (p_objs st bi n)) (po_size (p_objs st bi n)) (reqsize (p_objs st bi n))"

definition show_free_banner :: "int \<Rightarrow> line" where
  "show_free_banner n = Free_banner n"

definition first_of :: "place \<Rightarrow> nat \<Rightarrow> nat \<Rightarrow> which \<Rightarrow> bool" where
  "first_of v bi i l \<longleftrightarrow> v = \<lparr>pl_block = bi, pl_pool = i, pl_list = l, pl_index = 0\<rparr>"

fun pool_banners :: "cmem \<Rightarrow> u32 \<Rightarrow> place \<Rightarrow> nat \<Rightarrow> nat list \<Rightarrow> line list" where
  "pool_banners st private v bi [] = []"
| "pool_banners st private v bi (i # is) =
     (let prev = (if private AND SHOW_PREV_FREE_BANNER \<noteq> 0 then [show_free_banner (int i - 1)] else [])
      in if first_of v bi i Busy then prev @ [show_busy_banner st bi i]
         else if first_of v bi i Free then
           prev @ (if private AND SHOW_BUSY_BANNER \<noteq> 0 then [show_busy_banner st bi i] else [])
             @ [show_free_banner (int i)]
         else pool_banners st private v bi is)"

definition buffer_at :: "cmem \<Rightarrow> place \<Rightarrow> pool_buffer" where
  "buffer_at st v =
     (let p = p_objs st (pl_block v) (pl_pool v)
      in case pl_list v of Busy \<Rightarrow> busylist p ! pl_index v | Free \<Rightarrow> freelist p ! pl_index v)"

text \<open>The lines written, and whether the call succeeds; \<open>fits\<close> tells whether the buffer of the
  file took the last line. After the loop over the blocks the block number is \<open>NBLOCKS\<close>.\<close>

definition cmem_seq_show :: "cmem \<Rightarrow> bool \<Rightarrow> place \<times> u32 \<Rightarrow> line list \<times> bool" where
  "cmem_seq_show st fits = (\<lambda>(v, private).
     let banners = concat (map (\<lambda>bi. pool_banners st private v bi [0..<npools st bi]) [0..<NBLOCKS]);
         entry = buffer_at st v;
         attr = (if private AND BUSY_ENTRY \<noteq> 0 then Some (flags entry AND CMEM_CACHED \<noteq> 0) else None);
         bi = NBLOCKS;
         out = banners @ [Entry (pb_id entry) (physp entry) attr]
     in if \<not> fits then (out, False)
        else if private AND BUSY_ENTRY \<noteq> 0 \<and> private AND SHOW_LAST_FREE_BANNER \<noteq> 0 then
          if bi < NBLOCKS then (out @ [show_free_banner (int (npools st bi) - 1)], True)
          else (out, False)
        else (out, True))"

section \<open>What is listed\<close>

definition pool_places :: "cmem \<Rightarrow> nat \<times> nat \<Rightarrow> place list" where
  "pool_places st = (\<lambda>(bi, i).
     map (\<lambda>k. \<lparr>pl_block = bi, pl_pool = i, pl_list = Busy, pl_index = k\<rparr>) [0..<length (busylist (p_objs st bi i))]
     @ map (\<lambda>k. \<lparr>pl_block = bi, pl_pool = i, pl_list = Free, pl_index = k\<rparr>) [0..<length (freelist (p_objs st bi i))])"

definition seq_places :: "cmem \<Rightarrow> place list" where
  "seq_places st = concat (map (pool_places st) (listed_pools st))"

lemma walk_list_result:
  "c \<le> n \<Longrightarrow> walk_list n c k xs =
     (if n - c < length xs then (Some (k + (n - c)), n) else (None, c + length xs))"
  by (induction xs arbitrary: c k) (auto simp: Suc_diff_le le_Suc_eq)

lemma find_from_result:
  assumes "c \<le> n"
  shows "case find_from st n c fe ps of
      None \<Rightarrow> length (concat (map (pool_places st) ps)) \<le> n - c
    | Some (v, fl) \<Rightarrow> n - c < length (concat (map (pool_places st) ps))
        \<and> v = concat (map (pool_places st) ps) ! (n - c)
        \<and> (\<exists>be fe'. fl = (case pl_list v of Busy \<Rightarrow> BUSY_ENTRY | Free \<Rightarrow> FREE_ENTRY)
              OR banner_flags st (pl_block v) n be fe')"
  using assms
proof (induction ps arbitrary: c fe)
  case (Cons q ps)
  obtain bi i where q: "q = (bi, i)" by fastforce
  let ?b = "busylist (p_objs st bi i)" and ?f = "freelist (p_objs st bi i)"
  let ?rest = "concat (map (pool_places st) ps)"
  let ?pb = "\<lambda>k. \<lparr>pl_block = bi, pl_pool = i, pl_list = Busy, pl_index = k\<rparr>"
  let ?pf = "\<lambda>k. \<lparr>pl_block = bi, pl_pool = i, pl_list = Free, pl_index = k\<rparr>"
  let ?all = "map ?pb [0..<length ?b] @ map ?pf [0..<length ?f] @ ?rest"
  have all: "concat (map (pool_places st) (q # ps)) = ?all"
    by (simp add: q pool_places_def)
  consider (busy) "n - c < length ?b" | (free) "length ?b \<le> n - c" "n - c < length ?b + length ?f"
    | (later) "length ?b + length ?f \<le> n - c" by linarith
  then show ?case
  proof cases
    case busy
    then have "?all ! (n - c) = ?pb (n - c)" by (simp add: nth_append)
    with busy Cons.prems show ?thesis
      unfolding all by (auto simp: q walk_list_result Let_def)
  next
    case free
    have "?all ! (n - c) = ?pf (n - c - length ?b)"
      using free by (simp add: nth_append)
    with free Cons.prems show ?thesis
      unfolding all by (auto simp: q walk_list_result Let_def)
  next
    case later
    have le: "c + length ?b + length ?f \<le> n" using later Cons.prems by linarith
    have "?all ! (n - c) = ?rest ! (n - (c + length ?b + length ?f))"
      using later le by (simp add: nth_append diff_diff_eq add.assoc [symmetric])
    moreover have "n - (c + length ?b + length ?f) < length ?rest \<longleftrightarrow> n - c < length ?all"
      using later Cons.prems by simp arith
    moreover have "find_from st n c fe (q # ps) = find_from st n (c + length ?b + length ?f)
        (\<not> (?f \<noteq> [] \<and> (i = 0 \<or> freelist (p_objs st bi (i - 1)) \<noteq> []))) ps"
    proof -
      have n: "\<not> n - c < length ?b" "\<not> n - (c + length ?b) < length ?f" "c + length ?b \<le> n"
        using later Cons.prems by linarith+
      show ?thesis using n Cons.prems by (simp add: q walk_list_result Let_def)
    qed
    ultimately show ?thesis
      using Cons.IH [OF le, of "\<not> (?f \<noteq> [] \<and> (i = 0 \<or> freelist (p_objs st bi (i - 1)) \<noteq> []))"]
      unfolding all by (auto split: option.splits prod.splits simp: not_less)
  qed
qed simp

lemma find_buffer_n_result:
  "map_option fst (find_buffer_n st n) = (if n < length (seq_places st) then Some (seq_places st ! n) else None)"
  using find_from_result [where c = 0 and n = n and st = st and fe = False and ps = "listed_pools st"]
  by (auto simp: find_buffer_n_def seq_places_def split: option.splits prod.splits)

text \<open>The places a reader of the whole file sees: the start at 0, then one next after another.\<close>

fun seq_rest :: "nat \<Rightarrow> cmem \<Rightarrow> int \<Rightarrow> place list" where
  "seq_rest 0 st pos = []"
| "seq_rest (Suc fuel) st pos =
     (case cmem_seq_next pos st of
        (Some (v, _), pos) \<Rightarrow> v # seq_rest fuel st pos
      | (None, _) \<Rightarrow> [])"

definition seq_all :: "nat \<Rightarrow> seq_state \<Rightarrow> place list" where
  "seq_all fuel s =
     (case fst (cmem_seq_start True 0 s) of
        Done (Some (v, _)) \<Rightarrow> v # seq_rest fuel (seq_drv s) 0
      | _ \<Rightarrow> [])"

lemma seq_rest_result:
  assumes "total_num st = int (length (seq_places st))" and "k < length (seq_places st)"
    and "length (seq_places st) \<le> k + fuel"
  shows "seq_rest fuel st (int k) = drop (k + 1) (seq_places st)"
  using assms(2,3)
proof (induction fuel arbitrary: k)
  case (Suc fuel)
  show ?case
  proof (cases "k + 1 < length (seq_places st)")
    case True
    then obtain v fl where v: "find_buffer_n st (k + 1) = Some (v, fl)" "v = seq_places st ! (k + 1)"
      using find_buffer_n_result [of st "k + 1"] by (auto simp: map_option_eq_Some)
    have "nat (int k + 1) = k + 1" by simp
    then have "cmem_seq_next (int k) st = (Some (v, fl), int (k + 1))"
      using v True assms(1) by (simp add: cmem_seq_next_def Let_def)
    then have "seq_rest (Suc fuel) st (int k) = v # seq_rest fuel st (int (k + 1))" by simp
    also have "\<dots> = v # drop (k + 1 + 1) (seq_places st)" using Suc.IH [OF True] Suc.prems by simp
    also have "\<dots> = drop (k + 1) (seq_places st)" using v(2) Cons_nth_drop_Suc [OF True] by simp
    finally show ?thesis .
  next
    case False
    then show ?thesis using Suc.prems assms(1) by (simp add: cmem_seq_next_def Let_def)
  qed
qed simp


lemma entry_flags [simp]:
  "BUSY_ENTRY \<noteq> 0"
  "(BUSY_ENTRY OR banner_flags st bi c be fe) AND BUSY_ENTRY \<noteq> 0"
  "(FREE_ENTRY OR banner_flags st bi c be fe) AND BUSY_ENTRY = 0"
  "(BUSY_ENTRY OR banner_flags st bi c be fe) AND SHOW_LAST_FREE_BANNER \<noteq> 0
     \<longleftrightarrow> of_nat c = total_num_buffers st bi - 1"
  by (simp_all add: banner_flags_def BUSY_ENTRY_def FREE_ENTRY_def SHOW_LAST_FREE_BANNER_def
      SHOW_BUSY_BANNER_def SHOW_PREV_FREE_BANNER_def bit.conj_disj_distrib2)

text \<open>Showing a buffer succeeds when its line fits into the buffer of the file, but never for the
  busy buffer whose place in the listing is the last of its block's counter: the code wants to
  print one more banner there and gives up, because the loop variable it tests is already
  beyond the last block. The read of the file then ends with an error.\<close>

theorem cmem_seq_show_result:
  assumes "find_buffer_n st n = Some (v, private)"
  shows "snd (cmem_seq_show st fits (v, private))
     \<longleftrightarrow> fits \<and> \<not> (pl_list v = Busy \<and> of_nat n = total_num_buffers st (pl_block v) - 1)"
proof -
  obtain be fe where p: "private = (case pl_list v of Busy \<Rightarrow> BUSY_ENTRY | Free \<Rightarrow> FREE_ENTRY)
              OR banner_flags st (pl_block v) n be fe"
    using find_from_result [where c = 0 and n = n and st = st and fe = False and ps = "listed_pools st"] assms
    by (auto simp: find_buffer_n_def)
  show ?thesis
    by (cases "pl_list v") (simp_all add: p cmem_seq_show_def Let_def)
qed

definition listed_cmem :: cmem where
  "listed_cmem = demo_cmem\<lparr>total_num_buffers := (\<lambda>_. 0)(0 := 2)\<rparr>"

lemma listed_facts:
  "total_num listed_cmem = 2" "find_buffer_n listed_cmem 0 = Some (\<lparr>pl_block = 0, pl_pool = 0, pl_list = Busy, pl_index = 0\<rparr>, 8)"
  "seq_places listed_cmem = [\<lparr>pl_block = 0, pl_pool = 0, pl_list = Busy, pl_index = 0\<rparr>,
     \<lparr>pl_block = 0, pl_pool = 0, pl_list = Free, pl_index = 0\<rparr>]"
  by (simp_all add: listed_cmem_def demo_cmem_def demo_pool_def total_num_def seq_places_def pool_places_def
      listed_pools_def NBLOCKS_def numeral_2_eq_2 find_buffer_n_def BUSY_ENTRY_def banner_flags_def)


theorem cmem_seq_show_result_witness:
  "snd (cmem_seq_show listed_cmem True (\<lparr>pl_block = 0, pl_pool = 0, pl_list = Busy, pl_index = 0\<rparr>, 8))"
  using cmem_seq_show_result [OF listed_facts(2), of True] by (simp add: listed_cmem_def)

end
