(* ===== verification/CmemCache.thy ===== *)
theory CmemCache
  imports CmemProps
begin

text \<open>
  The cache maintenance routines of the CMEM module for kernels before 2.6.34, which do not export
  their own (\<open>cmemk/cmemk.c\<close>, the assembly at its end): invalidating, cleaning and flushing the data
  cache of the ARM926 over a range of addresses, and what the CACHE commands do with them.
\<close>

section \<open>The data cache\<close>

text \<open>The memory behind the virtual addresses of a program, as a device sees it, and the lines of 32 bytes the
  cache holds. A line is named by its first address; a dirty line was written to since it was filled.\<close>

record dcache =
  ram :: "u32 \<Rightarrow> u8"
  cached :: "u32 \<Rightarrow> bool"
  dirty :: "u32 \<Rightarrow> bool"
  line_data :: "u32 \<Rightarrow> u8"

definition CACHE_DLINESIZE :: u32 where
  "CACHE_DLINESIZE = 32"

definition line_of :: "u32 \<Rightarrow> u32" where
  "line_of a = a AND NOT (CACHE_DLINESIZE - 1)"

text \<open>What the processor reads.\<close>

definition cpu_byte :: "dcache \<Rightarrow> u32 \<Rightarrow> u8" where
  "cpu_byte s a = (if cached s (line_of a) then line_data s a else ram s a)"

text \<open>The operations of the coprocessor on the entry of an address: \<open>c7, c10, 1\<close> writes a dirty line back,
  \<open>c7, c6, 1\<close> drops a line, \<open>c7, c14, 1\<close> does both.\<close>

definition clean_entry :: "u32 \<Rightarrow> dcache \<Rightarrow> dcache" where
  "clean_entry a s =
     (let l = line_of a
      in if cached s l \<and> dirty s l
         then s\<lparr>ram := (\<lambda>b. if line_of b = l then line_data s b else ram s b), dirty := (dirty s)(l := False)\<rparr>
         else s)"

definition inv_entry :: "u32 \<Rightarrow> dcache \<Rightarrow> dcache" where
  "inv_entry a s = s\<lparr>cached := (cached s)(line_of a := False), dirty := (dirty s)(line_of a := False)\<rparr>"

definition flush_entry :: "u32 \<Rightarrow> dcache \<Rightarrow> dcache" where
  "flush_entry a s = inv_entry a (clean_entry a s)"

section \<open>The routines\<close>

text \<open>The loop at label 1: the operation on the entry of \<open>r0\<close>, the next line, and back while \<open>r0\<close> is
  below \<open>r1\<close> (\<open>blo\<close>, unsigned). It may not end.\<close>

partial_function (option) line_loop ::
    "(u32 \<Rightarrow> dcache \<Rightarrow> dcache) \<Rightarrow> u32 \<Rightarrow> u32 \<Rightarrow> dcache \<Rightarrow> dcache option" where
  "line_loop op r0 r1 s =
     (let s = op r0 s; r0 = r0 + CACHE_DLINESIZE
      in if r0 < r1 then line_loop op r0 r1 s else Some s)"

definition arm926_dma_inv_range :: "u32 \<Rightarrow> u32 \<Rightarrow> dcache \<Rightarrow> dcache option" where
  "arm926_dma_inv_range r0 r1 s =
     (let s = (if r0 AND (CACHE_DLINESIZE - 1) \<noteq> 0 then clean_entry r0 s else s);
          s = (if r1 AND (CACHE_DLINESIZE - 1) \<noteq> 0 then clean_entry r1 s else s);
          r0 = r0 AND NOT (CACHE_DLINESIZE - 1)
      in line_loop inv_entry r0 r1 s)"

definition arm926_dma_clean_range :: "u32 \<Rightarrow> u32 \<Rightarrow> dcache \<Rightarrow> dcache option" where
  "arm926_dma_clean_range r0 r1 s = line_loop clean_entry (r0 AND NOT (CACHE_DLINESIZE - 1)) r1 s"

definition arm926_dma_flush_range :: "u32 \<Rightarrow> u32 \<Rightarrow> dcache \<Rightarrow> dcache option" where
  "arm926_dma_flush_range r0 r1 s = line_loop flush_entry (r0 AND NOT (CACHE_DLINESIZE - 1)) r1 s"

text \<open>The CACHE commands and the release of a heap buffer call them with the end \<open>virtp + size\<close>.\<close>

definition run_cache_op :: "cache_op \<Rightarrow> dcache \<Rightarrow> dcache option" where
  "run_cache_op c s =
     (case c of
        Cache_clean virtp sz \<Rightarrow> arm926_dma_clean_range virtp (virtp + sz) s
      | Cache_inv virtp sz \<Rightarrow> arm926_dma_inv_range virtp (virtp + sz) s
      | Cache_flush virtp sz \<Rightarrow> arm926_dma_flush_range virtp (virtp + sz) s)"

section \<open>Lines\<close>

lemma line_of_mask: "line_of a = a AND NOT (mask 5)"
  by (simp add: line_of_def CACHE_DLINESIZE_def mask_eq_exp_minus_1)

lemma unat_line_of: "unat (line_of a) = unat a div 32 * 32"
  using unat_and_not_mask [of a 5] by (simp add: line_of_mask)

lemma line_startE:
  assumes "line_of l = l"
  obtains q where "unat l = 32 * q"
  using assms unat_line_of [of l] by (metis mult.commute)

lemma line_of_idem [simp]: "line_of (line_of a) = line_of a"
  by (simp add: line_of_mask and.assoc)

lemma line_of_le: "line_of a \<le> a"
  by (simp add: word_le_nat_alt unat_line_of)

lemma line_of_mono: "a \<le> b \<Longrightarrow> line_of a \<le> line_of b"
  by (simp add: word_le_nat_alt unat_line_of div_le_mono)

text \<open>From a line below an address that lies in no last line, the next line is reached without wrapping.\<close>

lemma next_line:
  assumes "line_of l = l" and "l < r" and "r \<le> 0xFFFFFFE0"
  shows "unat (l + CACHE_DLINESIZE) = unat l + 32" and "line_of (l + CACHE_DLINESIZE) = l + CACHE_DLINESIZE"
proof -
  obtain q where l: "unat l = 32 * q" using line_startE [OF assms(1)] .
  have "unat r \<le> 4294967264" "unat l < unat r" using assms(2,3) by (simp_all add: word_le_nat_alt word_less_nat_alt)
  then have "unat l + 32 < 2 ^ 32" by simp
  then show u: "unat (l + CACHE_DLINESIZE) = unat l + 32"
    using unat_plus_no_wrap [of l 32] by (simp add: CACHE_DLINESIZE_def)
  have "unat (line_of (l + CACHE_DLINESIZE)) = unat (l + CACHE_DLINESIZE)"
    unfolding unat_line_of u l by simp
  then show "line_of (l + CACHE_DLINESIZE) = l + CACHE_DLINESIZE" by (simp add: word_unat_eq_iff)
qed

text \<open>The lines the loop visits.\<close>

definition touched :: "u32 \<Rightarrow> u32 \<Rightarrow> u32 set" where
  "touched r0 r1 = {l. line_of l = l \<and> line_of r0 \<le> l \<and> l < r1}"

lemma touched_range: "r0 \<le> a \<Longrightarrow> a < r1 \<Longrightarrow> line_of a \<in> touched r0 r1"
  using line_of_mono [of r0 a] line_of_le [of a] by (simp add: touched_def)

lemma touched_next:
  assumes "line_of l = l" and "l < r1" and "r1 \<le> 0xFFFFFFE0"
  shows "touched l r1 = insert l (touched (l + CACHE_DLINESIZE) r1)"
proof (rule set_eqI)
  fix k
  note n = next_line [OF assms]
  have "unat l + 32 \<le> unat k" if k: "line_of k = k" "l \<le> k" "l \<noteq> k"
  proof -
    obtain p where p: "unat l = 32 * p" using line_startE [OF assms(1)] .
    obtain q where q: "unat k = 32 * q" using line_startE [OF k(1)] .
    have "unat l < unat k" using k(2,3) by (simp add: word_le_nat_alt word_unat_eq_iff)
    then show ?thesis using p q by simp
  qed
  then show "k \<in> touched l r1 \<longleftrightarrow> k \<in> insert l (touched (l + CACHE_DLINESIZE) r1)"
    using assms(1,2) n by (auto simp: touched_def word_le_nat_alt)
qed

section \<open>The loop\<close>

text \<open>An operation that works line by line: after it has been at the lines \<open>L\<close> the state is \<open>F L\<close> of the
  first one.\<close>

locale line_operation =
  fixes op :: "u32 \<Rightarrow> dcache \<Rightarrow> dcache"
    and F :: "u32 set \<Rightarrow> dcache \<Rightarrow> dcache"
  assumes none: "F {} s = s"
    and one_more: "op l (F L s) = F (insert (line_of l) L) s"
begin

lemma loop_from:
  assumes "line_of r0 = r0" and "r0 < r1" and "r1 \<le> 0xFFFFFFE0"
  shows "line_loop op r0 r1 (F L s) = Some (F (L \<union> touched r0 r1) s)"
  using assms
proof (induction "unat r1 - unat r0" arbitrary: r0 L rule: less_induct)
  case less
  note n = next_line [OF less.prems]
  let ?r = "r0 + CACHE_DLINESIZE"
  have u: "L \<union> touched r0 r1 = insert r0 L \<union> touched ?r r1" by (simp add: touched_next [OF less.prems])
  show ?case
  proof (cases "?r < r1")
    case True
    then have "unat r1 - unat ?r < unat r1 - unat r0" using n(1) less.prems(2) by (simp add: word_less_nat_alt)
    from less.hyps [OF this n(2) True less.prems(3)] show ?thesis
      by (subst line_loop.simps) (simp only: Let_def one_more less.prems(1) True if_True u)
  next
    case False
    then have "touched ?r r1 = {}" using n(2) by (auto simp: touched_def)
    then show ?thesis
      by (subst line_loop.simps) (simp only: Let_def one_more less.prems(1) False if_False u Un_empty_right)
  qed
qed

lemma loop_result:
  assumes "r0 < r1" and "r1 \<le> 0xFFFFFFE0"
  shows "line_loop op (line_of r0) r1 s = Some (F (touched r0 r1) s)"
proof -
  have "line_of r0 < r1" using line_of_le [of r0] assms(1) by simp
  from loop_from [OF line_of_idem this assms(2), of "{}" s] show ?thesis by (simp add: none touched_def)
qed

end

text \<open>What the three operations do to a set of lines.\<close>

definition clean_lines :: "u32 set \<Rightarrow> dcache \<Rightarrow> dcache" where
  "clean_lines L s =
     s\<lparr>ram := (\<lambda>b. if line_of b \<in> L \<and> cached s (line_of b) \<and> dirty s (line_of b) then line_data s b else ram s b),
       dirty := (\<lambda>l. dirty s l \<and> \<not> (l \<in> L \<and> cached s l))\<rparr>"

definition inv_lines :: "u32 set \<Rightarrow> dcache \<Rightarrow> dcache" where
  "inv_lines L s = s\<lparr>cached := (\<lambda>l. cached s l \<and> l \<notin> L), dirty := (\<lambda>l. dirty s l \<and> l \<notin> L)\<rparr>"

definition flush_lines :: "u32 set \<Rightarrow> dcache \<Rightarrow> dcache" where
  "flush_lines L s = inv_lines L (clean_lines L s)"

lemma clean_one_more: "clean_entry l (clean_lines L s) = clean_lines (insert (line_of l) L) s"
  by (rule dcache.equality) (auto simp: clean_entry_def clean_lines_def Let_def fun_eq_iff)

lemma inv_one_more: "inv_entry l (inv_lines L s) = inv_lines (insert (line_of l) L) s"
  by (rule dcache.equality) (auto simp: inv_entry_def inv_lines_def fun_eq_iff)

lemma clean_inv_comm: "clean_entry l (inv_lines L s) = inv_lines L (if line_of l \<in> L then s else clean_entry l s)"
  by (rule dcache.equality) (auto simp: clean_entry_def inv_lines_def Let_def fun_eq_iff)

interpretation cleaning: line_operation clean_entry clean_lines
  by unfold_locales (simp add: clean_lines_def, rule clean_one_more)

interpretation invalidating: line_operation inv_entry inv_lines
  by unfold_locales (simp add: inv_lines_def, rule inv_one_more)

interpretation flushing: line_operation flush_entry flush_lines
proof unfold_locales
  show "flush_lines {} s = s" for s by (simp add: flush_lines_def clean_lines_def inv_lines_def)
  show "flush_entry l (flush_lines L s) = flush_lines (insert (line_of l) L) s" for l L s
  proof (cases "line_of l \<in> L")
    case True
    then show ?thesis by (simp add: flush_entry_def flush_lines_def clean_inv_comm inv_one_more insert_absorb)
  next
    case False
    then show ?thesis by (simp add: flush_entry_def flush_lines_def clean_inv_comm inv_one_more clean_one_more)
  qed
qed

section \<open>What the routines do\<close>

lemma unaligned: "r AND (CACHE_DLINESIZE - 1) \<noteq> 0 \<longleftrightarrow> line_of r \<noteq> r"
proof -
  have "r AND (CACHE_DLINESIZE - 1) = 0 \<longleftrightarrow> unat r mod 32 = 0"
    using unat_and_mask [of r 5] by (simp add: CACHE_DLINESIZE_def unat_eq_zero [symmetric])
  moreover have "unat r div 32 * 32 + unat r mod 32 = unat r" by simp
  then have "line_of r = r \<longleftrightarrow> unat r mod 32 = 0"
    unfolding word_unat_eq_iff unat_line_of by (metis add_cancel_right_right)
  ultimately show ?thesis by simp
qed

text \<open>The lines at the ends of a range that hold bytes outside it.\<close>

definition ends :: "u32 \<Rightarrow> u32 \<Rightarrow> u32 set" where
  "ends r0 r1 = line_of ` {r \<in> {r0, r1}. line_of r \<noteq> r}"

lemma ends_touched:
  assumes "r0 < r1"
  shows "ends r0 r1 \<subseteq> touched r0 r1"
  using assms line_of_le [of r0] line_of_le [of r1] line_of_mono [of r0 r1] by (auto simp: ends_def touched_def)

lemma outside_ends:
  assumes "line_of a \<in> touched r0 r1" and "\<not> (r0 \<le> a \<and> a < r1)"
  shows "line_of a \<in> ends r0 r1"
proof (cases "a < r0")
  case True
  then have "line_of a = line_of r0" using assms(1) line_of_mono [of a r0] by (auto simp: touched_def)
  moreover have "line_of r0 \<noteq> r0" using True line_of_le [of a] calculation by auto
  ultimately show ?thesis by (auto simp: ends_def)
next
  case False
  then have a: "r1 \<le> a" "line_of a < r1" using assms by (auto simp: touched_def)
  then have "line_of r1 = line_of a"
    using line_of_mono [of r1 a] line_of_mono [of "line_of a" r1] by simp
  moreover have "line_of r1 \<in> ends r0 r1" unfolding ends_def using a(2) calculation by (intro imageI) auto
  ultimately show ?thesis by simp
qed

lemma clean_range_result:
  "r0 < r1 \<Longrightarrow> r1 \<le> 0xFFFFFFE0 \<Longrightarrow> arm926_dma_clean_range r0 r1 s = Some (clean_lines (touched r0 r1) s)"
  using cleaning.loop_result [of r0 r1 s] by (simp add: arm926_dma_clean_range_def line_of_def)

lemma flush_range_result:
  "r0 < r1 \<Longrightarrow> r1 \<le> 0xFFFFFFE0 \<Longrightarrow> arm926_dma_flush_range r0 r1 s = Some (flush_lines (touched r0 r1) s)"
  using flushing.loop_result [of r0 r1 s] by (simp add: arm926_dma_flush_range_def line_of_def)

lemma clean_ends:
  "(let s = (if r0 AND (CACHE_DLINESIZE - 1) \<noteq> 0 then clean_entry r0 s else s)
    in if r1 AND (CACHE_DLINESIZE - 1) \<noteq> 0 then clean_entry r1 s else s) = clean_lines (ends r0 r1) s"
proof -
  have c: "clean_entry r s = clean_lines {line_of r} s" for r s
    using cleaning.one_more [of r "{}" s] by (simp add: cleaning.none)
  have "{r \<in> {r0, r1}. line_of r \<noteq> r} = (if line_of r0 \<noteq> r0 then {r0} else {}) \<union> (if line_of r1 \<noteq> r1 then {r1} else {})"
    by auto
  then show ?thesis
    using cleaning.one_more [of r1 "{line_of r0}" s]
    by (simp add: ends_def unaligned c cleaning.none insert_commute)
qed

lemma inv_range_result:
  assumes "r0 < r1" and "r1 \<le> 0xFFFFFFE0"
  shows "arm926_dma_inv_range r0 r1 s = Some (inv_lines (touched r0 r1) (clean_lines (ends r0 r1) s))"
  using invalidating.loop_result [OF assms, of "clean_lines (ends r0 r1) s"] clean_ends [of r0 s r1]
  by (simp add: arm926_dma_inv_range_def line_of_def Let_def)

text \<open>Outside \<open>R\<close> the cache holds what is in memory, except for what the processor wrote.\<close>

definition agrees_outside :: "u32 set \<Rightarrow> dcache \<Rightarrow> bool" where
  "agrees_outside R s \<longleftrightarrow>
     (\<forall>a. a \<notin> R \<longrightarrow> cached s (line_of a) \<longrightarrow> \<not> dirty s (line_of a) \<longrightarrow> line_data s a = ram s a)"

lemma clean_lines_cpu [simp]: "cpu_byte (clean_lines L s) a = cpu_byte s a"
  by (simp add: cpu_byte_def clean_lines_def)

lemma clean_lines_ram:
  assumes "agrees_outside R s" and "line_of a \<in> L" and "a \<notin> R"
  shows "ram (clean_lines L s) a = cpu_byte s a"
  using assms by (auto simp: cpu_byte_def clean_lines_def agrees_outside_def)

lemma inv_lines_cpu: "cpu_byte (inv_lines L s) a = (if line_of a \<in> L then ram s a else cpu_byte s a)"
  by (simp add: cpu_byte_def inv_lines_def)

text \<open>The contracts: for a device that will read the range, and for a program that will read what a device
  wrote there. Bytes outside the range read as before, even where they share a line with it; on a
  shared line the program wrote to, the bytes of the range are those of the program.\<close>

definition device_sees :: "u32 \<Rightarrow> u32 \<Rightarrow> dcache \<Rightarrow> dcache \<Rightarrow> bool" where
  "device_sees r0 r1 s s' \<longleftrightarrow> cpu_byte s' = cpu_byte s \<and> (\<forall>a\<in>{r0..<r1}. ram s' a = cpu_byte s a)"

definition program_sees :: "u32 \<Rightarrow> u32 \<Rightarrow> dcache \<Rightarrow> dcache \<Rightarrow> bool" where
  "program_sees r0 r1 s s' \<longleftrightarrow>
     (\<forall>a. if a \<in> {r0..<r1} then cpu_byte s' a = ram s' a
            \<and> (ram s' a = ram s a \<or> line_of a \<in> ends r0 r1 \<and> cached s (line_of a) \<and> dirty s (line_of a))
          else cpu_byte s' a = cpu_byte s a)"

lemma clean_for_device:
  assumes "r0 < r1" and "r1 \<le> 0xFFFFFFE0" and "agrees_outside {} s"
  shows "\<exists>s'. arm926_dma_clean_range r0 r1 s = Some s' \<and> device_sees r0 r1 s s'"
  using assms touched_range clean_range_result [OF assms(1,2)]
  by (auto simp: device_sees_def fun_eq_iff intro!: clean_lines_ram [OF assms(3)])

lemma flush_for_device:
  assumes "r0 < r1" and "r1 \<le> 0xFFFFFFE0" and agree: "agrees_outside {} s"
  shows "\<exists>s'. arm926_dma_flush_range r0 r1 s = Some s' \<and> device_sees r0 r1 s s' \<and> (\<forall>a\<in>{r0..<r1}. \<not> cached s' (line_of a))"
proof -
  have "cpu_byte (flush_lines (touched r0 r1) s) a = cpu_byte s a" for a
    using clean_lines_ram [OF agree, of a "touched r0 r1"] by (simp add: flush_lines_def inv_lines_cpu)
  moreover have "ram (flush_lines L s) = ram (clean_lines L s)" "cached (flush_lines L s) l \<Longrightarrow> l \<notin> L" for L l
    by (simp_all add: flush_lines_def inv_lines_def)
  moreover have "line_of a \<in> touched r0 r1" if "a \<in> {r0..<r1}" for a using touched_range that by simp
  ultimately show ?thesis
    using flush_range_result [OF assms(1,2)] clean_lines_ram [OF agree] by (fastforce simp: device_sees_def)
qed

lemma invalidate_for_program:
  assumes "r0 < r1" and "r1 \<le> 0xFFFFFFE0" and agree: "agrees_outside {r0..<r1} s"
  shows "\<exists>s'. arm926_dma_inv_range r0 r1 s = Some s' \<and> program_sees r0 r1 s s'"
proof -
  let ?T = "touched r0 r1" and ?c = "clean_lines (ends r0 r1) s"
  have "cpu_byte (inv_lines ?T ?c) a = cpu_byte s a" if a: "a \<notin> {r0..<r1}" for a
  proof (cases "line_of a \<in> ?T")
    case True
    then have "line_of a \<in> ends r0 r1" using outside_ends a by simp
    then show ?thesis using True clean_lines_ram [OF agree _ a] by (simp add: inv_lines_cpu)
  qed (simp add: inv_lines_cpu)
  moreover have "cpu_byte (inv_lines ?T ?c) a = ram (inv_lines ?T ?c) a" if "a \<in> {r0..<r1}" for a
    using that touched_range [of r0 a r1] by (simp add: inv_lines_cpu) (simp add: inv_lines_def)
  moreover have "ram (inv_lines ?T ?c) a = ram s a \<or> line_of a \<in> ends r0 r1 \<and> cached s (line_of a) \<and> dirty s (line_of a)" for a
    by (simp add: inv_lines_def clean_lines_def)
  ultimately show ?thesis using inv_range_result [OF assms(1,2)] by (simp add: program_sees_def)
qed

section \<open>The end of the loop\<close>

text \<open>Every line starts at \<open>0xFFFFFFE0\<close> or below, so the loop never gets to a later end.\<close>

lemma line_start_max: "line_of l = l \<Longrightarrow> l \<le> 0xFFFFFFE0"
proof -
  assume "line_of l = l"
  then obtain q where q: "unat l = 32 * q" by (rule line_startE)
  have "unat l < 4294967296" by simp
  then show ?thesis using q by (simp add: word_le_nat_alt)
qed

lemma line_of_next: "line_of l = l \<Longrightarrow> line_of (l + CACHE_DLINESIZE) = l + CACHE_DLINESIZE"
proof (cases "l = 0xFFFFFFE0")
  case True
  then show ?thesis by (simp add: CACHE_DLINESIZE_def line_of_def)
next
  case False
  assume l: "line_of l = l"
  with False have "l < 0xFFFFFFE0" using line_start_max by fastforce
  from next_line(2) [OF l this] show ?thesis by simp
qed

lemma line_loop_endless:
  assumes "0xFFFFFFE0 < r1" and "line_of r0 = r0"
  shows "line_loop op r0 r1 s = None"
proof -
  have "\<not> (0xFFFFFFE0 < r1 \<and> line_of r0 = r0)" if "line_loop op r0 r1 s = Some t" for op r0 r1 s t
  proof (rule line_loop.raw_induct [where P = "\<lambda>op r0 r1 s t. \<not> (0xFFFFFFE0 < r1 \<and> line_of r0 = r0)", OF _ that])
    fix loop op r0 r1 s t
    assume IH: "\<And>op r0 r1 s t. loop op r0 r1 s = Some t \<Longrightarrow> \<not> (0xFFFFFFE0 < r1 \<and> line_of r0 = r0)"
      and run: "(let s = op r0 s; r0 = r0 + CACHE_DLINESIZE in if r0 < r1 then loop op r0 r1 s else Some s) = Some t"
    show "\<not> (0xFFFFFFE0 < r1 \<and> line_of r0 = r0)"
    proof
      assume h: "0xFFFFFFE0 < r1 \<and> line_of r0 = r0"
      then have n: "line_of (r0 + CACHE_DLINESIZE) = r0 + CACHE_DLINESIZE" by (simp add: line_of_next)
      then have "r0 + CACHE_DLINESIZE < r1" using line_start_max [OF n] h by (meson le_less_trans)
      then have "loop op (r0 + CACHE_DLINESIZE) r1 (op r0 s) = Some t" using run by (simp add: Let_def)
      from IH [OF this] n h show False by blast
    qed
  qed
  then show ?thesis using assms by (cases "line_loop op r0 r1 s") blast+
qed

lemma line_loop_ends:
  assumes "line_of r0 = r0" and "r1 \<le> 0xFFFFFFE0"
  shows "line_loop op r0 r1 s \<noteq> None"
proof -
  have below: "line_loop op r r1 s \<noteq> None" if "line_of r = r" "r < r1" for r s
    using that
  proof (induction "unat r1 - unat r" arbitrary: r s rule: less_induct)
    case less
    note n = next_line [OF less.prems assms(2)]
    have "unat r1 - unat (r + CACHE_DLINESIZE) < unat r1 - unat r"
      using n(1) less.prems(2) by (simp add: word_less_nat_alt)
    then show ?case
      using less.hyps n(2) by (subst line_loop.simps) (simp add: Let_def)
  qed
  show ?thesis
    using below [OF line_of_next [OF assms(1)]] by (subst line_loop.simps) (simp add: Let_def)
qed

lemma line_loop_None: "line_loop op (line_of r0) r1 s = None \<longleftrightarrow> 0xFFFFFFE0 < r1"
  using line_loop_ends [of "line_of r0" r1 op s] line_loop_endless [of r1 "line_of r0" op s] by (metis line_of_idem not_less)

section \<open>The properties\<close>

text \<open>C16: The CACHE commands. A write-back makes what the program wrote to the range visible to the device, an
  invalidate makes what the device wrote there visible to the program, a write-back and
  invalidate does the first and leaves nothing of the range in the cache; none of them changes
  what the program reads elsewhere.\<close>

theorem CACHE_commands:
  assumes "copy_in io" and "0 < n" and "unat virtp + unat n \<le> 0xFFFFFFE0"
    and "agrees_outside (if flavour = CMEM_INV then {virtp..<virtp + n} else {}) s"
    and "flavour \<in> {CMEM_WB, CMEM_INV, CMEM_WB OR CMEM_INV}"
  shows "\<exists>c s'. cmem_ioctl mm io filp (CMEM_IOCMAGIC OR CMEM_IOCCACHE OR flavour) (virtp, n, w) st
       = (Done [], st\<lparr>cache_ops := cache_ops st @ [c]\<rparr>)
     \<and> run_cache_op c s = Some s'
     \<and> (if flavour = CMEM_INV then program_sees virtp (virtp + n) s s' else device_sees virtp (virtp + n) s s')
     \<and> (flavour = CMEM_WB OR CMEM_INV \<longrightarrow> (\<forall>a\<in>{virtp..<virtp + n}. \<not> cached s' (line_of a)))"
proof -
  have u: "unat (virtp + n) = unat virtp + unat n" using assms(3) by (intro unat_plus_no_wrap) simp
  have r: "virtp < virtp + n" "virtp + n \<le> 0xFFFFFFE0"
    using assms(2,3) u by (simp_all add: word_less_nat_alt word_le_nat_alt)
  let ?op = "if flavour = CMEM_WB then Cache_clean virtp n else if flavour = CMEM_INV then Cache_inv virtp n else Cache_flush virtp n"
  have cmd: "cmem_ioctl mm io filp (CMEM_IOCMAGIC OR CMEM_IOCCACHE OR flavour) (virtp, n, w) st
       = (Done [], st\<lparr>cache_ops := cache_ops st @ [?op]\<rparr>)"
    using assms(1,5)
    by (auto simp: cmem_ioctl_def ioctl_CACHE_def CMEM_IOCMAGIC_def CMEM_IOCCMDMASK_def CMEM_WB_def CMEM_INV_def)
  have d: "CMEM_WB \<noteq> CMEM_INV" "CMEM_WB OR CMEM_INV \<noteq> CMEM_INV" "CMEM_WB OR CMEM_INV \<noteq> CMEM_WB"
    by (simp_all add: CMEM_WB_def CMEM_INV_def)
  consider "flavour = CMEM_WB" | "flavour = CMEM_INV" | "flavour = CMEM_WB OR CMEM_INV" using assms(5) by blast
  then have "\<exists>s'. run_cache_op ?op s = Some s'
     \<and> (if flavour = CMEM_INV then program_sees virtp (virtp + n) s s' else device_sees virtp (virtp + n) s s')
     \<and> (flavour = CMEM_WB OR CMEM_INV \<longrightarrow> (\<forall>a\<in>{virtp..<virtp + n}. \<not> cached s' (line_of a)))"
  proof cases
    case 1
    then show ?thesis using clean_for_device [OF r] assms(4) d d [symmetric] by (auto simp: run_cache_op_def)
  next
    case 2
    then show ?thesis using invalidate_for_program [OF r] assms(4) d d [symmetric] by (auto simp: run_cache_op_def)
  next
    case 3
    then show ?thesis using flush_for_device [OF r] assms(4) d d [symmetric] by (auto simp: run_cache_op_def)
  qed
  then show ?thesis using cmd by blast
qed

text \<open>C17: The routines return exactly when the end of the range is not in the last line of the address space;
  otherwise the loop never ends. The CACHE commands pass the end they are given without a check.\<close>

theorem cache_routines_end:
  "(arm926_dma_clean_range r0 r1 s = None \<longleftrightarrow> 0xFFFFFFE0 < r1)
   \<and> (arm926_dma_flush_range r0 r1 s = None \<longleftrightarrow> 0xFFFFFFE0 < r1)
   \<and> (arm926_dma_inv_range r0 r1 s = None \<longleftrightarrow> 0xFFFFFFE0 < r1)"
  by (simp add: arm926_dma_clean_range_def arm926_dma_flush_range_def arm926_dma_inv_range_def Let_def
      line_of_def [symmetric] line_loop_None)

text \<open>An empty range that starts at a line is not left alone: the invalidate drops that line, and what the
  program wrote to it is lost.\<close>

theorem empty_invalidate_loses_writes:
  assumes "line_of a = a" and "a < 0xFFFFFFE0" and "cached s a"
  shows "\<exists>s'. run_cache_op (Cache_inv a 0) s = Some s' \<and> cpu_byte s a = line_data s a \<and> cpu_byte s' a = ram s a"
proof -
  have "\<not> a + CACHE_DLINESIZE < a"
    using next_line(1) [OF assms(1,2)] by (simp add: word_less_nat_alt)
  then have "line_loop inv_entry a a s = Some (inv_entry a s)" by (subst line_loop.simps) (simp add: Let_def)
  then have "arm926_dma_inv_range a a s = Some (inv_entry a s)"
    using assms(1) unaligned [of a] by (simp add: arm926_dma_inv_range_def line_of_def)
  then show ?thesis using assms(1,3) by (simp add: run_cache_op_def cpu_byte_def inv_entry_def)
qed

section \<open>The properties at work\<close>

text \<open>The program has written 7 to every byte of the line at \<open>0x1000\<close>; memory still holds 0.\<close>

definition demo_cache :: dcache where
  "demo_cache = \<lparr>ram = (\<lambda>_. 0), cached = (\<lambda>l. l = 0x1000), dirty = (\<lambda>l. l = 0x1000), line_data = (\<lambda>_. 7)\<rparr>"

theorem CACHE_commands_witness:
  "\<exists>c s'. cmem_ioctl demo_mm demo_io 1 (CMEM_IOCMAGIC OR CMEM_IOCCACHE OR CMEM_WB) (0x1004, 8, 0) demo_cmem
       = (Done [], demo_cmem\<lparr>cache_ops := cache_ops demo_cmem @ [c]\<rparr>)
     \<and> run_cache_op c demo_cache = Some s' \<and> ram s' 0x1004 = 7"
proof -
  have "copy_in demo_io" by (simp add: demo_io_def)
  moreover have "agrees_outside {} demo_cache" by (simp add: agrees_outside_def demo_cache_def)
  moreover have "cpu_byte demo_cache 0x1004 = 7" by (simp add: cpu_byte_def demo_cache_def line_of_def CACHE_DLINESIZE_def)
  moreover have "CMEM_WB \<noteq> CMEM_INV" by (simp add: CMEM_WB_def CMEM_INV_def)
  ultimately show ?thesis
    using CACHE_commands [of demo_io 8 "0x1004" CMEM_WB demo_cache demo_mm 1 0 demo_cmem]
    by (fastforce simp: device_sees_def)
qed

end
