(* ===== verification/CmemSim.thy ===== *)
theory CmemSim
  imports CmemLife
begin

text \<open>
  The simulation build of the CMEM module (\<open>__SIM\<close>, the build of \<open>cmemk/Makefile\<close> that runs on
  a workstation): its memory comes from \<open>vmalloc\<close>, is announced to the parser of the parameters as
  two strings (\<open>get_phys_mem\<close>), is not mapped a second time, and reaches a program page by page
  (\<open>map_vmalloc_area\<close>). The theorems compare it with the build for the board.
\<close>

section \<open>The memory of the simulation\<close>

definition SIM_MEMORY :: u32 where
  "SIM_MEMORY = 20 * 1024 * 1024"

definition TMPBUF_SIZE :: nat where
  "TMPBUF_SIZE = 32"

text \<open>\<open>sprintf\<close> at a position of a buffer: the buffer and the number of characters stored, without
  the terminating null.\<close>

definition sprintf_at :: "nat \<Rightarrow> string \<Rightarrow> string \<Rightarrow> (string \<times> nat) res" where
  "sprintf_at pos s buf =
     (if pos + length s + 1 \<le> length buf
      then Done (take pos buf @ s @ NUL # drop (pos + length s + 1) buf, length s)
      else Crash Out_of_bounds)"

definition c_string :: "nat \<Rightarrow> string \<Rightarrow> string" where
  "c_string pos buf = takeWhile (\<lambda>c. c \<noteq> NUL) (drop pos buf)"

text \<open>\<open>area\<close> is what \<open>vmalloc\<close> returns, 0 for a failure. The result holds the positions of the two
  strings in the buffer.\<close>

definition get_phys_mem :: "u32 \<Rightarrow> string \<Rightarrow> ((nat \<times> nat) option \<times> string) res" where
  "get_phys_mem area buf =
     (if area = 0 then Done (None, buf)
      else case sprintf_at 0 (''0x'' @ fmt_x area) buf of
        Done (buf, n) \<Rightarrow>
          (case sprintf_at (n + 1) (''0x'' @ fmt_x (area + SIM_MEMORY - 1)) buf of
             Done (buf, _) \<Rightarrow> Done (Some (0, n + 1), buf)
           | Fail e \<Rightarrow> Fail e | Crash f \<Rightarrow> Crash f)
      | Fail e \<Rightarrow> Fail e | Crash f \<Rightarrow> Crash f)"

text \<open>The module of this build also keeps the address of its memory; \<open>vmalloced\<close> are the areas it has
  not given back.\<close>

record sim_module =
  base :: module
  physmem :: u32
  vmalloced :: "u32 list"

definition put_phys_mem :: "sim_module \<Rightarrow> sim_module" where
  "put_phys_mem s = s\<lparr>vmalloced := remove1 (physmem s) (vmalloced s)\<rparr>"

section \<open>Loading and unloading\<close>

definition sim_map_block :: "nat \<Rightarrow> u32 \<Rightarrow> u32 \<Rightarrow> module \<Rightarrow> unit res \<times> module" where
  "sim_map_block bi s e m =
     (let sz = e - s;
          m = on_drv (\<lambda>st. st\<lparr>block_start := (block_start st)(bi := s), block_end := (block_end st)(bi := e)\<rparr>) m
      in if s = 0 then (Fail EINVAL, m)
         else
           let m = on_drv (\<lambda>st. st\<lparr>block_avail_size := (block_avail_size st)(bi := sz)\<rparr>) m;
               virtp = s;
               m = on_drv (\<lambda>st. st\<lparr>block_virtp := (block_virtp st)(bi := virtp)\<rparr>) m;
               m = on_drv (\<lambda>st. st\<lparr>block_virtoff := (block_virtoff st)(bi := virtp - s),
                     block_virtend := (block_virtend st)(bi := virtp + sz)\<rparr>) m
           in if sz = 0 then (Crash Out_of_bounds, m)
              else (Done (), on_drv (\<lambda>st. st\<lparr>store := zero_pages virtp sz (store st)\<rparr>) m))"

definition sim_init_block :: "module_params \<Rightarrow> kernel \<Rightarrow> nat \<Rightarrow> string \<Rightarrow> string \<Rightarrow> module \<Rightarrow> unit res \<times> module" where
  "sim_init_block p k bi pstart pend m =
     (case sim_map_block bi (PAGE_ALIGN (simple_strtol 16 pstart)) (PAGE_ALIGN (simple_strtol 16 pend)) m of
        (Done _, m) \<Rightarrow>
          (case init_pools k bi 0 (par_pools p bi) m of
             (Done _, m) \<Rightarrow>
               (case init_heap k bi m of
                  (Done _, m) \<Rightarrow> (Done (), on_drv (\<lambda>st. st\<lparr>nblocks := nblocks st + 1\<rparr>) m)
                | (r, m) \<Rightarrow> (r, m))
           | (r, m) \<Rightarrow> (r, m))
      | (r, m) \<Rightarrow> (r, m))"

fun sim_init_blocks :: "module_params \<Rightarrow> kernel \<Rightarrow> nat list \<Rightarrow> module \<Rightarrow> unit res \<times> module" where
  "sim_init_blocks p k [] m = (Done (), m)"
| "sim_init_blocks p k (bi # bis) m =
     (case (par_start p bi, par_end p bi) of
        (Some pstart, Some pend) \<Rightarrow>
          (case sim_init_block p k bi pstart pend m of
             (Done _, m) \<Rightarrow> sim_init_blocks p k bis m
           | (r, m) \<Rightarrow> (r, m))
      | _ \<Rightarrow> if bi = 0 \<and> par_pools p 0 \<noteq> [] then (Fail EINVAL, m) else (Done (), m))"

text \<open>The parameters that name the memory are overwritten; the label \<open>fail_after_create\<close> only gives the
  character device back in this build.\<close>

definition sim_params :: "module_params \<Rightarrow> string \<Rightarrow> string \<Rightarrow> module_params" where
  "sim_params p s e =
     p\<lparr>par_start := (par_start p)(0 := Some s, 1 := None), par_end := (par_end p)(0 := Some e, 1 := None)\<rparr>"

definition sim_cmem_init :: "module_params \<Rightarrow> kernel \<Rightarrow> u32 \<Rightarrow> unit res \<times> sim_module" where
  "sim_cmem_init p k area =
     (let m = loaded p k; s = \<lparr>base = m, physmem = 0, vmalloced = []\<rparr>
      in if length (par_pools p 0) > MAX_POOLS then (Fail EINVAL, s)
         else if length (par_pools p 1) > MAX_POOLS then (Fail EINVAL, s)
         else if \<not> chrdev_ok k then (Fail ENODEV, s)
         else
           let m = m\<lparr>held := Chrdev # held m\<rparr>
           in case get_phys_mem area (replicate TMPBUF_SIZE NUL) of
             Done (None, _) \<Rightarrow> (Fail ENOMEM, s\<lparr>base := unregister_chrdev m\<rparr>)
           | Done (Some (start, stop), tmpbuf) \<Rightarrow>
               let s = s\<lparr>physmem := area, vmalloced := [area]\<rparr>;
                   p = sim_params p (c_string start tmpbuf) (c_string stop tmpbuf)
               in (case sim_init_blocks p k [0..<NBLOCKS] m of
                     (Done _, m) \<Rightarrow> (Done (), s\<lparr>base := m\<rparr>)
                   | (Fail e, m) \<Rightarrow> (Fail e, s\<lparr>base := unregister_chrdev m\<rparr>)
                   | (Crash f, m) \<Rightarrow> (Crash f, s\<lparr>base := m\<rparr>))
           | Fail e \<Rightarrow> (Fail e, s\<lparr>base := m\<rparr>) | Crash f \<Rightarrow> (Crash f, s\<lparr>base := m\<rparr>))"

fun sim_exit_blocks :: "nat list \<Rightarrow> module \<Rightarrow> pool_buffer list res" where
  "sim_exit_blocks [] m = Done []"
| "sim_exit_blocks (bi # bis) m =
     (case free_pools m bi [0..<num_pools (drv m) bi] of
        Done es \<Rightarrow>
          (case sim_exit_blocks bis m of
             Done es' \<Rightarrow> Done (es @ es')
           | r \<Rightarrow> r)
      | r \<Rightarrow> r)"

definition sim_cmem_exit :: "sim_module \<Rightarrow> pool_buffer list res \<times> sim_module" where
  "sim_cmem_exit s =
     (case sim_exit_blocks [0..<NBLOCKS] (base s) of
        Done es \<Rightarrow> (Done es, (put_phys_mem s)\<lparr>base := unregister_chrdev (base s)\<rparr>)
      | r \<Rightarrow> (r, s))"

section \<open>Mapping a buffer into a program\<close>

text \<open>The loop maps one page at a time. \<open>to_pfn\<close> is \<open>vmalloc_to_pfn\<close>, \<open>remap\<close> tells whether
  \<open>remap_pfn_range\<close> maps a page; the mappings made are collected. The length is unsigned: one that is
  no multiple of the page size never becomes zero.\<close>

partial_function (option) map_pages ::
  "(u32 \<Rightarrow> u32) \<Rightarrow> (u32 \<Rightarrow> u32 \<Rightarrow> bool) \<Rightarrow> u32 \<Rightarrow> u32 \<Rightarrow> u32 \<Rightarrow> (u32 \<times> u32) list \<Rightarrow> (unit res \<times> (u32 \<times> u32) list) option" where
  "map_pages to_pfn remap start area_ptr sz ms =
     (if sz = 0 then Some (Done (), ms)
      else if \<not> remap start (to_pfn area_ptr) then Some (Fail EAGAIN, ms)
      else map_pages to_pfn remap (start + PAGE_SIZE) (area_ptr + PAGE_SIZE) (sz - PAGE_SIZE)
             (ms @ [(start, to_pfn area_ptr)]))"

definition map_vmalloc_area ::
  "(u32 \<Rightarrow> u32) \<Rightarrow> (u32 \<Rightarrow> u32 \<Rightarrow> bool) \<Rightarrow> vma \<Rightarrow> (unit res \<times> (u32 \<times> u32) list) option" where
  "map_vmalloc_area to_pfn remap vma =
     map_pages to_pfn remap (vm_start vma) (push_bit PAGE_SHIFT (vm_pgoff vma)) (vm_end vma - vm_start vma) []"

definition sim_mmap ::
  "io \<Rightarrow> (u32 \<Rightarrow> u32) \<Rightarrow> (u32 \<Rightarrow> u32 \<Rightarrow> bool) \<Rightarrow> vma \<Rightarrow> cmem \<Rightarrow> (unit res \<times> (u32 \<times> u32) list) option" where
  "sim_mmap io to_pfn remap vma st =
     (if \<not> lock_ok io then Some (Fail ERESTARTSYS, [])
      else case find_busy_entry st (push_bit PAGE_SHIFT (vm_pgoff vma)) of
        None \<Rightarrow> Some (Fail EINVAL, [])
      | Some _ \<Rightarrow> map_vmalloc_area to_pfn remap vma)"

section \<open>The strings\<close>

lemma get_phys_mem_strings:
  assumes "area \<noteq> 0"
  shows "\<exists>i j buf. get_phys_mem area (replicate TMPBUF_SIZE NUL) = Done (Some (i, j), buf)
           \<and> c_string i buf = ''0x'' @ fmt_x area \<and> c_string j buf = ''0x'' @ fmt_x (area + SIM_MEMORY - 1)"
proof -
  let ?s = "''0x'' @ fmt_x area" and ?t = "''0x'' @ fmt_x (area + SIM_MEMORY - 1)"
  have len: "length ?s \<le> 10" "length ?t \<le> 10" using length_fmt_x [of area] length_fmt_x [of "area + SIM_MEMORY - 1"] by simp_all
  have nul: "\<forall>c\<in>set ?s. c \<noteq> NUL" "\<forall>c\<in>set ?t. c \<noteq> NUL" using fmt_x_no_NUL by (auto simp: NUL_def)
  define buf1 where "buf1 = ?s @ NUL # drop (length ?s + 1) (replicate TMPBUF_SIZE NUL)"
  define buf2 where "buf2 = ?s @ NUL # ?t @ NUL # drop (length ?s + 1 + length ?t + 1) buf1"
  have 1: "sprintf_at 0 ?s (replicate TMPBUF_SIZE NUL) = Done (buf1, length ?s)"
    using len(1) by (simp add: sprintf_at_def buf1_def TMPBUF_SIZE_def)
  have l1: "length buf1 = 32" using len(1) by (simp add: buf1_def TMPBUF_SIZE_def)
  have "take (length ?s + 1) buf1 = ?s @ [NUL]" by (simp add: buf1_def)
  then have 2: "sprintf_at (length ?s + 1) ?t buf1 = Done (buf2, length ?t)"
    using len l1 by (simp add: sprintf_at_def buf2_def)
  have "c_string 0 buf2 = ?s" "c_string (length ?s + 1) buf2 = ?t"
    using nul by (simp_all add: c_string_def buf2_def)
  then show ?thesis using 1 2 assms by (simp add: get_phys_mem_def)
qed

section \<open>The simulated load is a load\<close>

text \<open>The kernel in whose hands the build for the board does the same: it grants every region and maps
  it where it lies.\<close>

definition identity_mapped :: "kernel \<Rightarrow> kernel" where
  "identity_mapped k = k\<lparr>request_mem_region := (\<lambda>_ _. True), ioremap := (\<lambda>s _. s)\<rparr>"

text \<open>Two states of the module that differ in what they hold of the kernel only.\<close>

definition put :: "(nat \<Rightarrow> u32) \<Rightarrow> resource list \<Rightarrow> module \<Rightarrow> module" where
  "put f h m = m\<lparr>block_flags := f, held := h\<rparr>"

lemma put_sel [simp]: "drv (put f h m) = drv m" "ready (put f h m) = ready m"
  by (simp_all add: put_def)

definition same_core :: "module \<Rightarrow> module \<Rightarrow> bool" where
  "same_core m m' \<longleftrightarrow> (\<exists>f h. m' = put f h m)"

lemma same_core_iff: "same_core m m' \<longleftrightarrow> drv m' = drv m \<and> ready m' = ready m"
  by (auto simp: same_core_def put_def intro!: exI [of _ "block_flags m'"] exI [of _ "held m'"])

lemma pool_buffers_identity: "pool_buffers (identity_mapped k) bi idx sz n i st = pool_buffers k bi idx sz n i st"
  by (induction n arbitrary: i st)
     (auto simp: identity_mapped_def Let_def split: prod.splits option.splits)

lemma alloc_pool_put:
  "alloc_pool (identity_mapped k) bi idx num req (put f h m) = map_prod id (put f h) (alloc_pool k bi idx num req m)"
  by (simp add: alloc_pool_def Let_def pool_buffers_identity put_def split: prod.splits)

lemma drv_update_put: "(put f h m)\<lparr>drv := st\<rparr> = put f h (m\<lparr>drv := st\<rparr>)"
  by (simp add: put_def)

lemma init_pools_put:
  "init_pools (identity_mapped k) bi i ss (put f h m) = map_prod id (put f h) (init_pools k bi i ss m)"
proof (induction ss arbitrary: i m)
  case (Cons s ss)
  show ?case
  proof (cases "parse_pool s")
    case (Done x)
    obtain num req where x: "x = (num, req)" by (cases x)
    obtain r m1 where "alloc_pool k bi i num req m = (r, m1)" by fastforce
    then show ?thesis
      using Done x Cons by (cases r) (simp_all add: alloc_pool_put drv_update_put)
  qed simp_all
qed simp

lemma init_heap_put:
  "init_heap (identity_mapped k) bi (put f h m) = map_prod id (put f h) (init_heap k bi m)"
proof -
  let ?m1 = "on_drv (\<lambda>st. st\<lparr>heap_size := (heap_size st)(bi := block_avail_size st bi AND NOT (PAGE_SIZE - 1))\<rparr>) m"
  obtain r m2 where "alloc_pool k bi (npools (drv m) bi) 1 (block_avail_size (drv m) bi AND NOT (PAGE_SIZE - 1)) ?m1 = (r, m2)"
    by fastforce
  then show ?thesis
    by (cases r) (simp_all add: init_heap_def Let_def alloc_pool_put drv_update_put)
qed

lemma sim_map_block_core:
  assumes "same_core m m'"
  shows "fst (map_block (identity_mapped k) bi s e m') = fst (sim_map_block bi s e m)
       \<and> same_core (snd (sim_map_block bi s e m)) (snd (map_block (identity_mapped k) bi s e m'))"
proof -
  have k: "request_mem_region (identity_mapped k) = (\<lambda>_ _. True)" "ioremap (identity_mapped k) = (\<lambda>s _. s)"
    by (simp_all add: identity_mapped_def)
  have d: "drv m' = drv m" "ready m' = ready m" using assms by (simp_all add: same_core_iff)
  show ?thesis
    by (cases "s = 0"; cases "e = s") (simp_all add: map_block_def sim_map_block_def Let_def k same_core_iff d)
qed

lemma sim_init_block_core:
  assumes "same_core m m'"
  shows "fst (init_block p (identity_mapped k) bi ps pe m') = fst (sim_init_block p k bi ps pe m)
       \<and> same_core (snd (sim_init_block p k bi ps pe m)) (snd (init_block p (identity_mapped k) bi ps pe m'))"
proof -
  let ?s = "PAGE_ALIGN (simple_strtol 16 ps)" and ?e = "PAGE_ALIGN (simple_strtol 16 pe)"
  obtain r m1 where e1: "sim_map_block bi ?s ?e m = (r, m1)" by fastforce
  then obtain f h where e1': "map_block (identity_mapped k) bi ?s ?e m' = (r, put f h m1)"
    using sim_map_block_core [OF assms, of k bi ?s ?e] by (auto simp: same_core_def prod_eq_iff)
  obtain r2 m2 where e2: "init_pools k bi 0 (par_pools p bi) m1 = (r2, m2)" by fastforce
  obtain r3 m3 where e3: "init_heap k bi m2 = (r3, m3)" by fastforce
  show ?thesis
    by (cases r; cases r2; cases r3)
       (simp_all add: init_block_def sim_init_block_def e1 e1' e2 e3 init_pools_put init_heap_put same_core_iff)
qed

lemma sim_init_blocks_core:
  "same_core m m' \<Longrightarrow> fst (init_blocks p (identity_mapped k) bis m') = fst (sim_init_blocks p k bis m)
     \<and> same_core (snd (sim_init_blocks p k bis m)) (snd (init_blocks p (identity_mapped k) bis m'))"
proof (induction bis arbitrary: m m')
  case (Cons bi bis)
  show ?case
  proof (cases "par_start p bi = None \<or> par_end p bi = None")
    case True
    then show ?thesis using Cons.prems by (auto split: option.splits)
  next
    case False
    then obtain ps pe where pp: "par_start p bi = Some ps" "par_end p bi = Some pe" by auto
    obtain r m1 where e1: "sim_init_block p k bi ps pe m = (r, m1)" by fastforce
    then obtain m1' where e1': "init_block p (identity_mapped k) bi ps pe m' = (r, m1')" "same_core m1 m1'"
      using sim_init_block_core [OF Cons.prems, of p k bi ps pe] by (metis fst_conv prod.collapse snd_conv)
    show ?thesis using Cons.IH [OF e1'(2)] pp e1 e1' by (cases r) simp_all
  qed
qed simp

text \<open>The parameters as the simulated build sees them once its memory is there.\<close>

definition memory_params :: "module_params \<Rightarrow> u32 \<Rightarrow> module_params" where
  "memory_params p area = sim_params p (''0x'' @ fmt_x area) (''0x'' @ fmt_x (area + SIM_MEMORY - 1))"

lemma PAGE_ALIGN_last:
  assumes "4096 dvd unat (e :: u32)"
  shows "PAGE_ALIGN (e - 1) = e"
proof -
  obtain q where q: "unat e = 4096 * q" using assms by (rule dvdE)
  then have "q < 2 ^ 20" using unat_less_2p32 [of e] by simp
  then have u: "unat (4094 + e) = 4096 * q + 4094" using q by (subst unat_plus_no_wrap) simp_all
  have "PAGE_ALIGN (e - 1) = (4094 + e) AND - 4096" by (simp add: PAGE_ALIGN_def PAGE_SIZE_def)
  then have "unat (PAGE_ALIGN (e - 1)) = (4096 * q + 4094) div 4096 * 4096" by (simp only: unat_and_not_4095 u)
  also have "\<dots> = unat e" unfolding q by simp
  finally show ?thesis by (rule word_unat_eq_iff [THEN iffD2])
qed

lemma memory_params_strings:
  "par_start (memory_params p area) 0 = Some (''0x'' @ fmt_x area)"
  "par_end (memory_params p area) 0 = Some (''0x'' @ fmt_x (area + SIM_MEMORY - 1))"
  "par_start (memory_params p area) 1 = None" "par_end (memory_params p area) 1 = None"
  by (simp_all add: memory_params_def sim_params_def)

lemma memory_params_region:
  assumes "4096 dvd unat area" and "unat area + unat SIM_MEMORY < 2 ^ 32"
  shows "region (memory_params p area) 0 = (area, SIM_MEMORY)" and "present (memory_params p area) 0"
    and "\<not> present (memory_params p area) 1"
proof -
  have up: "unat (area + SIM_MEMORY) = unat area + unat SIM_MEMORY" by (rule unat_plus_no_wrap [OF assms(2)])
  have "4096 dvd unat (area + SIM_MEMORY)" using assms(1) unfolding up by (simp add: SIM_MEMORY_def)
  then have "PAGE_ALIGN (area + SIM_MEMORY - 1) = area + SIM_MEMORY" by (rule PAGE_ALIGN_last)
  then show "region (memory_params p area) 0 = (area, SIM_MEMORY)"
    unfolding region_def memory_params_strings option.sel simple_strtol_hex PAGE_ALIGN_id [OF assms(1)] Let_def
    by simp
  show "present (memory_params p area) 0" "\<not> present (memory_params p area) 1"
    by (simp_all add: present_def memory_params_strings memory_params_strings(3,4) [simplified])
qed

lemma identity_sound:
  assumes "4096 dvd unat area" and "unat area + unat SIM_MEMORY < 2 ^ 32"
  shows "kernel_sound (memory_params p area) (identity_mapped k)"
  using memory_params_region [OF assms] assms
  by (auto simp: kernel_sound_def identity_mapped_def less_NBLOCKS)

lemma memory_params_pools [simp]:
  "par_pools (memory_params p area) = par_pools p" "loaded (memory_params p area) (identity_mapped k) = loaded p k"
  by (simp_all add: memory_params_def sim_params_def loaded_def identity_mapped_def)

text \<open>What a load comes to, from the three checks before any memory is asked for on.\<close>

lemma sim_cmem_init_result:
  assumes "area \<noteq> 0"
  shows "sim_cmem_init p k area =
     (if length (par_pools p 0) > MAX_POOLS \<or> length (par_pools p 1) > MAX_POOLS
      then (Fail EINVAL, \<lparr>base = loaded p k, physmem = 0, vmalloced = []\<rparr>)
      else if \<not> chrdev_ok k then (Fail ENODEV, \<lparr>base = loaded p k, physmem = 0, vmalloced = []\<rparr>)
      else case sim_init_blocks (memory_params p area) k [0..<NBLOCKS] ((loaded p k)\<lparr>held := [Chrdev]\<rparr>) of
          (Done _, m) \<Rightarrow> (Done (), \<lparr>base = m, physmem = area, vmalloced = [area]\<rparr>)
        | (Fail e, m) \<Rightarrow> (Fail e, \<lparr>base = unregister_chrdev m, physmem = area, vmalloced = [area]\<rparr>)
        | (Crash f, m) \<Rightarrow> (Crash f, \<lparr>base = m, physmem = area, vmalloced = [area]\<rparr>))"
proof -
  obtain i j buf where g: "get_phys_mem area (replicate TMPBUF_SIZE NUL) = Done (Some (i, j), buf)"
      "sim_params p (c_string i buf) (c_string j buf) = memory_params p area"
    using get_phys_mem_strings [OF assms] unfolding memory_params_def by metis
  have "held (loaded p k) = []" by (simp add: loaded_def)
  then show ?thesis
    using g by (auto simp: sim_cmem_init_def Let_def split: prod.splits res.splits)
qed

lemma fail_after_create_drv [simp]: "drv (fail_after_create m) = drv m"
proof -
  have "drv (fold release_mapping bis m) = drv m" "drv (fold release_region bis m) = drv m" for bis m
    by (induction bis arbitrary: m) (simp_all add: release_mapping_def release_region_def)
  then show ?thesis by (simp add: fail_after_create_def unregister_chrdev_def)
qed

lemma simulated_is_real:
  assumes "area \<noteq> 0"
  shows "fst (sim_cmem_init p k area) = fst (cmem_init (memory_params p area) (identity_mapped k))
       \<and> drv (base (snd (sim_cmem_init p k area))) = drv (snd (cmem_init (memory_params p area) (identity_mapped k)))"
proof -
  let ?p = "memory_params p area" and ?m = "(loaded p k)\<lparr>held := [Chrdev]\<rparr>"
  have "same_core ?m ?m" by (simp add: same_core_iff)
  from sim_init_blocks_core [OF this, of ?p k "[0..<NBLOCKS]"]
  obtain r m m' where r: "sim_init_blocks ?p k [0..<NBLOCKS] ?m = (r, m)"
      "init_blocks ?p (identity_mapped k) [0..<NBLOCKS] ?m = (r, m')" "drv m' = drv m"
    by (cases "sim_init_blocks ?p k [0..<NBLOCKS] ?m"; cases "init_blocks ?p (identity_mapped k) [0..<NBLOCKS] ?m")
       (simp add: same_core_iff del: sim_init_blocks.simps init_blocks.simps)
  have "held (loaded p k) = []" "chrdev_ok (identity_mapped k) = chrdev_ok k"
    by (simp_all add: loaded_def identity_mapped_def)
  then show ?thesis
    unfolding sim_cmem_init_result [OF assms] cmem_init_def Let_def
    using r by (cases r) (simp_all add: unregister_chrdev_def)
qed

text \<open>C10: The simulation build loads as the build for the board does with a kernel that grants and maps
  everything in place: same result, same driver state, although the address of its memory takes the
  way over two strings in a small buffer. A successful load makes block 0 exactly the 20 MB got
  from \<open>vmalloc\<close>, and every run of calls after it keeps the invariant of the driver.\<close>

theorem simulated_load:
  assumes "area \<noteq> 0" and "4096 dvd unat area" and "unat area + unat SIM_MEMORY < 2 ^ 32" and "pool_sizes_ok p"
  shows "(case (sim_cmem_init p k area, cmem_init (memory_params p area) (identity_mapped k)) of
            ((r, s), (r', m)) \<Rightarrow> r = r' \<and> drv (base s) = drv m
              \<and> (r = Done () \<longrightarrow> block_virtp (drv m) 0 = area \<and> block_virtend (drv m) 0 = area + SIM_MEMORY
                    \<and> (\<forall>st. cmem_reach (drv m) st \<longrightarrow> cmem_inv st)))"
proof -
  let ?p = "memory_params p area" and ?k = "identity_mapped k"
  have ps: "pool_sizes_ok ?p" using assms(4) by (simp add: pool_sizes_ok_def)
  note ks = identity_sound [OF assms(2,3), of p k]
  note rg = memory_params_region [OF assms(2,3), of p]
  have "block_virtp (drv m) 0 = area \<and> block_virtend (drv m) 0 = area + SIM_MEMORY
      \<and> (\<forall>st. cmem_reach (drv m) st \<longrightarrow> cmem_inv st)" if m: "cmem_init ?p ?k = (Done (), m)" for m
  proof -
    obtain b1 where l: "loading ?p ?k b1 m" "b1 < NBLOCKS \<longrightarrow> \<not> present ?p b1"
      using cmem_init_loading [OF m ks ps] by blast
    have "b1 \<noteq> 0" using l(2) rg(2) by (cases "b1 = 0") (simp_all add: NBLOCKS_def)
    then have "block_virtp (drv m) 0 = area \<and> block_virtend (drv m) 0 = area + SIM_MEMORY"
      using l(1) rg(1) by (simp add: loading_def identity_mapped_def)
    then show ?thesis using run_from_load(2) [OF m ks ps] by blast
  qed
  then show ?thesis
    using simulated_is_real [OF assms(1), of p k] by (auto split: prod.splits)
qed

theorem simulated_load_witness:
  "fst (sim_cmem_init demo_params demo_kernel 0xE0000000) = Done ()
     \<and> block_virtp (drv (base (snd (sim_cmem_init demo_params demo_kernel 0xE0000000)))) 0 = 0xE0000000"
proof -
  let ?p = "memory_params demo_params 0xE0000000" and ?k = "identity_mapped demo_kernel"
  have a: "(0xE0000000 :: u32) \<noteq> 0" "4096 dvd unat (0xE0000000 :: u32)" "unat (0xE0000000 :: u32) + unat SIM_MEMORY < 2 ^ 32"
    by (simp_all add: SIM_MEMORY_def)
  note rg = memory_params_region [OF a(2,3), of demo_params]
  have pools: "par_pools demo_params 0 = [''2x4096'']" "par_pools demo_params (Suc 0) = []"
    by (simp_all add: demo_params_def)
  have km: "\<forall>b j idx. kmalloc_buffer ?k b idx j \<noteq> None" "chrdev_ok ?k"
    by (simp_all add: identity_mapped_def demo_kernel_def)
  have "block_fits ?p ?k 0"
    using rg(1) demo_sizes a pools
    by (simp add: block_fits_def region_ok_def identity_mapped_def pool_need_def demo_pool MAX_POOLS_def
        pool_sizes_ok_def PAGE_ALIGN_def PAGE_SIZE_def SIM_MEMORY_def)
  then have fit: "\<forall>b<NBLOCKS. present ?p b \<longrightarrow> block_fits ?p ?k b" using rg(3) by (auto simp: less_NBLOCKS)
  have "fst (cmem_init ?p ?k) = Done ()"
    using cmem_init_succeeds [OF km(2) fit _ _ km(1) identity_sound [OF a(2,3)]] rg(2) pools
    by (auto simp: less_NBLOCKS MAX_POOLS_def)
  then show ?thesis
    using simulated_load [OF a demo_sizes, of demo_kernel] by (auto split: prod.splits)
qed

text \<open>Unloading after a successful load gives the memory back. A load that fails after it got the memory
  keeps it for good: \<open>fail_after_create\<close> has no \<open>put_phys_mem\<close>.\<close>

theorem simulated_memory_leaks_on_failure:
  assumes "area \<noteq> 0" and "sim_cmem_init p k area = (r, s)"
  shows "(r = Done () \<longrightarrow> sim_cmem_exit s = (Done es, s') \<longrightarrow> vmalloced s' = [])
       \<and> (r = Fail e \<longrightarrow> length (par_pools p 0) \<le> MAX_POOLS \<longrightarrow> length (par_pools p 1) \<le> MAX_POOLS
            \<longrightarrow> chrdev_ok k \<longrightarrow> vmalloced s = [area])"
  using assms(2) unfolding sim_cmem_init_result [OF assms(1)]
  by (auto simp: sim_cmem_exit_def put_phys_mem_def split: if_splits prod.splits res.splits)

section \<open>Mapping the simulated memory\<close>

lemma map_pages_all:
  assumes "n * 4096 < 2 ^ 32"
    and "\<forall>i<n. remap (start + of_nat i * PAGE_SIZE) (to_pfn (area_ptr + of_nat i * PAGE_SIZE))"
  shows "map_pages to_pfn remap start area_ptr (of_nat (n * 4096)) ms =
     Some (Done (), ms @ map (\<lambda>i. (start + of_nat i * PAGE_SIZE, to_pfn (area_ptr + of_nat i * PAGE_SIZE))) [0..<n])"
  using assms
proof (induction n arbitrary: start area_ptr ms)
  case 0
  then show ?case by (simp add: map_pages.simps)
next
  case (Suc n)
  have nz: "of_nat (Suc n * 4096) \<noteq> (0 :: u32)"
    using Suc.prems(1) by (metis Suc_neq_Zero mult_eq_0_iff numeral_neq_zero unat_0 unat_of_nat_u32)
  have less: "of_nat (Suc n * 4096) - PAGE_SIZE = (of_nat (n * 4096) :: u32)" by (simp add: PAGE_SIZE_def)
  have step: "start + PAGE_SIZE + of_nat i * PAGE_SIZE = start + of_nat (Suc i) * PAGE_SIZE" for start i
    by (simp add: algebra_simps)
  have ok: "\<forall>i<n. remap (start + PAGE_SIZE + of_nat i * PAGE_SIZE) (to_pfn (area_ptr + PAGE_SIZE + of_nat i * PAGE_SIZE))"
    unfolding step using Suc.prems(2) by blast
  have first: "remap start (to_pfn area_ptr)" using Suc.prems(2) by fastforce
  have "map_pages to_pfn remap start area_ptr (of_nat (Suc n * 4096)) ms =
      map_pages to_pfn remap (start + PAGE_SIZE) (area_ptr + PAGE_SIZE) (of_nat (n * 4096)) (ms @ [(start, to_pfn area_ptr)])"
    using nz first by (subst map_pages.simps) (simp only: less if_False simp_thms)
  also have "\<dots> = Some (Done (), (ms @ [(start, to_pfn area_ptr)]) @
      map (\<lambda>i. (start + of_nat (Suc i) * PAGE_SIZE, to_pfn (area_ptr + of_nat (Suc i) * PAGE_SIZE))) [0..<n])"
    using Suc.IH [OF _ ok] Suc.prems(1) unfolding step by simp
  finally show ?case by (simp add: upt_conv_Cons map_Suc_upt [symmetric] del: upt_Suc)
qed

lemma map_pages_partial:
  assumes "map_pages to_pfn remap start area_ptr sz ms = Some (r, ms')" and "\<forall>a f. remap a f"
  shows "4096 dvd unat sz"
proof -
  have "remap = (\<lambda>_ _. True) \<longrightarrow> 4096 dvd unat sz"
  proof (rule map_pages.raw_induct [where P = "\<lambda>to_pfn remap start area_ptr sz ms r.
       remap = (\<lambda>_ _. True) \<longrightarrow> 4096 dvd unat sz", OF _ assms(1)], intro impI)
    fix loop to_pfn remap start area_ptr sz ms r
    assume IH: "\<And>to_pfn remap start area_ptr sz ms r. loop to_pfn remap start area_ptr sz ms = Some r \<Longrightarrow>
         remap = (\<lambda>_ _. True) \<longrightarrow> 4096 dvd unat sz"
      and run: "(if sz = 0 then Some (Done (), ms) else if \<not> remap start (to_pfn area_ptr) then Some (Fail EAGAIN, ms)
         else loop to_pfn remap (start + PAGE_SIZE) (area_ptr + PAGE_SIZE) (sz - PAGE_SIZE) (ms @ [(start, to_pfn area_ptr)])) = Some r"
      and all: "remap = (\<lambda>_ _. True)"
    show "4096 dvd unat sz"
    proof (cases "sz = 0")
      case False
      then have "4096 dvd unat (sz - PAGE_SIZE)" using IH run all by (auto split: if_splits)
      then have "4096 dvd unat (sz - PAGE_SIZE - (- PAGE_SIZE))" by (rule dvd_unat_diff) (simp add: PAGE_SIZE_def)
      then show ?thesis by simp
    qed simp
  qed
  moreover have "remap = (\<lambda>_ _. True)" using assms(2) by (simp add: fun_eq_iff)
  ultimately show ?thesis by blast
qed

text \<open>Mapping a buffer of the simulated memory, when the kernel maps every page: the call returns exactly
  when the range is a whole number of pages, and then each page of the range shows the page of the
  buffer at the same distance from its start.\<close>

theorem sim_mmap_maps_pages:
  assumes "lock_ok io" and "find_busy_entry st (push_bit PAGE_SHIFT (vm_pgoff vma)) = Some x"
    and "\<forall>a f. remap a f"
  shows "sim_mmap io to_pfn remap vma st =
     (if 4096 dvd unat (vm_end vma - vm_start vma)
      then Some (Done (), map (\<lambda>i. (vm_start vma + of_nat i * PAGE_SIZE,
             to_pfn (push_bit PAGE_SHIFT (vm_pgoff vma) + of_nat i * PAGE_SIZE)))
             [0..<unat (vm_end vma - vm_start vma) div 4096])
      else None)"
proof -
  let ?n = "unat (vm_end vma - vm_start vma)"
  have run: "sim_mmap io to_pfn remap vma st = map_vmalloc_area to_pfn remap vma"
    using assms(1,2) by (simp add: sim_mmap_def)
  show ?thesis
  proof (cases "4096 dvd ?n")
    case True
    then have n: "?n div 4096 * 4096 = ?n" by simp
    then have "of_nat (?n div 4096 * 4096) = vm_end vma - vm_start vma" unfolding n by simp
    moreover have "?n div 4096 * 4096 < 2 ^ 32" unfolding n using unat_less_2p32 by simp
    ultimately show ?thesis
      using True assms(3) map_pages_all [of "?n div 4096" remap "vm_start vma" to_pfn _ "[]"] run
      by (simp add: map_vmalloc_area_def)
  next
    case False
    then show ?thesis
      using map_pages_partial [OF _ assms(3)] run
      by (cases "map_vmalloc_area to_pfn remap vma") (auto simp: map_vmalloc_area_def)
  qed
qed

end
