(* ===== verification/BifrostBus.thy ===== *)
theory BifrostBus
  imports Prelude "HOL-Library.State_Monad"
begin

text \<open>
  Access to the FPGA: the memory-mapped register banks (BARs) of the bifrost driver and the
  two ways to reach a register, 32-bit accesses over PCI (\<open>bifrost/bifrost_pci.c\<close>) and
  16-bit accesses over the memory bus (\<open>bifrost/bifrost_membus.c\<close>), and the programming
  sequences built from them. The state is the trace of accesses the hardware has seen; the
  value a read returns is a parameter that may depend on that whole trace.
\<close>

section \<open>Accesses\<close>

text \<open>An access names the bank and the byte address from the start of its mapping.\<close>

datatype access =
    Wr32 nat u32 u32
  | Rd32 nat u32
  | Wr16 nat u32 u16
  | Rd16 nat u32
  | Delay_us nat

type_synonym bus = "access list"
type_synonym hardware = "bus \<Rightarrow> u32"
type_synonym 'a io_prog = "(bus, 'a) state"

definition emit :: "access \<Rightarrow> unit io_prog" where
  "emit a = State (\<lambda>tr. ((), tr @ [a]))"

definition sample :: "hardware \<Rightarrow> access \<Rightarrow> u32 io_prog" where
  "sample hw a = State (\<lambda>tr. (hw (tr @ [a]), tr @ [a]))"

lemma run_emit [simp]: "run_state (emit a) tr = ((), tr @ [a])"
  by (simp add: emit_def)

lemma run_sample [simp]: "run_state (sample hw a) tr = (hw (tr @ [a]), tr @ [a])"
  by (simp add: sample_def)

section \<open>Register banks\<close>

text \<open>\<open>io16\<close> says which pair of access functions the bank's \<open>wr\<close> and \<open>rd\<close> point to.\<close>

record device_memory =
  bar :: nat
  enabled_bar :: bool
  size_bar :: u32
  io16 :: bool

definition write_device_memory :: "nat \<Rightarrow> u32 \<Rightarrow> u32 \<Rightarrow> unit io_prog" where
  "write_device_memory b offset value = emit (Wr32 b offset value)"

definition read_device_memory :: "hardware \<Rightarrow> nat \<Rightarrow> u32 \<Rightarrow> u32 io_prog" where
  "read_device_memory hw b offset = sample hw (Rd32 b offset)"

definition membus_write_device_memory :: "nat \<Rightarrow> u32 \<Rightarrow> u32 \<Rightarrow> unit io_prog" where
  "membus_write_device_memory b offset value = emit (Wr16 b (push_bit 1 offset) (ucast value))"

definition membus_read_device_memory :: "hardware \<Rightarrow> nat \<Rightarrow> u32 \<Rightarrow> u32 io_prog" where
  "membus_read_device_memory hw b offset =
     do { v \<leftarrow> sample hw (Rd16 b (push_bit 1 offset));
          State_Monad.return (ucast (ucast v :: u16)) }"

definition mem_wr :: "device_memory \<Rightarrow> u32 \<Rightarrow> u32 \<Rightarrow> unit io_prog" where
  "mem_wr mem offset value =
     (if io16 mem then membus_write_device_memory (bar mem) offset value
      else write_device_memory (bar mem) offset value)"

definition mem_rd :: "hardware \<Rightarrow> device_memory \<Rightarrow> u32 \<Rightarrow> u32 io_prog" where
  "mem_rd hw mem offset =
     (if io16 mem then membus_read_device_memory hw (bar mem) offset
      else read_device_memory hw (bar mem) offset)"

section \<open>DMA channel registers\<close>

definition VALHALLA_ADDR_DMA_REG_BASE :: u32 where "VALHALLA_ADDR_DMA_REG_BASE = 0x100"
definition VALHALLA_ADDR_DMA_CAPABILITY :: u32 where "VALHALLA_ADDR_DMA_CAPABILITY = VALHALLA_ADDR_DMA_REG_BASE + 0x0C"
definition VALHALLA_ADDR_DMA_STATUS :: u32 where "VALHALLA_ADDR_DMA_STATUS = VALHALLA_ADDR_DMA_REG_BASE + 0x10"
definition VALHALLA_ADDR_DMA_CHAN :: u32 where "VALHALLA_ADDR_DMA_CHAN = VALHALLA_ADDR_DMA_REG_BASE + 0x2C"
definition VALHALLA_ADDR_DMA_SRC_ADDR :: u32 where "VALHALLA_ADDR_DMA_SRC_ADDR = VALHALLA_ADDR_DMA_REG_BASE + 0x18"
definition VALHALLA_ADDR_DMA_DEST_ADDR :: u32 where "VALHALLA_ADDR_DMA_DEST_ADDR = VALHALLA_ADDR_DMA_REG_BASE + 0x1C"
definition VALHALLA_ADDR_DMA_LEN_BYTES :: u32 where "VALHALLA_ADDR_DMA_LEN_BYTES = VALHALLA_ADDR_DMA_REG_BASE + 0x20"
definition VALHALLA_ADDR_DMA_DIR_UP_STRM :: u32 where "VALHALLA_ADDR_DMA_DIR_UP_STRM = VALHALLA_ADDR_DMA_REG_BASE + 0x24"
definition VALHALLA_ADDR_DMA_START :: u32 where "VALHALLA_ADDR_DMA_START = VALHALLA_ADDR_DMA_REG_BASE + 0x28"

text \<open>The channel is selected before its registers are written; the start bit comes last.\<close>

definition bifrost_dma_chan_start :: "device_memory \<Rightarrow> nat \<Rightarrow> u32 \<Rightarrow> u32 \<Rightarrow> u32 \<Rightarrow> u32 \<Rightarrow> unit io_prog" where
  "bifrost_dma_chan_start mem c s d l r =
     do { mem_wr mem VALHALLA_ADDR_DMA_CHAN (of_nat c);
          mem_wr mem VALHALLA_ADDR_DMA_SRC_ADDR s;
          mem_wr mem VALHALLA_ADDR_DMA_DEST_ADDR d;
          mem_wr mem VALHALLA_ADDR_DMA_DIR_UP_STRM r;
          mem_wr mem VALHALLA_ADDR_DMA_LEN_BYTES l;
          mem_wr mem VALHALLA_ADDR_DMA_START 1 }"

section \<open>SDRAM over the memory bus\<close>

definition FPGA_MEM_TIME :: nat where "FPGA_MEM_TIME = 30"
definition FPGA_WR_BIT :: u32 where "FPGA_WR_BIT = 0x8000"
definition FPGA_RD_BIT :: u32 where "FPGA_RD_BIT = 0"

definition FPGA_ADDR_HI :: "u32 \<Rightarrow> u32" where
  "FPGA_ADDR_HI a = drop_bit 16 a AND NOT FPGA_WR_BIT"

definition FPGA_ADDR_LO :: "u32 \<Rightarrow> u32" where
  "FPGA_ADDR_LO a = a AND 0xFFFE"

text \<open>The burst functions repeat 16-bit accesses to one address; an odd last byte is not moved.\<close>

fun iowrite16_rep :: "nat \<Rightarrow> u16 list \<Rightarrow> unit io_prog" where
  "iowrite16_rep b [] = State_Monad.return ()"
| "iowrite16_rep b (w # ws) = do { emit (Wr16 b 0 w); iowrite16_rep b ws }"

fun ioread16_rep :: "hardware \<Rightarrow> nat \<Rightarrow> nat \<Rightarrow> u16 list io_prog" where
  "ioread16_rep hw b 0 = State_Monad.return []"
| "ioread16_rep hw b (Suc n) =
     do { v \<leftarrow> sample hw (Rd16 b 0);
          ws \<leftarrow> ioread16_rep hw b n;
          State_Monad.return (ucast v # ws) }"

definition fpgawrite :: "nat \<Rightarrow> u16 list \<Rightarrow> u32 \<Rightarrow> unit io_prog" where
  "fpgawrite b source n = iowrite16_rep b (take (unat (drop_bit 1 n)) source)"

definition fpgaread :: "hardware \<Rightarrow> nat \<Rightarrow> u32 \<Rightarrow> u16 list io_prog" where
  "fpgaread hw b n = ioread16_rep hw b (unat (drop_bit 1 n))"

text \<open>The source and the destination are buffers of halfwords in memory order.\<close>

definition WriteSDRAM :: "u16 list \<Rightarrow> u32 \<Rightarrow> u32 \<Rightarrow> unit io_prog" where
  "WriteSDRAM source addr sz =
     do { membus_write_device_memory 0 1 FPGA_RD_BIT;
          membus_write_device_memory 0 0 (FPGA_ADDR_LO addr);
          membus_write_device_memory 0 1 (FPGA_ADDR_HI addr OR FPGA_WR_BIT);
          emit (Delay_us FPGA_MEM_TIME);
          fpgawrite 1 source sz }"

definition ReadSDRAM :: "hardware \<Rightarrow> u32 \<Rightarrow> u32 \<Rightarrow> u16 list io_prog" where
  "ReadSDRAM hw addr sz =
     do { membus_write_device_memory 0 1 FPGA_WR_BIT;
          membus_write_device_memory 0 0 (FPGA_ADDR_LO addr);
          membus_write_device_memory 0 1 (FPGA_ADDR_HI addr);
          emit (Delay_us FPGA_MEM_TIME);
          fpgaread hw 1 sz }"

definition BIFROST_DMA_DIRECTION_UP :: int where "BIFROST_DMA_DIRECTION_UP = 0"
definition BIFROST_DMA_DIRECTION_DOWN :: int where "BIFROST_DMA_DIRECTION_DOWN = 1"

text \<open>The transfer between the kernel buffer \<open>buf\<close> and the SDRAM, and the buffer after it.\<close>

definition do_membus_xfer :: "hardware \<Rightarrow> u16 list \<Rightarrow> u32 \<Rightarrow> u32 \<Rightarrow> int \<Rightarrow> (u16 list res) io_prog" where
  "do_membus_xfer hw buf dev_addr sz up_down =
     (if up_down = BIFROST_DMA_DIRECTION_DOWN then
        do { WriteSDRAM buf dev_addr sz; State_Monad.return (Done buf) }
      else if up_down = BIFROST_DMA_DIRECTION_UP then
        do { ws \<leftarrow> ReadSDRAM hw dev_addr sz;
             State_Monad.return (Done (ws @ drop (length ws) buf)) }
      else State_Monad.return (Fail EINVAL))"

end
