(* ===== verification/FifoInterface.thy ===== *)
theory FifoInterface
  imports Prelude
begin

text \<open>
  The contract of a bounded first-in first-out queue that refuses an element when it is
  full, as the event queue of a user handle promises it to the producers of events and to
  the readers. The client lemmas describe whole bursts of puts and gets.
\<close>

locale bounded_fifo =
  fixes ok :: "'s \<Rightarrow> bool"
    and items :: "'s \<Rightarrow> 'a list"
    and put :: "'a \<Rightarrow> 's \<Rightarrow> 's"
    and get :: "'s \<Rightarrow> ('a \<times> 's) option"
    and capacity :: nat
  assumes bounded: "ok s \<Longrightarrow> length (items s) \<le> capacity"
    and put_law: "ok s \<Longrightarrow>
      ok (put x s) \<and> items (put x s) = (if length (items s) < capacity then items s @ [x] else items s)"
    and get_law: "ok s \<Longrightarrow>
      (case get s of None \<Rightarrow> items s = [] | Some (x, s') \<Rightarrow> ok s' \<and> items s = x # items s')"
begin

definition put_all :: "'a list \<Rightarrow> 's \<Rightarrow> 's" where
  "put_all xs s = fold put xs s"

fun get_n :: "nat \<Rightarrow> 's \<Rightarrow> 'a list \<times> 's" where
  "get_n 0 s = ([], s)"
| "get_n (Suc n) s =
     (case get s of
        None \<Rightarrow> ([], s)
      | Some (x, s') \<Rightarrow> let (xs, s'') = get_n n s' in (x # xs, s''))"

lemma put_all_items:
  "ok s \<Longrightarrow> ok (put_all xs s) \<and> items (put_all xs s) = take capacity (items s @ xs)"
proof (induction xs arbitrary: s)
  case Nil
  then show ?case using bounded by (simp add: put_all_def)
next
  case (Cons x xs)
  have p: "ok (put x s)" "items (put x s) = (if length (items s) < capacity then items s @ [x] else items s)"
    using put_law [OF Cons.prems] by auto
  have "put_all (x # xs) s = put_all xs (put x s)" by (simp add: put_all_def)
  then show ?case
    using Cons.IH [OF p(1)] p(2) bounded [OF Cons.prems]
    by (cases "length (items s) < capacity") (auto simp: take_Cons')
qed

lemma get_n_items:
  "ok s \<Longrightarrow> ok (snd (get_n n s)) \<and> fst (get_n n s) = take n (items s)
     \<and> items (snd (get_n n s)) = drop n (items s)"
proof (induction n arbitrary: s)
  case (Suc n)
  show ?case
  proof (cases "get s")
    case None
    then show ?thesis using get_law [OF Suc.prems] Suc.prems by simp
  next
    case (Some p)
    obtain x s' where p: "p = (x, s')" by (cases p)
    have "ok s'" "items s = x # items s'" using get_law [OF Suc.prems] Some p by auto
    then show ?thesis using Some p Suc.IH [of s'] by (auto split: prod.splits)
  qed
qed simp

lemma burst:
  assumes "ok s" and "items s = []"
  shows "fst (get_n n (put_all xs s)) = take n (take capacity xs)"
  using put_all_items [OF assms(1), of xs] get_n_items assms(2) by simp

end

text \<open>
  The contract of an unbounded queue that accepts valid elements only, as the simulated I2C bus
  promises it to its senders and to the simulator.
\<close>

locale fifo =
  fixes ok :: "'s \<Rightarrow> bool"
    and valid :: "'a \<Rightarrow> bool"
    and items :: "'s \<Rightarrow> 'a list"
    and put :: "'a \<Rightarrow> 's \<Rightarrow> 's"
    and get :: "'s \<Rightarrow> ('a \<times> 's) option"
  assumes put_law: "ok s \<Longrightarrow> valid x \<Longrightarrow> ok (put x s) \<and> items (put x s) = items s @ [x]"
    and get_law: "ok s \<Longrightarrow>
      (case get s of None \<Rightarrow> items s = [] | Some (x, s') \<Rightarrow> ok s' \<and> items s = x # items s')"
begin

fun get_n :: "nat \<Rightarrow> 's \<Rightarrow> 'a list \<times> 's" where
  "get_n 0 s = ([], s)"
| "get_n (Suc n) s =
     (case get s of
        None \<Rightarrow> ([], s)
      | Some (x, s') \<Rightarrow> let (xs, s'') = get_n n s' in (x # xs, s''))"

lemma put_all_items:
  "ok s \<Longrightarrow> \<forall>x\<in>set xs. valid x \<Longrightarrow> ok (fold put xs s) \<and> items (fold put xs s) = items s @ xs"
  by (induction xs arbitrary: s) (simp_all add: put_law)

lemma get_n_items: "ok s \<Longrightarrow> fst (get_n n s) = take n (items s)"
proof (induction n arbitrary: s)
  case (Suc n)
  then show ?case using get_law [OF Suc.prems] by (auto split: option.splits prod.splits) (metis fst_conv)
qed simp

lemma burst:
  assumes "ok s" and "items s = []" and "\<forall>x\<in>set xs. valid x"
  shows "fst (get_n (length xs) (fold put xs s)) = xs"
  using put_all_items [OF assms(1,3)] get_n_items assms(2) by simp

end

end
