(* ===== verification/BifrostEvents.thy ===== *)
theory BifrostEvents
  imports FifoInterface
begin

text \<open>
  User handles and events of the bifrost driver (\<open>bifrost/bifrost_cdev.c\<close>, and the work
  queue of \<open>bifrost/bifrost_main.c\<close>): every open file has a handle with a bounded queue of
  events and two masks that select what is queued on it. The data of an event is a C union;
  it is modelled as its six 32-bit words, so that what one view writes and another one
  reads, and what nobody wrote, is visible.
\<close>

section \<open>Events\<close>

definition BIFROST_EVENT_BUFFER_SIZE :: nat where "BIFROST_EVENT_BUFFER_SIZE = 20"

definition BIFROST_EVENT_TYPE_IRQ :: u32 where "BIFROST_EVENT_TYPE_IRQ = 1"
definition BIFROST_EVENT_TYPE_DMA_DONE :: u32 where "BIFROST_EVENT_TYPE_DMA_DONE = 8"

record event =
  ev_type :: u32
  ev_data :: "u32 list"
  received :: int
  forwarded :: int

text \<open>The views of the union: \<open>irq_source\<close> is word 0 of each; \<open>irqstatus.value\<close> and
  \<open>frame.frameNo\<close> are word 1, \<open>frame.frameSize\<close> word 2, \<open>frame.time\<close> words 3 and 4;
  \<open>dma.id\<close> is word 0, \<open>dma.time\<close> words 2 and 3, \<open>dma.cookie\<close> words 4 and 5.\<close>

definition irq_source :: "event \<Rightarrow> u32" where "irq_source e = ev_data e ! 0"
definition dma_cookie :: "event \<Rightarrow> u32" where "dma_cookie e = ev_data e ! 4"

definition set_word :: "nat \<Rightarrow> u32 \<Rightarrow> event \<Rightarrow> event" where
  "set_word n v e = e\<lparr>ev_data := (ev_data e)[n := v]\<rparr>"

lemma ev_data_set_word [simp]: "ev_data (set_word n v e) = (ev_data e)[n := v]"
  and ev_type_set_word [simp]: "ev_type (set_word n v e) = ev_type e"
  by (simp_all add: set_word_def)

section \<open>User handles\<close>

text \<open>A handle is known by its kernel address; the driver's list of handles is in list order.
  \<open>wakeups\<close> counts the calls that wake the pollers of the handle.\<close>

record user_handle =
  h_addr :: u32
  event_enable_mask :: u32
  irq_forwarding_mask :: u32
  event_list :: "event list"
  event_list_count :: u32
  wakeups :: nat

definition dequeue_event :: "user_handle \<Rightarrow> (event \<times> user_handle) option" where
  "dequeue_event h =
     (case event_list h of
        [] \<Rightarrow> None
      | p # rest \<Rightarrow> Some (p, h\<lparr>event_list := rest, event_list_count := event_list_count h - 1\<rparr>))"

definition enqueue_event :: "event \<Rightarrow> user_handle \<Rightarrow> unit res \<times> user_handle" where
  "enqueue_event p h =
     (if event_list_count h \<ge> of_nat BIFROST_EVENT_BUFFER_SIZE then (Fail ENOSPC, h)
      else (Done (), h\<lparr>event_list := event_list h @ [p], event_list_count := event_list_count h + 1\<rparr>))"

definition enqueue_on_this_handle :: "user_handle \<Rightarrow> event \<Rightarrow> bool" where
  "enqueue_on_this_handle h e =
     (if ev_type e AND event_enable_mask h = 0 then False
      else if ev_type e = BIFROST_EVENT_TYPE_IRQ then
        irq_forwarding_mask h AND irq_source e \<noteq> 0
      else if ev_type e = BIFROST_EVENT_TYPE_DMA_DONE then
        h_addr h = dma_cookie e
      else True)"

text \<open>One handle's part of \<open>bifrost_create_event\<close>; \<open>alloc\<close> says whether the atomic allocation
  of the copy succeeds. The handle is woken even when its queue was full.\<close>

definition post_event :: "bool \<Rightarrow> event \<Rightarrow> user_handle \<Rightarrow> user_handle" where
  "post_event alloc e h =
     (if enqueue_on_this_handle h e then
        if alloc then (let h' = snd (enqueue_event e h) in h'\<lparr>wakeups := wakeups h' + 1\<rparr>)
        else h
      else h)"

definition bifrost_create_event ::
    "(u32 \<Rightarrow> bool) \<Rightarrow> int \<Rightarrow> event \<Rightarrow> user_handle list \<Rightarrow> user_handle list" where
  "bifrost_create_event alloc now e hs =
     (let e = e\<lparr>received := now\<rparr>
      in map (\<lambda>h. post_event (alloc (h_addr h)) e h) hs)"

section \<open>open, release and poll\<close>

definition new_handle :: "u32 \<Rightarrow> user_handle" where
  "new_handle a = \<lparr>h_addr = a, event_enable_mask = 0, irq_forwarding_mask = 0, event_list = [],
     event_list_count = 0, wakeups = 0\<rparr>"

text \<open>\<open>kzalloc\<close> returns a fresh address or NULL. The new handle is the first of the list.\<close>

definition bifrost_open :: "u32 option \<Rightarrow> user_handle list \<Rightarrow> u32 res \<times> user_handle list" where
  "bifrost_open mem hs =
     (case mem of
        None \<Rightarrow> (Fail ENOMEM, hs)
      | Some a \<Rightarrow> (Done a, new_handle a # hs))"

definition find_handle :: "u32 \<Rightarrow> user_handle list \<Rightarrow> user_handle option" where
  "find_handle a hs = find (\<lambda>h. h_addr h = a) hs"

definition update_handle :: "u32 \<Rightarrow> (user_handle \<Rightarrow> user_handle) \<Rightarrow> user_handle list \<Rightarrow> user_handle list" where
  "update_handle a f hs = map (\<lambda>h. if h_addr h = a then f h else h) hs"

definition bifrost_release :: "u32 \<Rightarrow> user_handle list \<Rightarrow> user_handle list" where
  "bifrost_release a hs = filter (\<lambda>h. h_addr h \<noteq> a) hs"

definition POLLIN_RDNORM :: u32 where
  "POLLIN_RDNORM = 0x1 OR 0x40"

definition bifrost_poll :: "user_handle \<Rightarrow> u32" where
  "bifrost_poll h = (if event_list h = [] then 0 else POLLIN_RDNORM)"

section \<open>Events from interrupt context\<close>

text \<open>
  An interrupt handler hands a copy of the event to the single-threaded work queue, or
  drops it when the pool has no memory; the work queue creates the events one by one in
  that order.
\<close>

definition bifrost_create_event_in_atomic :: "bool \<Rightarrow> event \<Rightarrow> event list \<Rightarrow> event list" where
  "bifrost_create_event_in_atomic mempool_ok e works = (if mempool_ok then works @ [e] else works)"

definition work_create_event ::
    "(u32 \<Rightarrow> bool) \<Rightarrow> int \<Rightarrow> event list \<times> user_handle list \<Rightarrow> event list \<times> user_handle list" where
  "work_create_event alloc now w =
     (case w of
        ([], hs) \<Rightarrow> ([], hs)
      | (e # rest, hs) \<Rightarrow> (rest, bifrost_create_event alloc now e hs))"

section \<open>The queue of a handle is a bounded queue\<close>

definition handle_ok :: "user_handle \<Rightarrow> bool" where
  "handle_ok h \<longleftrightarrow> unat (event_list_count h) = length (event_list h)
     \<and> length (event_list h) \<le> BIFROST_EVENT_BUFFER_SIZE"

interpretation event_queue: bounded_fifo handle_ok event_list
    "\<lambda>e h. snd (enqueue_event e h)" dequeue_event BIFROST_EVENT_BUFFER_SIZE
proof unfold_locales
  fix h assume "handle_ok h"
  then show "length (event_list h) \<le> BIFROST_EVENT_BUFFER_SIZE" by (simp add: handle_ok_def)
next
  fix h e assume ok: "handle_ok h"
  have full: "event_list_count h \<ge> of_nat BIFROST_EVENT_BUFFER_SIZE
      \<longleftrightarrow> \<not> length (event_list h) < BIFROST_EVENT_BUFFER_SIZE"
    using ok by (auto simp: handle_ok_def word_le_nat_alt BIFROST_EVENT_BUFFER_SIZE_def)
  have "unat (event_list_count h + 1) = unat (event_list_count h) + 1"
    if "unat (event_list_count h) < 20"
    using that unat_plus_no_wrap [of "event_list_count h" 1] by simp
  with full ok show "handle_ok (snd (enqueue_event e h)) \<and> event_list (snd (enqueue_event e h))
      = (if length (event_list h) < BIFROST_EVENT_BUFFER_SIZE then event_list h @ [e] else event_list h)"
    by (auto simp: enqueue_event_def handle_ok_def BIFROST_EVENT_BUFFER_SIZE_def)
next
  fix h assume ok: "handle_ok h"
  have "unat (event_list_count h - 1) = unat (event_list_count h) - 1" if "1 \<le> unat (event_list_count h)"
    using that unat_minus_no_wrap [of 1 "event_list_count h"] by simp
  with ok show "case dequeue_event h of None \<Rightarrow> event_list h = []
      | Some (e, h') \<Rightarrow> handle_ok h' \<and> event_list h = e # event_list h'"
    by (auto simp: dequeue_event_def handle_ok_def split: list.splits)
qed

lemma enqueue_event_fields [simp]:
  "h_addr (snd (enqueue_event e h)) = h_addr h"
  "event_enable_mask (snd (enqueue_event e h)) = event_enable_mask h"
  "irq_forwarding_mask (snd (enqueue_event e h)) = irq_forwarding_mask h"
  by (simp_all add: enqueue_event_def)

lemma post_event_fields [simp]:
  "h_addr (post_event a e h) = h_addr h"
  "event_enable_mask (post_event a e h) = event_enable_mask h"
  "irq_forwarding_mask (post_event a e h) = irq_forwarding_mask h"
  by (simp_all add: post_event_def Let_def)

lemma post_event_items:
  assumes "handle_ok h"
  shows "handle_ok (post_event a e h)"
    and "event_list (post_event a e h) =
      (if enqueue_on_this_handle h e \<and> a \<and> length (event_list h) < BIFROST_EVENT_BUFFER_SIZE
       then event_list h @ [e] else event_list h)"
  using assms event_queue.put_law [OF assms, of e]
  by (auto simp: post_event_def Let_def handle_ok_def)

end
