(* ===== verification/BifrostDma.thy ===== *)
theory BifrostDma
  imports Prelude
begin

text \<open>
  The DMA controller of the bifrost driver (\<open>bifrost/bifrost_dma.c\<close>): channels with a
  transfer in progress, a bitmap of idle channels and a queue of waiting requests. The
  callback \<open>start_xfer\<close> that programs a channel is a function argument over the state of
  the hardware, as it is a function pointer in the code; \<open>now\<close> is the clock in nanoseconds.
  Each function runs under the lock of the controller; an interrupt for a channel arrives
  only after the channel was started, so a call is one step.
\<close>

section \<open>Requests, channels and the controller\<close>

definition MAX_DMA_CHANNELS :: nat where
  "MAX_DMA_CHANNELS = 32"

definition VALHALLA_ADDR_DMA_DIR_UP_STRM_DOWN :: u32 where
  "VALHALLA_ADDR_DMA_DIR_UP_STRM_DOWN = 0"

definition VALHALLA_ADDR_DMA_DIR_UP_STRM_UP :: u32 where
  "VALHALLA_ADDR_DMA_DIR_UP_STRM_UP = 1"

text \<open>\<open>pwork\<close> is the completion the starter waits on, by its number; \<open>cookie\<close> the address
  of the user handle.\<close>

record dma_req =
  src :: u32
  dst :: u32
  len :: u32
  dir :: u32
  ticket :: u32
  cookie :: u32
  ts :: int
  pwork :: "nat option"

record dma_ch =
  irq :: int
  in_progress :: "dma_req option"

record dma_ctl =
  queue :: "dma_req list"
  num_ch :: u32
  idle_bitmap :: u32
  ch :: "dma_ch list"

type_synonym 'h start_xfer = "nat \<Rightarrow> u32 \<Rightarrow> u32 \<Rightarrow> u32 \<Rightarrow> u32 \<Rightarrow> 'h \<Rightarrow> 'h"

definition get_xfer_time_ns :: "int \<Rightarrow> int \<Rightarrow> int" where
  "get_xfer_time_ns now start = now - start"

definition kick_off_xfer :: "'h start_xfer \<Rightarrow> nat \<Rightarrow> dma_req \<Rightarrow> 'h \<Rightarrow> 'h" where
  "kick_off_xfer start_xfer c req hw = start_xfer c (src req) (dst req) (len req) (dir req) hw"

definition set_in_progress :: "nat \<Rightarrow> dma_req option \<Rightarrow> dma_ctl \<Rightarrow> dma_ctl" where
  "set_in_progress c r ctl = ctl\<lparr>ch := (ch ctl)[c := (ch ctl ! c)\<lparr>in_progress := r\<rparr>]\<rparr>"

text \<open>The ticket counter is a static atomic; the ticket is never negative as an \<open>int\<close>.\<close>

definition get_ticket :: "u32 \<Rightarrow> u32 \<times> u32" where
  "get_ticket counter = (let c = counter + 1 in (c AND 0x7fffffff, c))"

text \<open>\<open>ffs\<close> of the kernel: one more than the number of the lowest set bit, 0 if there is none.\<close>

definition ffs :: "u32 \<Rightarrow> int" where
  "ffs x = (case find (bit x) [0..<32] of None \<Rightarrow> 0 | Some n \<Rightarrow> int n + 1)"

definition find_1st_idle_chan :: "dma_ctl \<Rightarrow> nat res \<times> dma_ctl" where
  "find_1st_idle_chan ctl =
     (let c = ffs (idle_bitmap ctl) - 1
      in if c < 0 then (Fail EBUSY, ctl)
         else (Done (nat c), ctl\<lparr>idle_bitmap := idle_bitmap ctl AND NOT (push_bit (nat c) 1)\<rparr>))"

definition free_chan :: "nat \<Rightarrow> dma_ctl \<Rightarrow> dma_ctl" where
  "free_chan c ctl = ctl\<lparr>idle_bitmap := idle_bitmap ctl OR push_bit c 1\<rparr>"

definition lookup_chan :: "dma_ctl \<Rightarrow> int \<Rightarrow> nat option" where
  "lookup_chan ctl i = find (\<lambda>n. irq (ch ctl ! n) = i) [0..<unat (num_ch ctl)]"

definition alloc_dma_ctl :: "int \<Rightarrow> u32 \<Rightarrow> dma_ctl" where
  "alloc_dma_ctl n idle_map =
     \<lparr>queue = [], num_ch = word_of_int (min n (int MAX_DMA_CHANNELS)), idle_bitmap = idle_map,
      ch = replicate MAX_DMA_CHANNELS \<lparr>irq = 0, in_progress = None\<rparr>\<rparr>"

definition enable_dma_ch :: "nat \<Rightarrow> int \<Rightarrow> dma_ctl \<Rightarrow> dma_ctl" where
  "enable_dma_ch c i ctl = ctl\<lparr>ch := (ch ctl)[c := (ch ctl ! c)\<lparr>irq := i\<rparr>]\<rparr>"

definition alloc_dma_req :: "u32 \<Rightarrow> u32 \<Rightarrow> dma_req \<times> u32" where
  "alloc_dma_req counter hnd =
     (let (t, counter') = get_ticket counter
      in (\<lparr>src = 0, dst = 0, len = 0, dir = 0, ticket = t, cookie = hnd, ts = 0, pwork = None\<rparr>, counter'))"

section \<open>Starting a transfer\<close>

text \<open>The start time is written into the request after the channel holds it.\<close>

definition start_dma_xfer ::
    "'h start_xfer \<Rightarrow> int \<Rightarrow> dma_req \<Rightarrow> dma_ctl \<Rightarrow> 'h \<Rightarrow> dma_ctl \<times> 'h" where
  "start_dma_xfer start_xfer now req ctl hw =
     (case find_1st_idle_chan ctl of
        (Done c, ctl') \<Rightarrow>
          (set_in_progress c (Some (req\<lparr>ts := now\<rparr>)) ctl', kick_off_xfer start_xfer c req hw)
      | (_, ctl') \<Rightarrow> (ctl'\<lparr>queue := queue ctl' @ [req]\<rparr>, hw))"

section \<open>Statistics\<close>

text \<open>The counters are \<open>unsigned long\<close>, 32 bits on the target; \<open>do_div\<close> divides by the low
  32 bits of the time.\<close>

record bifrost_stats =
  enabled :: bool
  ioctls :: u32
  read_buf :: u32
  write_buf :: u32
  read_b :: u32
  write_b :: u32
  write_speed_avg :: u32
  write_speed_last :: u32
  read_speed_avg :: u32
  read_speed_last :: u32

definition NSEC_PER_SEC :: u64 where
  "NSEC_PER_SEC = 1000000000"

definition running_average :: "u32 \<Rightarrow> u32 \<Rightarrow> u32 \<Rightarrow> u32" where
  "running_average avg n speed = avg * (n - 1) div n + speed div n"

definition add_stats :: "dma_req \<Rightarrow> int \<Rightarrow> bifrost_stats \<Rightarrow> bifrost_stats res" where
  "add_stats req time s =
     (if time = 0 then Done s
      else
        let base = (word_of_int time :: u32)
        in if base = 0 then Crash Div_by_zero
           else
             let speed = (ucast ((ucast (len req) * NSEC_PER_SEC) div ucast base :: u64) :: u32)
             in if dir req = VALHALLA_ADDR_DMA_DIR_UP_STRM_DOWN then
                  let s = s\<lparr>write_speed_last := speed, write_b := write_b s + len req,
                            write_buf := write_buf s + 1\<rparr>
                  in if write_buf s = 0 then Crash Div_by_zero
                     else Done (s\<lparr>write_speed_avg :=
                       running_average (write_speed_avg s) (write_buf s) (write_speed_last s)\<rparr>)
                else if dir req = VALHALLA_ADDR_DMA_DIR_UP_STRM_UP then
                  let s = s\<lparr>read_speed_last := speed, read_b := read_b s + len req,
                            read_buf := read_buf s + 1\<rparr>
                  in if read_buf s = 0 then Crash Div_by_zero
                     else Done (s\<lparr>read_speed_avg :=
                       running_average (read_speed_avg s) (read_buf s) (read_speed_last s)\<rparr>)
                else Done s)"

section \<open>The completion interrupt\<close>

text \<open>
  \<open>dma_done\<close> returns the finished request's ticket, its time and its cookie, and completes
  the waiter. A result is the finished request, the elapsed time and the completion that
  was signalled; an interrupt of no channel, or of an idle one, is spurious.
\<close>

record done_info =
  di_ticket :: u32
  di_time :: int
  di_cookie :: u32
  di_complete :: "nat option"

definition next_xfer :: "'h start_xfer \<Rightarrow> int \<Rightarrow> nat \<Rightarrow> dma_ctl \<Rightarrow> 'h \<Rightarrow> dma_ctl \<times> 'h" where
  "next_xfer start_xfer now c ctl hw =
     (case queue ctl of
        req # rest \<Rightarrow>
          (set_in_progress c (Some (req\<lparr>ts := now\<rparr>)) (ctl\<lparr>queue := rest\<rparr>), kick_off_xfer start_xfer c req hw)
      | [] \<Rightarrow> (free_chan c ctl, hw))"

definition dma_done ::
    "'h start_xfer \<Rightarrow> int \<Rightarrow> int \<Rightarrow> dma_ctl \<Rightarrow> bifrost_stats \<Rightarrow> 'h
      \<Rightarrow> done_info res \<times> dma_ctl \<times> bifrost_stats \<times> 'h" where
  "dma_done start_xfer now i ctl stats hw =
     (case lookup_chan ctl i of
        None \<Rightarrow> (Fail EINVAL, ctl, stats, hw)
      | Some c \<Rightarrow>
          (case in_progress (ch ctl ! c) of
             None \<Rightarrow> (Fail EINVAL, ctl, stats, hw)
           | Some req \<Rightarrow>
               let ctl1 = set_in_progress c None ctl; time = get_xfer_time_ns now (ts req)
               in case (if enabled stats then add_stats req time stats else Done stats) of
                    Done stats' \<Rightarrow>
                      let (ctl2, hw') = next_xfer start_xfer now c ctl1 hw
                      in (Done \<lparr>di_ticket = ticket req, di_time = time, di_cookie = cookie req,
                                di_complete = pwork req\<rparr>, ctl2, stats', hw')
                  | Crash f \<Rightarrow> (Crash f, ctl1, stats, hw)
                  | Fail err \<Rightarrow> (Fail err, ctl1, stats, hw)))"

end
