(* ===== verification/BifrostDevice.thy ===== *)
theory BifrostDevice
  imports BifrostBus BifrostEvents BifrostDma
begin

text \<open>
  The bifrost device (\<open>struct bifrost_device\<close> of \<open>bifrost/bifrost.h\<close>), the platforms it
  runs on (\<open>bifrost/bifrost_platform.c\<close>), the checked access to its register banks from
  user space (\<open>bifrost/bifrost_cdev.c\<close>), the setup of the banks and of the DMA controller
  (\<open>bifrost/bifrost_pci.c\<close>, \<open>bifrost/bifrost_membus.c\<close>) and the interrupt handlers of the
  PCI side.
\<close>

section \<open>Platforms\<close>

text \<open>\<open>mach\<close> is \<open>of_machine_is_compatible\<close>, the device tree of the machine.\<close>

type_synonym machine = "string \<Rightarrow> bool"

definition platform_rocky :: "machine \<Rightarrow> bool" where "platform_rocky mach = mach ''fsl,imx6q''"
definition platform_evander :: "machine \<Rightarrow> bool" where "platform_evander mach = mach ''fsl,imx6dl''"
definition platform_eoco :: "machine \<Rightarrow> bool" where "platform_eoco mach = mach ''fsl,imx6qp-eoco''"
definition platform_ec702 :: "machine \<Rightarrow> bool" where "platform_ec702 mach = mach ''fsl,imx6qp-ec702''"

definition platform_fvd :: "machine \<Rightarrow> bool" where
  "platform_fvd mach \<longleftrightarrow> platform_rocky mach \<or> platform_evander mach \<or> platform_eoco mach
     \<or> platform_ec702 mach"

section \<open>The device\<close>

text \<open>\<open>live\<close> are the completions that exist, each on the stack of the ioctl that waits for it,
  and \<open>signalled\<close> those that were completed. \<open>saved_size\<close> and \<open>saved_virt\<close> are the buffer
  kept for DMA from and to user memory.\<close>

record bifrost_device =
  regb :: "device_memory list"
  regb_dma :: nat
  membus :: bool
  handles :: "user_handle list"
  works :: "event list"
  bstats :: bifrost_stats
  dctl :: "dma_ctl option"
  tickets :: u32
  bus :: bus
  live :: "nat list"
  signalled :: "nat list"
  saved_size :: u32
  saved_virt :: "u32 option"

text \<open>Running a bus program on the device.\<close>

definition on_bus :: "'a io_prog \<Rightarrow> bifrost_device \<Rightarrow> 'a \<times> bifrost_device" where
  "on_bus prog d = (let (x, tr) = run_state prog (bus d) in (x, d\<lparr>bus := tr\<rparr>))"

section \<open>Access from user space\<close>

definition RD_ACCESS :: u32 where "RD_ACCESS = 1"
definition WR_ACCESS :: u32 where "WR_ACCESS = 2"
definition EV_ACCESS :: u32 where "EV_ACCESS = 4"

definition user_space_bar_access :: "u32 list" where
  "user_space_bar_access = [5, 7, 7, 7, 7, 7]"

definition user_space_bar_access_fvd :: "u32 list" where
  "user_space_bar_access_fvd = [7, 7, 0, 7, 0, 0]"

definition user_space_membus_access :: "u32 list" where
  "user_space_membus_access = [7, 7, 0, 0, 0, 0]"

definition check_bar_access :: "machine \<Rightarrow> bifrost_device \<Rightarrow> u32 \<Rightarrow> u32 \<Rightarrow> u32 \<Rightarrow> unit res" where
  "check_bar_access mach d b access offset =
     (if b \<ge> 6 then Fail EINVAL
      else if \<not> enabled_bar (regb d ! unat b) then Fail EFAULT
      else
        let mask = access AND (if platform_fvd mach then user_space_bar_access_fvd ! unat b
                               else if membus d then user_space_membus_access ! unat b
                               else user_space_bar_access ! unat b)
        in if access \<noteq> mask then Fail EACCES
           else if offset \<ge> size_bar (regb d ! unat b) then Fail EFAULT
           else Done ())"

definition do_read_regb ::
    "hardware \<Rightarrow> machine \<Rightarrow> u32 \<Rightarrow> u32 \<Rightarrow> bifrost_device \<Rightarrow> u32 res \<times> bifrost_device" where
  "do_read_regb hw mach b offset d =
     (case check_bar_access mach d b RD_ACCESS offset of
        Done _ \<Rightarrow> (let (v, d') = on_bus (mem_rd hw (regb d ! unat b) offset) d in (Done v, d'))
      | Fail e \<Rightarrow> (Fail e, d)
      | Crash f \<Rightarrow> (Crash f, d))"

definition do_write_regb ::
    "machine \<Rightarrow> u32 \<Rightarrow> u32 \<Rightarrow> u32 \<Rightarrow> bifrost_device \<Rightarrow> unit res \<times> bifrost_device" where
  "do_write_regb mach b offset value d =
     (case check_bar_access mach d b WR_ACCESS offset of
        Done _ \<Rightarrow> (let (v, d') = on_bus (mem_wr (regb d ! unat b) offset value) d in (Done (), d'))
      | Fail e \<Rightarrow> (Fail e, d)
      | Crash f \<Rightarrow> (Crash f, d))"

definition do_modify_regb ::
    "hardware \<Rightarrow> machine \<Rightarrow> u32 \<Rightarrow> u32 \<Rightarrow> u32 \<Rightarrow> u32 \<Rightarrow> bifrost_device \<Rightarrow> u32 res \<times> bifrost_device" where
  "do_modify_regb hw mach b offset clear setb d =
     (case check_bar_access mach d b (RD_ACCESS OR WR_ACCESS) offset of
        Done _ \<Rightarrow>
          let mem = regb d ! unat b;
              (v, d1) = on_bus (mem_rd hw mem offset) d;
              v' = (v AND NOT clear) OR setb;
              (_, d2) = on_bus (mem_wr mem offset v') d1
          in (Done v', d2)
      | Fail e \<Rightarrow> (Fail e, d)
      | Crash f \<Rightarrow> (Crash f, d))"

section \<open>Setting up the register banks\<close>

text \<open>Over PCI the size of a bank is the length of the PCI resource; \<open>iomap\<close> says which
  mappings succeed.\<close>

definition init_device_memory_pci :: "(nat \<Rightarrow> u32) \<Rightarrow> nat \<Rightarrow> device_memory" where
  "init_device_memory_pci resource_len n =
     \<lparr>bar = n, enabled_bar = False, size_bar = resource_len n, io16 = False\<rparr>"

definition map_device_memory_pci :: "(nat \<Rightarrow> bool) \<Rightarrow> device_memory \<Rightarrow> unit res \<times> device_memory" where
  "map_device_memory_pci iomap mem =
     (if size_bar mem = 0 then (Fail EINVAL, mem)
      else if \<not> iomap (bar mem) then (Fail EFAULT, mem)
      else (Done (), mem\<lparr>enabled_bar := True\<rparr>))"

definition setup_io_regions_pci :: "(nat \<Rightarrow> u32) \<Rightarrow> (nat \<Rightarrow> bool) \<Rightarrow> bifrost_device \<Rightarrow> nat \<times> bifrost_device" where
  "setup_io_regions_pci resource_len iomap d =
     (let rs = map (\<lambda>n. map_device_memory_pci iomap (init_device_memory_pci resource_len n)) [0..<6]
      in (length (filter (\<lambda>(r, _). r = Done ()) rs), d\<lparr>regb := map snd rs\<rparr>))"

text \<open>On the memory bus every bank claims four kilobytes and two chip selects exist.\<close>

definition SZ_4K :: u32 where "SZ_4K = 4096"

definition init_device_memory_membus :: "nat \<Rightarrow> device_memory" where
  "init_device_memory_membus n = \<lparr>bar = n, enabled_bar = False, size_bar = SZ_4K, io16 = True\<rparr>"

definition map_device_memory_membus :: "(nat \<Rightarrow> bool) \<Rightarrow> device_memory \<Rightarrow> unit res \<times> device_memory" where
  "map_device_memory_membus iomap mem =
     (if size_bar mem = 0 then (Fail EINVAL, mem)
      else if bar mem \<ge> 2 then (Fail EINVAL, mem)
      else if \<not> iomap (bar mem) then (Fail EFAULT, mem)
      else (Done (), mem\<lparr>enabled_bar := True\<rparr>))"

definition setup_io_regions_membus :: "(nat \<Rightarrow> bool) \<Rightarrow> bifrost_device \<Rightarrow> nat \<times> bifrost_device" where
  "setup_io_regions_membus iomap d =
     (let rs = map (\<lambda>n. map_device_memory_membus iomap (init_device_memory_membus n)) [0..<6]
      in (length (filter (\<lambda>(r, _). r = Done ()) rs), d\<lparr>regb := map snd rs\<rparr>))"

definition remove_io_regions :: "bifrost_device \<Rightarrow> bifrost_device" where
  "remove_io_regions d = d\<lparr>regb := map (\<lambda>mem. mem\<lparr>enabled_bar := False\<rparr>) (regb d)\<rparr>"

text \<open>The bytes of the mapping of a bank: what was mapped is \<open>size_bar\<close> bytes long.\<close>

fun access_span :: "access \<Rightarrow> (nat \<times> nat \<times> nat) option" where
  "access_span (Wr32 b a v) = Some (b, unat a, 4)"
| "access_span (Rd32 b a) = Some (b, unat a, 4)"
| "access_span (Wr16 b a v) = Some (b, unat a, 2)"
| "access_span (Rd16 b a) = Some (b, unat a, 2)"
| "access_span (Delay_us n) = None"

section \<open>The DMA controller of the device\<close>

definition bifrost_dma_init ::
    "hardware \<Rightarrow> machine \<Rightarrow> bool \<Rightarrow> int \<Rightarrow> bifrost_device \<Rightarrow> unit res \<times> bifrost_device" where
  "bifrost_dma_init hw mach kzalloc_ok irq0 d =
     (let n = (if platform_rocky mach then 3
               else if platform_evander mach \<or> platform_eoco mach \<or> platform_ec702 mach then 2
               else 0);
          d = d\<lparr>regb_dma := n\<rparr>;
          (cap, d) = on_bus (mem_rd hw (regb d ! n) VALHALLA_ADDR_DMA_CAPABILITY) d;
          num = cap AND 0xf;
          (status, d) = on_bus (mem_rd hw (regb d ! n) VALHALLA_ADDR_DMA_STATUS) d;
          idle_map = NOT status AND (push_bit (unat num) 1 - 1)
      in if \<not> kzalloc_ok then (Fail ENOMEM, d\<lparr>dctl := None\<rparr>)
         else (Done (), d\<lparr>dctl := Some (fold (\<lambda>c. enable_dma_ch c (irq0 + int c)) [0..<unat num]
                (alloc_dma_ctl (uint num) idle_map))\<rparr>))"

text \<open>The callback that programs a channel of the device.\<close>

definition dev_start_xfer :: "device_memory \<Rightarrow> bus start_xfer" where
  "dev_start_xfer mem c s t l r tr = snd (run_state (bifrost_dma_chan_start mem c s t l r) tr)"

definition map_msi_to_event :: "nat \<Rightarrow> u32" where
  "map_msi_to_event vec = push_bit vec 1"

definition map_event_to_msi :: "u32 \<Rightarrow> nat res" where
  "map_event_to_msi ev = (let vec = ffs ev - 1 in if vec < 0 then Fail EINVAL else Done (nat vec))"

text \<open>
  The handlers of the message-signaled interrupts. The event is a local variable that is
  not cleared: \<open>junk\<close> is what the stack held. A completion that no longer exists is
  written through a dangling pointer.
\<close>

definition dma_msi_handler ::
    "int \<Rightarrow> bool \<Rightarrow> u32 list \<Rightarrow> int \<Rightarrow> bifrost_device \<Rightarrow> unit res \<times> bifrost_device" where
  "dma_msi_handler now mempool_ok junk i d =
     (case dctl d of
        None \<Rightarrow> (Crash Null_deref, d)
      | Some ctl \<Rightarrow>
          let (r, ctl', stats', tr') =
                dma_done (dev_start_xfer (regb d ! regb_dma d)) now i ctl (bstats d) (bus d)
          in case r of
               Crash f \<Rightarrow> (Crash f, d)
             | Fail _ \<Rightarrow> (Done (), d)
             | Done info \<Rightarrow>
                 if \<exists>w\<in>set_option (di_complete info). w \<notin> set (live d) then (Crash Use_after_free, d)
                 else
                   let e = \<lparr>ev_type = BIFROST_EVENT_TYPE_DMA_DONE,
                            ev_data = junk[0 := di_ticket info, 2 := word_of_int (di_time info),
                              3 := word_of_int (di_time info div 2 ^ 32), 4 := di_cookie info, 5 := 0],
                            received = 0, forwarded = 0\<rparr>
                   in (Done (), d\<lparr>dctl := Some ctl', bstats := stats', bus := tr',
                         signalled := (case di_complete info of None \<Rightarrow> signalled d | Some w \<Rightarrow> w # signalled d),
                         works := bifrost_create_event_in_atomic mempool_ok e (works d)\<rparr>))"

definition default_msi_handler :: "bool \<Rightarrow> u32 list \<Rightarrow> nat \<Rightarrow> bifrost_device \<Rightarrow> bifrost_device" where
  "default_msi_handler mempool_ok junk vec d =
     (let e = \<lparr>ev_type = BIFROST_EVENT_TYPE_IRQ, ev_data = junk[0 := map_msi_to_event vec],
               received = 0, forwarded = 0\<rparr>
      in d\<lparr>works := bifrost_create_event_in_atomic mempool_ok e (works d)\<rparr>)"

end
