(* ===== verification/BifrostIoctl.thy ===== *)
theory BifrostIoctl
  imports BifrostDevice
begin

text \<open>
  The ioctl commands of the bifrost driver and the start of transfers
  (\<open>bifrost/bifrost_cdev.c\<close>). A command comes with its argument structure; the kernel
  services it uses (user copies, allocations, DMA mappings) are fields of an \<open>io\<close> record.
  A transfer from or to a user buffer blocks until its completion or a timeout: the call is
  two steps, the start and the end, between which interrupts happen.
\<close>

section \<open>Services, commands and replies\<close>

text \<open>\<open>user_words\<close> is the buffer after the copy of the user's words (the rest zeroed),
  \<open>user_half\<close> the same for a memory bus transfer, \<open>left_out\<close> the number of bytes
  \<open>copy_to_user\<close> could not copy; \<open>completion\<close> is the fresh completion on the stack.\<close>

record bio =
  copy_in :: bool
  copy_out :: bool
  copy_in2 :: bool
  kmalloc_ok :: bool
  req_alloc :: bool
  dma_alloc :: "u32 option"
  map_single :: u32
  completion :: nat
  user_words :: "u32 list"
  user_half :: "u16 list"
  left_out :: nat

record dma_transfer =
  system :: u32
  device :: u32
  xsize :: u32

datatype bif_cmd =
    INFO
  | READ_REGB u32 u32
  | READ_RANGE_REGB u32 u32 u32
  | READ_REPEAT_REGB u32 u32 u32
  | WRITE_REGB u32 u32 u32
  | WRITE_REPEAT_REGB u32 u32 u32
  | MODIFY_REGB u32 u32 u32 u32
  | START_DMA bool int dma_transfer
  | ENABLE_EVENT u32
  | IRQ_FORWARDING u32
  | DEQUEUE_EVENT
  | SET_REGB_MODE u32 u32 u32
  | RESET_DMA
  | UNKNOWN

datatype bif_reply = No_reply | Version nat nat nat | Words "u32 list" | Halfwords "u16 list" | Event event | Blocked nat

text \<open>The encoding of the commands (\<open>_IOC\<close> of the kernel): direction, number and size of the
  argument structure on a 32-bit machine; the type is \<open>BIFROST_IOC_MAGIC\<close>.\<close>

datatype ioc_dir = IO | IOW | IOR | IOWR

definition BIFROST_IOC_MAGIC :: nat where "BIFROST_IOC_MAGIC = 66"

fun bif_ioctl_code :: "bif_cmd \<Rightarrow> (ioc_dir \<times> nat \<times> nat \<times> nat) option" where
  "bif_ioctl_code INFO = Some (IOR, BIFROST_IOC_MAGIC, 0, 3)"
| "bif_ioctl_code (READ_REGB b off) = Some (IOWR, BIFROST_IOC_MAGIC, 1, 12)"
| "bif_ioctl_code (WRITE_REGB b off v) = Some (IOW, BIFROST_IOC_MAGIC, 2, 12)"
| "bif_ioctl_code (MODIFY_REGB b off clear setb) = Some (IOWR, BIFROST_IOC_MAGIC, 3, 20)"
| "bif_ioctl_code (READ_RANGE_REGB b off n) = Some (IOWR, BIFROST_IOC_MAGIC, 4, 16)"
| "bif_ioctl_code (READ_REPEAT_REGB b off n) = Some (IOWR, BIFROST_IOC_MAGIC, 5, 16)"
| "bif_ioctl_code (WRITE_REPEAT_REGB b off n) = Some (IOWR, BIFROST_IOC_MAGIC, 6, 16)"
| "bif_ioctl_code (START_DMA user up_down x) =
     (if up_down = BIFROST_DMA_DIRECTION_UP then Some (IOW, BIFROST_IOC_MAGIC, if user then 13 else 10, 12)
      else if up_down = BIFROST_DMA_DIRECTION_DOWN then Some (IOW, BIFROST_IOC_MAGIC, if user then 12 else 11, 12)
      else None)"
| "bif_ioctl_code (ENABLE_EVENT m) = Some (IOW, BIFROST_IOC_MAGIC, 20, 4)"
| "bif_ioctl_code (IRQ_FORWARDING m) = Some (IOW, BIFROST_IOC_MAGIC, 21, 4)"
| "bif_ioctl_code DEQUEUE_EVENT = Some (IOR, BIFROST_IOC_MAGIC, 22, 48)"
| "bif_ioctl_code (SET_REGB_MODE b off mode) = Some (IOW, BIFROST_IOC_MAGIC, 52, 12)"
| "bif_ioctl_code RESET_DMA = Some (IO, BIFROST_IOC_MAGIC, 53, 0)"
| "bif_ioctl_code UNKNOWN = None"

type_synonym 'a call = "'a res \<times> bifrost_device"

definition fail_as :: "'b res \<Rightarrow> 'a res" where
  "fail_as r = (case r of Fail e \<Rightarrow> Fail e | Crash f \<Rightarrow> Crash f | Done _ \<Rightarrow> Crash Uninitialised)"

section \<open>Register ranges\<close>

text \<open>
  \<open>sz\<close> is the size of the allocated buffer in bytes, \<open>4 * count\<close> in 32 bits; \<open>n\<close> registers
  are left from index \<open>i\<close>. The access to the register comes before the store into the
  buffer.
\<close>

fun read_regs ::
    "hardware \<Rightarrow> machine \<Rightarrow> u32 \<Rightarrow> u32 \<Rightarrow> u32 \<Rightarrow> u32 \<Rightarrow> nat \<Rightarrow> u32 \<Rightarrow> u32 list \<Rightarrow> bifrost_device
      \<Rightarrow> u32 list call" where
  "read_regs hw mach b offset incr sz 0 i buf d = (Done buf, d)"
| "read_regs hw mach b offset incr sz (Suc n) i buf d =
     (case do_read_regb hw mach b (offset + i * incr) d of
        (Done v, d') \<Rightarrow>
          if 4 * unat i + 4 > unat sz then (Crash Out_of_bounds, d')
          else read_regs hw mach b offset incr sz n (i + 1) (buf @ [v]) d'
      | (r, d') \<Rightarrow> (fail_as r, d'))"

fun write_regs ::
    "machine \<Rightarrow> u32 \<Rightarrow> u32 \<Rightarrow> u32 \<Rightarrow> nat \<Rightarrow> u32 \<Rightarrow> u32 list \<Rightarrow> bifrost_device \<Rightarrow> unit call" where
  "write_regs mach b offset sz 0 i buf d = (Done (), d)"
| "write_regs mach b offset sz (Suc n) i buf d =
     (if 4 * unat i + 4 > unat sz then (Crash Out_of_bounds, d)
      else case do_write_regb mach b offset (buf ! unat i) d of
        (Done _, d') \<Rightarrow> write_regs mach b offset sz n (i + 1) buf d'
      | (r, d') \<Rightarrow> (r, d'))"

section \<open>DMA transfers\<close>

text \<open>The bounce buffer of a user transfer only ever grows.\<close>

definition prepare_dma_buffer ::
    "bio \<Rightarrow> int \<Rightarrow> dma_transfer \<Rightarrow> bifrost_device \<Rightarrow> dma_transfer call" where
  "prepare_dma_buffer io up_down xfer d =
     (if xsize xfer = 0 then (Fail EFAULT, d)
      else
        let grow = xsize xfer > saved_size d;
            d = (if grow then
                   d\<lparr>saved_size := (if dma_alloc io = None then 0 else xsize xfer), saved_virt := dma_alloc io\<rparr>
                 else d)
        in if grow \<and> dma_alloc io = None then (Fail ENOMEM, d)
           else if up_down = BIFROST_DMA_DIRECTION_DOWN \<and> \<not> copy_in2 io then (Fail ENOMEM, d)
           else
             let bus_addr = (if up_down = BIFROST_DMA_DIRECTION_DOWN \<or> up_down = BIFROST_DMA_DIRECTION_UP
                             then map_single io else 0)
             in if bus_addr = 0 then (Fail ENOMEM, d)
                else (Done (xfer\<lparr>system := bus_addr\<rparr>), d))"

definition dma_req_for :: "int \<Rightarrow> dma_transfer \<Rightarrow> dma_req \<Rightarrow> dma_req option" where
  "dma_req_for up_down xfer req =
     (if up_down = BIFROST_DMA_DIRECTION_DOWN then
        Some (req\<lparr>src := system xfer, dst := device xfer, len := xsize xfer,
                  dir := VALHALLA_ADDR_DMA_DIR_UP_STRM_DOWN\<rparr>)
      else if up_down = BIFROST_DMA_DIRECTION_UP then
        Some (req\<lparr>src := device xfer, dst := system xfer, len := xsize xfer,
                  dir := VALHALLA_ADDR_DMA_DIR_UP_STRM_UP\<rparr>)
      else None)"

definition dev_start_dma :: "int \<Rightarrow> dma_req \<Rightarrow> bifrost_device \<Rightarrow> unit call" where
  "dev_start_dma now req d =
     (case dctl d of
        None \<Rightarrow> (Crash Null_deref, d)
      | Some ctl \<Rightarrow>
          let (ctl', tr') = start_dma_xfer (dev_start_xfer (regb d ! regb_dma d)) now req ctl (bus d)
          in (Done (), d\<lparr>dctl := Some ctl', bus := tr'\<rparr>))"

definition do_dma_start_xfer ::
    "bio \<Rightarrow> int \<Rightarrow> dma_transfer \<Rightarrow> int \<Rightarrow> u32 \<Rightarrow> bool \<Rightarrow> bifrost_device \<Rightarrow> (int \<times> bif_reply) call" where
  "do_dma_start_xfer io now xfer up_down hnd user d =
     (if \<not> req_alloc io then (Fail ENOMEM, d)
      else
        let (req, counter) = alloc_dma_req (tickets d) hnd;
            d = d\<lparr>tickets := counter\<rparr>;
            (r, d) = (if user then prepare_dma_buffer io up_down xfer d else (Done xfer, d))
        in case r of
             Fail _ \<Rightarrow> (Fail ENOMEM, d)
           | Crash f \<Rightarrow> (Crash f, d)
           | Done xfer \<Rightarrow>
               (case dma_req_for up_down xfer (if user then req\<lparr>pwork := Some (completion io)\<rparr> else req) of
                  None \<Rightarrow> (Fail EINVAL, d)
                | Some req \<Rightarrow>
                    let d = (if user then d\<lparr>live := completion io # live d\<rparr> else d)
                    in case dev_start_dma now req d of
                         (Crash f, d) \<Rightarrow> (Crash f, d)
                       | (Fail e, d) \<Rightarrow> (Fail e, d)
                       | (Done _, d) \<Rightarrow>
                           (Done (sint (ticket req), if user then Blocked (completion io) else No_reply), d)))"

text \<open>
  The end of a blocked transfer: after the completion or a second, the function returns
  and its completion is gone with its stack frame.
\<close>

definition finish_dma_buffer :: "bio \<Rightarrow> int \<Rightarrow> nat \<Rightarrow> int \<Rightarrow> bifrost_device \<Rightarrow> int call" where
  "finish_dma_buffer io up_down w t d =
     (let d' = d\<lparr>live := removeAll w (live d)\<rparr>
      in if w \<notin> set (signalled d) then (Fail ETIMEDOUT, d')
         else if up_down = BIFROST_DMA_DIRECTION_UP \<and> \<not> copy_out io then (Fail ETIMEDOUT, d')
         else (Done t, d'))"

text \<open>On the memory bus the transfer is done by the processor. A partial copy from user space is
  not noticed; the number of bytes a copy to user space left out is returned.\<close>

definition membus_xfer :: "hardware \<Rightarrow> bio \<Rightarrow> dma_transfer \<Rightarrow> int \<Rightarrow> bifrost_device \<Rightarrow> (int \<times> bif_reply) call" where
  "membus_xfer hw io xfer up_down d =
     (if \<not> kmalloc_ok io then (Fail ENOMEM, d)
      else
        let buf = (if up_down = BIFROST_DMA_DIRECTION_DOWN then user_half io
                   else replicate (unat (xsize xfer) div 2) 0);
            (r, d) = on_bus (do_membus_xfer hw buf (device xfer) (xsize xfer) up_down) d
        in case r of
             Fail e \<Rightarrow> (Fail e, d)
           | Crash f \<Rightarrow> (Crash f, d)
           | Done buf' \<Rightarrow>
               if up_down = BIFROST_DMA_DIRECTION_UP then (Done (int (left_out io), Halfwords buf'), d)
               else (Done (0, No_reply), d))"

definition bifrost_do_xfer ::
    "hardware \<Rightarrow> bio \<Rightarrow> int \<Rightarrow> u32 \<Rightarrow> bool \<Rightarrow> int \<Rightarrow> dma_transfer \<Rightarrow> bifrost_device \<Rightarrow> (int \<times> bif_reply) call" where
  "bifrost_do_xfer hw io now hnd user up_down xfer d =
     (if \<not> copy_in io then (Fail EFAULT, d)
      else if membus d then membus_xfer hw io xfer up_down d
      else do_dma_start_xfer io now xfer up_down hnd user d)"

section \<open>The ioctl entry point\<close>

definition on_handle :: "u32 \<Rightarrow> (user_handle \<Rightarrow> user_handle) \<Rightarrow> bifrost_device \<Rightarrow> bifrost_device" where
  "on_handle a f d = d\<lparr>handles := update_handle a f (handles d)\<rparr>"

definition ioctl_dequeue :: "bio \<Rightarrow> int \<Rightarrow> u32 \<Rightarrow> bifrost_device \<Rightarrow> (int \<times> bif_reply) call" where
  "ioctl_dequeue io now a d =
     (case find_handle a (handles d) of
        None \<Rightarrow> (Crash Use_after_free, d)
      | Some h \<Rightarrow>
          (case dequeue_event h of
             None \<Rightarrow> (Fail EINVAL, d)
           | Some (e, h') \<Rightarrow>
               let d' = on_handle a (\<lambda>_. h') d
               in if \<not> copy_out io then (Fail EFAULT, d')
                  else (Done (0, Event (e\<lparr>forwarded := now\<rparr>)), d')))"

definition ioctl_read_range ::
    "hardware \<Rightarrow> machine \<Rightarrow> bio \<Rightarrow> u32 \<Rightarrow> u32 \<Rightarrow> u32 \<Rightarrow> u32 \<Rightarrow> bifrost_device \<Rightarrow> (int \<times> bif_reply) call" where
  "ioctl_read_range hw mach io incr b offset cnt d =
     (if \<not> copy_in io then (Fail ENOMEM, d)
      else if \<not> kmalloc_ok io then (Fail ENOMEM, d)
      else case read_regs hw mach b offset incr (4 * cnt) (unat cnt) 0 [] d of
        (Done buf, d') \<Rightarrow>
          if \<not> copy_out io then (Fail EFAULT, d') else (Done (0, Words buf), d')
      | (r, d') \<Rightarrow> (fail_as r, d'))"

definition ioctl_write_repeat ::
    "machine \<Rightarrow> bio \<Rightarrow> u32 \<Rightarrow> u32 \<Rightarrow> u32 \<Rightarrow> bifrost_device \<Rightarrow> (int \<times> bif_reply) call" where
  "ioctl_write_repeat mach io b offset cnt d =
     (if \<not> copy_in io then (Fail ENOMEM, d)
      else if \<not> kmalloc_ok io then (Fail ENOMEM, d)
      else case write_regs mach b offset (4 * cnt) (unat cnt) 0 (user_words io) d of
        (Done _, d') \<Rightarrow>
          if \<not> copy_in2 io \<and> cnt = 0 then (Fail EFAULT, d') else (Done (0, No_reply), d')
      | (r, d') \<Rightarrow> (fail_as r, d'))"

definition ioctl_modify ::
    "hardware \<Rightarrow> machine \<Rightarrow> bio \<Rightarrow> u32 \<Rightarrow> u32 \<Rightarrow> u32 \<Rightarrow> u32 \<Rightarrow> bifrost_device \<Rightarrow> (int \<times> bif_reply) call" where
  "ioctl_modify hw mach io b offset clear setb d =
     (if \<not> copy_in io then (Fail EFAULT, d)
      else case do_modify_regb hw mach b offset clear setb d of
        (Done v, d') \<Rightarrow> if \<not> copy_out io then (Fail EFAULT, d') else (Done (0, Words [v]), d')
      | (r, d') \<Rightarrow> (fail_as r, d'))"

definition ioctl_read :: "hardware \<Rightarrow> machine \<Rightarrow> bio \<Rightarrow> u32 \<Rightarrow> u32 \<Rightarrow> bifrost_device \<Rightarrow> (int \<times> bif_reply) call" where
  "ioctl_read hw mach io b offset d =
     (if \<not> copy_in io then (Fail ENOMEM, d)
      else case do_read_regb hw mach b offset d of
        (Done v, d') \<Rightarrow> if \<not> copy_out io then (Fail EFAULT, d') else (Done (0, Words [v]), d')
      | (r, d') \<Rightarrow> (fail_as r, d'))"

definition ioctl_write :: "machine \<Rightarrow> bio \<Rightarrow> u32 \<Rightarrow> u32 \<Rightarrow> u32 \<Rightarrow> bifrost_device \<Rightarrow> (int \<times> bif_reply) call" where
  "ioctl_write mach io b offset v d =
     (if \<not> copy_in io then (Fail ENOMEM, d)
      else case do_write_regb mach b offset v d of
        (Done _, d') \<Rightarrow> (Done (0, No_reply), d')
      | (r, d') \<Rightarrow> (fail_as r, d'))"

definition ioctl_set_mode :: "machine \<Rightarrow> bio \<Rightarrow> u32 \<Rightarrow> u32 \<Rightarrow> bifrost_device \<Rightarrow> (int \<times> bif_reply) call" where
  "ioctl_set_mode mach io b offset d =
     (if \<not> copy_in io then (Fail ENOMEM, d)
      else (case check_bar_access mach d b EV_ACCESS offset of
              Done _ \<Rightarrow> Done (0, No_reply) | r \<Rightarrow> fail_as r, d))"

definition bifrost_ioctl ::
    "hardware \<Rightarrow> machine \<Rightarrow> bio \<Rightarrow> int \<Rightarrow> u32 \<Rightarrow> bif_cmd \<Rightarrow> bifrost_device \<Rightarrow> (int \<times> bif_reply) call" where
  "bifrost_ioctl hw mach io now a cmd d0 =
     (let d = d0\<lparr>bstats := (bstats d0)\<lparr>ioctls := ioctls (bstats d0) + 1\<rparr>\<rparr>
      in case cmd of
           INFO \<Rightarrow> if \<not> copy_out io then (Fail EFAULT, d) else (Done (0, Version 0 1 2), d)
         | READ_REGB b off \<Rightarrow> ioctl_read hw mach io b off d
         | READ_RANGE_REGB b off n \<Rightarrow> ioctl_read_range hw mach io 4 b off n d
         | READ_REPEAT_REGB b off n \<Rightarrow> ioctl_read_range hw mach io 0 b off n d
         | WRITE_REGB b off v \<Rightarrow> ioctl_write mach io b off v d
         | WRITE_REPEAT_REGB b off n \<Rightarrow> ioctl_write_repeat mach io b off n d
         | MODIFY_REGB b off clear setb \<Rightarrow> ioctl_modify hw mach io b off clear setb d
         | START_DMA user up_down xfer \<Rightarrow> bifrost_do_xfer hw io now a user up_down xfer d
         | ENABLE_EVENT m \<Rightarrow> (Done (0, No_reply), on_handle a (\<lambda>h. h\<lparr>event_enable_mask := m\<rparr>) d)
         | IRQ_FORWARDING m \<Rightarrow> (Done (0, No_reply), on_handle a (\<lambda>h. h\<lparr>irq_forwarding_mask := m\<rparr>) d)
         | DEQUEUE_EVENT \<Rightarrow> ioctl_dequeue io now a d
         | SET_REGB_MODE b off mode \<Rightarrow> ioctl_set_mode mach io b off d
         | RESET_DMA \<Rightarrow> (Done (0, No_reply), d)
         | UNKNOWN \<Rightarrow> (Fail ENOTTY, d))"

section \<open>open, release and the work queue\<close>

definition dev_open :: "u32 option \<Rightarrow> bifrost_device \<Rightarrow> u32 call" where
  "dev_open mem d = (let (r, hs) = bifrost_open mem (handles d) in (r, d\<lparr>handles := hs\<rparr>))"

definition dev_release :: "u32 \<Rightarrow> bifrost_device \<Rightarrow> bifrost_device" where
  "dev_release a d = d\<lparr>handles := bifrost_release a (handles d)\<rparr>"

definition dev_work :: "(u32 \<Rightarrow> bool) \<Rightarrow> int \<Rightarrow> bifrost_device \<Rightarrow> bifrost_device" where
  "dev_work alloc now d =
     (let (ws, hs) = work_create_event alloc now (works d, handles d) in d\<lparr>works := ws, handles := hs\<rparr>)"

end
