(* ===== verification/UsimEvents.thy ===== *)
theory UsimEvents
  imports Prelude
begin

text \<open>
  The event queue of the I2C simulator (\<open>animal-i2c/i2c_usim.c\<close>). A sender in the kernel posts
  an event and waits for it; the simulator, a process, takes it with one ioctl and gives the
  answer with another. Events are kernel memory with a reference count: an event is known by
  its address, a number, and an access to an event that was freed is a value of its own,
  \<open>Crash Use_after_free\<close>. The event queue is a list of addresses. A state of the driver is a value of
  type \<open>usim\<close>, and every operation returns the next one.
\<close>

section \<open>Events\<close>

text \<open>The constants of \<open>i2c_usim.h\<close>.\<close>

definition READ_ACCESS :: u32 where "READ_ACCESS = 1"
definition WRITE_ACCESS :: u32 where "WRITE_ACCESS = 2"
definition I2C :: u32 where "I2C = 1"
definition SMB :: u32 where "SMB = 2"

definition EVENT_TYPE :: "u32 \<Rightarrow> u32 \<Rightarrow> u32" where
  "EVENT_TYPE protocol access = push_bit 16 protocol OR (access AND 0xffff)"

definition ACCESS_TYPE :: "u32 \<Rightarrow> u32" where "ACCESS_TYPE e = e AND 0xffff"
definition BUS_TYPE :: "u32 \<Rightarrow> u32" where "BUS_TYPE e = drop_bit 16 e AND 0xffff"

definition I2C_USIM_I2C_READ :: u32 where "I2C_USIM_I2C_READ = EVENT_TYPE I2C READ_ACCESS"
definition I2C_USIM_I2C_WRITE :: u32 where "I2C_USIM_I2C_WRITE = EVENT_TYPE I2C WRITE_ACCESS"
definition I2C_USIM_SMB_READ :: u32 where "I2C_USIM_SMB_READ = EVENT_TYPE SMB READ_ACCESS"
definition I2C_USIM_SMB_WRITE :: u32 where "I2C_USIM_SMB_WRITE = EVENT_TYPE SMB WRITE_ACCESS"

datatype event_state = STATE_READY | STATE_IN_PROGRESS | STATE_DONE

text \<open>The data area has \<open>DATA_SIZE\<close> bytes. The status is 0 (\<open>None\<close>) or an error.\<close>

definition DATA_SIZE :: nat where "DATA_SIZE = 512"

record usim_event =
  refcnt :: nat
  ue_ticket :: u32
  ue_status :: "errno option"
  ue_state :: event_state
  ue_type :: u32
  ue_bus :: u32
  ue_addr :: u32
  ue_len :: u32
  ue_data :: "u8 list"

record usim =
  ev_at :: "nat \<Rightarrow> usim_event option"
  eventq :: "nat list"
  next_addr :: nat
  last_ticket :: u32
  usim_users :: nat

definition set_event :: "nat \<Rightarrow> usim_event option \<Rightarrow> usim \<Rightarrow> usim" where
  "set_event a e st = st\<lparr>ev_at := (ev_at st)(a := e)\<rparr>"

text \<open>Every access to an event goes through its address.\<close>

definition with_event :: "nat \<Rightarrow> usim \<Rightarrow> (usim_event \<Rightarrow> 'r res \<times> usim) \<Rightarrow> 'r res \<times> usim" where
  "with_event a st f = (case ev_at st a of None \<Rightarrow> (Crash Use_after_free, st) | Some e \<Rightarrow> f e)"

text \<open>\<open>kzalloc\<close> returns memory in use by nobody else, filled with zeroes. State 0 is READY.\<close>

definition alloc_event :: "bool \<Rightarrow> usim \<Rightarrow> nat option \<times> usim" where
  "alloc_event kzalloc st =
     (if \<not> kzalloc then (None, st)
      else
        let a = next_addr st;
            e = \<lparr>refcnt = 1, ue_ticket = last_ticket st + 1, ue_status = None, ue_state = STATE_READY,
                 ue_type = 0, ue_bus = 0, ue_addr = 0, ue_len = 0, ue_data = replicate DATA_SIZE 0\<rparr>
        in (Some a, (set_event a (Some e) st)\<lparr>next_addr := a + 1, last_ticket := last_ticket st + 1\<rparr>))"

definition usim_post_event :: "nat \<Rightarrow> usim \<Rightarrow> unit res \<times> usim" where
  "usim_post_event a st = with_event a st (\<lambda>e.
     (Done (), (set_event a (Some (e\<lparr>ue_state := STATE_READY\<rparr>)) st)\<lparr>eventq := eventq st @ [a]\<rparr>))"

text \<open>The end of the wait of a sender, \<open>None\<close> while it is blocked: it goes on when the event is
  done, or when a signal arrives.\<close>

definition wait_event_completion :: "nat \<Rightarrow> bool \<Rightarrow> usim \<Rightarrow> (errno option res \<times> usim) option" where
  "wait_event_completion a signal st =
     (case ev_at st a of
        None \<Rightarrow> Some (Crash Use_after_free, st)
      | Some e \<Rightarrow>
          if ue_state e \<noteq> STATE_DONE \<and> \<not> signal then None
          else
            let v = (if ue_state e = STATE_DONE then None else Some ERESTARTSYS);
                st = st\<lparr>eventq := remove1 a (eventq st)\<rparr>
            in Some (Done (if ue_status e = None then v else ue_status e), st))"

definition get_event :: "nat \<Rightarrow> usim \<Rightarrow> unit res \<times> usim" where
  "get_event a st = with_event a st (\<lambda>e. (Done (), set_event a (Some (e\<lparr>refcnt := refcnt e + 1\<rparr>)) st))"

definition put_event :: "nat \<Rightarrow> usim \<Rightarrow> unit res \<times> usim" where
  "put_event a st = with_event a st (\<lambda>e.
     (Done (), set_event a (if refcnt e = 1 then None else Some (e\<lparr>refcnt := refcnt e - 1\<rparr>)) st))"

text \<open>The walks over the queue.\<close>

fun first_ready :: "usim \<Rightarrow> nat list \<Rightarrow> nat option res" where
  "first_ready st [] = Done None"
| "first_ready st (a # as) =
     (case ev_at st a of
        None \<Rightarrow> Crash Use_after_free
      | Some e \<Rightarrow> if ue_state e = STATE_READY then Done (Some a) else first_ready st as)"

definition get_1st_ready_event :: "usim \<Rightarrow> nat option res \<times> usim" where
  "get_1st_ready_event st =
     (case first_ready st (eventq st) of
        Done (Some a) \<Rightarrow> with_event a st (\<lambda>e.
          (case get_event a (set_event a (Some (e\<lparr>ue_state := STATE_IN_PROGRESS\<rparr>)) st) of
             (Done _, st) \<Rightarrow> (Done (Some a), st)
           | (Fail err, st) \<Rightarrow> (Fail err, st)
           | (Crash f, st) \<Rightarrow> (Crash f, st)))
      | r \<Rightarrow> (r, st))"

fun find_ticket :: "usim \<Rightarrow> u32 \<Rightarrow> nat list \<Rightarrow> nat option res" where
  "find_ticket st ticket [] = Done None"
| "find_ticket st ticket (a # as) =
     (case ev_at st a of
        None \<Rightarrow> Crash Use_after_free
      | Some e \<Rightarrow> if ue_ticket e = ticket then Done (Some a) else find_ticket st ticket as)"

definition lookup_event_w_ticket :: "u32 \<Rightarrow> usim \<Rightarrow> nat option res" where
  "lookup_event_w_ticket ticket st = find_ticket st ticket (eventq st)"

definition complete_event :: "nat \<Rightarrow> errno option \<Rightarrow> usim \<Rightarrow> unit res \<times> usim" where
  "complete_event a status st = with_event a st (\<lambda>e.
     put_event a (set_event a (Some (e\<lparr>ue_status := status, ue_state := STATE_DONE\<rparr>)) st))"

section \<open>The character device\<close>

definition i2c_usim_open :: "usim \<Rightarrow> unit res \<times> usim" where
  "i2c_usim_open st =
     (if usim_users st \<noteq> 1 then (Done (), st\<lparr>usim_users := usim_users st + 1\<rparr>) else (Fail EBUSY, st))"

text \<open>The walk of the last close over the queue, which does not change under it.\<close>

fun complete_orphans :: "nat list \<Rightarrow> usim \<Rightarrow> unit res \<times> usim" where
  "complete_orphans [] st = (Done (), st)"
| "complete_orphans (a # as) st =
     (case ev_at st a of
        None \<Rightarrow> (Crash Use_after_free, st)
      | Some e \<Rightarrow>
          if ue_state e = STATE_IN_PROGRESS then
            (case complete_event a (Some EIO) st of
               (Done _, st) \<Rightarrow> complete_orphans as st
             | (r, st) \<Rightarrow> (r, st))
          else complete_orphans as st)"

definition i2c_usim_release :: "usim \<Rightarrow> unit res \<times> usim" where
  "i2c_usim_release st =
     (case complete_orphans (eventq st) st of
        (Done _, st) \<Rightarrow> (Done (), st\<lparr>usim_users := usim_users st - 1\<rparr>)
      | (r, st) \<Rightarrow> (r, st))"

definition i2c_usim_poll :: "usim \<Rightarrow> bool res" where
  "i2c_usim_poll st =
     (case first_ready st (eventq st) of
        Done None \<Rightarrow> Done False
      | Done (Some a) \<Rightarrow> Done True
      | Fail e \<Rightarrow> Fail e
      | Crash f \<Rightarrow> Crash f)"

text \<open>
  The two ioctl commands, each in two parts, since the copying to and from user space in
  between may sleep: what the walk over the queue finds, and the rest. The accesses to user
  space are numbered in the order of the code; \<open>uok n\<close> tells whether the n-th succeeds.
\<close>

record usim_ioc_event =
  io_ticket :: u32
  io_type :: u32
  io_bus :: u32
  io_addr :: u32
  io_len :: u32
  io_data :: "u8 list"

definition fault_event :: "nat \<Rightarrow> usim \<Rightarrow> 'r res \<times> usim" where
  "fault_event a st =
     (case complete_event a (Some EIO) st of
        (Done _, st) \<Rightarrow> (Fail EFAULT, st)
      | (Fail e, st) \<Rightarrow> (Fail e, st)
      | (Crash f, st) \<Rightarrow> (Crash f, st))"

definition get_event_reply :: "(nat \<Rightarrow> bool) \<Rightarrow> nat \<Rightarrow> usim \<Rightarrow> usim_ioc_event res \<times> usim" where
  "get_event_reply uok a st = with_event a st (\<lambda>e.
     if \<not> uok 0 \<or> \<not> uok 1 \<or> \<not> uok 2 \<or> \<not> uok 3 \<or> \<not> uok 4 then fault_event a st
     else
       let len = (if ACCESS_TYPE (ue_type e) AND WRITE_ACCESS \<noteq> 0 then unat (ue_len e) else 1)
       in if len > length (ue_data e) then (Crash Out_of_bounds, st)
          else if \<not> uok 5 then fault_event a st
          else (Done \<lparr>io_ticket = ue_ticket e, io_type = ue_type e, io_bus = ue_bus e, io_addr = ue_addr e,
                  io_len = ue_len e, io_data = take len (ue_data e)\<rparr>, st))"

text \<open>The argument of PUT is what user space has there: a length and the data.\<close>

definition put_event_answer :: "(nat \<Rightarrow> bool) \<Rightarrow> u32 \<Rightarrow> u8 list \<Rightarrow> nat \<Rightarrow> usim \<Rightarrow> unit res \<times> usim" where
  "put_event_answer uok len data a st = with_event a st (\<lambda>e.
     if ACCESS_TYPE (ue_type e) AND READ_ACCESS \<noteq> 0 then
       if \<not> uok 1 then fault_event a st
       else
         let e = e\<lparr>ue_len := len\<rparr>; st = set_event a (Some e) st
         in if unat len > length (ue_data e) then fault_event a st
            else if \<not> uok 2 then fault_event a st
            else
              let n = unat len;
                  e = e\<lparr>ue_data := take n data @ drop n (ue_data e)\<rparr>
              in complete_event a None (set_event a (Some e) st)
     else complete_event a None st)"

datatype usim_cmd =
    GET_EVENT
  | PUT_EVENT u32 u32 "u8 list"
  | Other_cmd

datatype usim_reply = No_reply | Got usim_ioc_event

definition handle_i2c_usim_ioctl :: "(nat \<Rightarrow> bool) \<Rightarrow> usim_cmd \<Rightarrow> usim \<Rightarrow> usim_reply res \<times> usim" where
  "handle_i2c_usim_ioctl uok cmd st =
     (case cmd of
        GET_EVENT \<Rightarrow>
          (case get_1st_ready_event st of
             (Done None, st) \<Rightarrow> (Fail EINVAL, st)
           | (Done (Some a), st) \<Rightarrow>
               (case get_event_reply uok a st of
                  (Done r, st) \<Rightarrow> (Done (Got r), st)
                | (Fail e, st) \<Rightarrow> (Fail e, st)
                | (Crash f, st) \<Rightarrow> (Crash f, st))
           | (Fail e, st) \<Rightarrow> (Fail e, st)
           | (Crash f, st) \<Rightarrow> (Crash f, st))
      | PUT_EVENT ticket len data \<Rightarrow>
          if \<not> uok 0 then (Fail EFAULT, st)
          else (case lookup_event_w_ticket ticket st of
             Done None \<Rightarrow> (Fail EINVAL, st)
           | Done (Some a) \<Rightarrow>
               (case put_event_answer uok len data a st of
                  (Done _, st) \<Rightarrow> (Done No_reply, st)
                | (Fail e, st) \<Rightarrow> (Fail e, st)
                | (Crash f, st) \<Rightarrow> (Crash f, st))
           | Fail e \<Rightarrow> (Fail e, st)
           | Crash f \<Rightarrow> (Crash f, st))
      | Other_cmd \<Rightarrow> (Fail ENOTTY, st))"

definition usim_start :: usim where
  "usim_start = \<lparr>ev_at = (\<lambda>_. None), eventq = [], next_addr = 0, last_ticket = 0, usim_users = 0\<rparr>"

end
