(* ===== verification/UsimXfer.thy ===== *)
theory UsimXfer
  imports UsimEvents
begin

text \<open>
  The senders of the I2C simulator (\<open>animal-i2c/i2c_usim.c\<close>): the SMBus and I2C transfers of the
  simulated adapter, and loading and unloading of the module. A transfer blocks until its event
  is done; what the rest of the system does in that time is a parameter, the \<open>world\<close>: it maps
  the event waited for and the state at the start of the wait to the state at its end and
  whether a signal interrupted it. A transfer that never returns is \<open>None\<close>.
\<close>

type_synonym world = "nat \<Rightarrow> usim \<Rightarrow> usim \<times> bool"

definition alloc_i2c_event ::
    "bool \<Rightarrow> u32 \<Rightarrow> u32 \<Rightarrow> u32 \<Rightarrow> u32 \<Rightarrow> usim \<Rightarrow> nat option \<times> usim" where
  "alloc_i2c_event kzalloc type bus adr len st =
     (case alloc_event kzalloc st of
        (None, st) \<Rightarrow> (None, st)
      | (Some a, st) \<Rightarrow>
          (Some a, set_event a (map_option (\<lambda>e. e\<lparr>ue_type := type, ue_bus := bus, ue_addr := adr, ue_len := len\<rparr>)
             (ev_at st a)) st))"

text \<open>\<open>memcpy\<close> to and from the data area of an event.\<close>

definition copy_to_event :: "nat \<Rightarrow> nat \<Rightarrow> u8 list \<Rightarrow> usim \<Rightarrow> unit res \<times> usim" where
  "copy_to_event a off bytes st = with_event a st (\<lambda>e.
     if off + length bytes > length (ue_data e) then (Crash Out_of_bounds, st)
     else (Done (), set_event a (Some (e\<lparr>ue_data :=
            take off (ue_data e) @ bytes @ drop (off + length bytes) (ue_data e)\<rparr>)) st))"

definition copy_from_event :: "nat \<Rightarrow> nat \<Rightarrow> usim \<Rightarrow> u8 list res \<times> usim" where
  "copy_from_event a n st = with_event a st (\<lambda>e.
     if n > length (ue_data e) then (Crash Out_of_bounds, st) else (Done (take n (ue_data e)), st))"

text \<open>Posting an event and waiting for it.\<close>

definition post_and_wait :: "world \<Rightarrow> nat \<Rightarrow> usim \<Rightarrow> (errno option res \<times> usim) option" where
  "post_and_wait w a st =
     (case usim_post_event a st of
        (Done _, st) \<Rightarrow> (case w a st of (st, signal) \<Rightarrow> wait_event_completion a signal st)
      | (Fail e, st) \<Rightarrow> Some (Fail e, st)
      | (Crash f, st) \<Rightarrow> Some (Crash f, st))"

text \<open>The end of a transfer: the reference is dropped and the status returned, with what was read.\<close>

definition finish_xfer :: "nat \<Rightarrow> 'r res \<Rightarrow> usim \<Rightarrow> 'r res \<times> usim" where
  "finish_xfer a r st =
     (case r of
        Crash f \<Rightarrow> (Crash f, st)
      | _ \<Rightarrow> (case put_event a st of
            (Done _, st) \<Rightarrow> (r, st)
          | (Fail e, st) \<Rightarrow> (Fail e, st)
          | (Crash f, st) \<Rightarrow> (Crash f, st)))"

section \<open>SMBus\<close>

definition I2C_SMBUS_BYTE :: u32 where "I2C_SMBUS_BYTE = 1"
definition I2C_SMBUS_BYTE_DATA :: u32 where "I2C_SMBUS_BYTE_DATA = 2"
definition I2C_SMBUS_WORD_DATA :: u32 where "I2C_SMBUS_WORD_DATA = 3"
definition I2C_SMBUS_BLOCK_DATA :: u32 where "I2C_SMBUS_BLOCK_DATA = 5"
definition I2C_SMBUS_BLOCK_MAX :: nat where "I2C_SMBUS_BLOCK_MAX = 32"

text \<open>The bytes stored in the union \<open>i2c_smbus_data\<close>: for a block its length comes first.\<close>

definition smb_read_len :: "u32 \<Rightarrow> nat option" where
  "smb_read_len sz =
     (if sz = I2C_SMBUS_BYTE \<or> sz = I2C_SMBUS_BYTE_DATA then Some 1
      else if sz = I2C_SMBUS_WORD_DATA then Some 2
      else if sz = I2C_SMBUS_BLOCK_DATA then Some (2 + I2C_SMBUS_BLOCK_MAX)
      else None)"

definition smb_read_result :: "u32 \<Rightarrow> nat \<Rightarrow> nat \<Rightarrow> usim \<Rightarrow> u8 list res \<times> usim" where
  "smb_read_result sz len a st = with_event a st (\<lambda>e.
     if sz = I2C_SMBUS_BLOCK_DATA then
       if 0 < ue_len e \<and> unat (ue_len e) \<le> I2C_SMBUS_BLOCK_MAX then
         (case copy_from_event a (unat (ue_len e)) st of
            (Done bytes, st) \<Rightarrow> (Done (ucast (ue_len e) # bytes), st)
          | (r, st) \<Rightarrow> (r, st))
       else (Fail EPROTO, st)
     else copy_from_event a len st)"

definition usim_smb_read :: "bool \<Rightarrow> world \<Rightarrow> u32 \<Rightarrow> u16 \<Rightarrow> u8 \<Rightarrow> u32 \<Rightarrow> usim \<Rightarrow> (u8 list res \<times> usim) option" where
  "usim_smb_read kzalloc w bus addr command sz st =
     (case smb_read_len sz of
        None \<Rightarrow> Some (Fail EINVAL, st)
      | Some len \<Rightarrow>
          (case alloc_i2c_event kzalloc I2C_USIM_SMB_READ bus (ucast addr) (of_nat len) st of
             (None, st) \<Rightarrow> Some (Fail ENOMEM, st)
           | (Some a, st) \<Rightarrow>
               (case copy_to_event a 0 [command] st of
                  (Done _, st) \<Rightarrow>
                    (case post_and_wait w a st of
                       None \<Rightarrow> None
                     | Some (Done None, st) \<Rightarrow>
                         (case smb_read_result sz len a st of (r, st) \<Rightarrow> Some (finish_xfer a r st))
                     | Some (Done (Some err), st) \<Rightarrow> Some (finish_xfer a (Fail err) st)
                     | Some (Fail err, st) \<Rightarrow> Some (Fail err, st)
                     | Some (Crash f, st) \<Rightarrow> Some (Crash f, st))
                | (Fail err, st) \<Rightarrow> Some (Fail err, st)
                | (Crash f, st) \<Rightarrow> Some (Crash f, st))))"

text \<open>The bytes to write, taken from the union.\<close>

definition smb_write_bytes :: "u32 \<Rightarrow> u8 list \<Rightarrow> u8 list option" where
  "smb_write_bytes sz data =
     (if sz = I2C_SMBUS_BYTE then Some []
      else if sz = I2C_SMBUS_BYTE_DATA then Some (take 1 data)
      else if sz = I2C_SMBUS_WORD_DATA then Some (take 2 data)
      else if sz = I2C_SMBUS_BLOCK_DATA then
        let len = unat (data ! 0)
        in if len = 0 \<or> len > I2C_SMBUS_BLOCK_MAX then None else Some (take len (drop 1 data))
      else None)"

definition usim_smb_write ::
    "bool \<Rightarrow> world \<Rightarrow> u32 \<Rightarrow> u16 \<Rightarrow> u8 \<Rightarrow> u32 \<Rightarrow> u8 list \<Rightarrow> usim \<Rightarrow> (unit res \<times> usim) option" where
  "usim_smb_write kzalloc w bus addr command sz data st =
     (case smb_write_bytes sz data of
        None \<Rightarrow> Some (Fail EINVAL, st)
      | Some bytes \<Rightarrow>
          (case alloc_i2c_event kzalloc I2C_USIM_SMB_WRITE bus (ucast addr) (of_nat (1 + length bytes)) st of
             (None, st) \<Rightarrow> Some (Fail ENOMEM, st)
           | (Some a, st) \<Rightarrow>
               (case copy_to_event a 0 (command # bytes) st of
                  (Done _, st) \<Rightarrow>
                    (case post_and_wait w a st of
                       None \<Rightarrow> None
                     | Some (Done None, st) \<Rightarrow> Some (finish_xfer a (Done ()) st)
                     | Some (Done (Some err), st) \<Rightarrow> Some (finish_xfer a (Fail err) st)
                     | Some (Fail err, st) \<Rightarrow> Some (Fail err, st)
                     | Some (Crash f, st) \<Rightarrow> Some (Crash f, st))
                | (Fail err, st) \<Rightarrow> Some (Fail err, st)
                | (Crash f, st) \<Rightarrow> Some (Crash f, st))))"

datatype smb_direction = I2C_SMBUS_READ | I2C_SMBUS_WRITE | Other_direction

definition smb_usim_xfer ::
    "bool \<Rightarrow> world \<Rightarrow> u32 \<Rightarrow> u16 \<Rightarrow> smb_direction \<Rightarrow> u8 \<Rightarrow> u32 \<Rightarrow> u8 list \<Rightarrow> usim \<Rightarrow> (u8 list res \<times> usim) option" where
  "smb_usim_xfer kzalloc w nr addr read_write command sz data st =
     (case read_write of
        I2C_SMBUS_READ \<Rightarrow> usim_smb_read kzalloc w nr addr command sz st
      | I2C_SMBUS_WRITE \<Rightarrow>
          map_option (\<lambda>(r, st). (case r of Done _ \<Rightarrow> Done data | Fail e \<Rightarrow> Fail e | Crash f \<Rightarrow> Crash f, st))
            (usim_smb_write kzalloc w nr addr command sz data st)
      | Other_direction \<Rightarrow> Some (Fail EINVAL, st))"

section \<open>I2C\<close>

definition I2C_M_RD :: u16 where "I2C_M_RD = 1"

record i2c_msg =
  m_addr :: u16
  m_flags :: u16
  m_len :: u16
  m_buf :: "u8 list"

text \<open>\<open>memcpy\<close> copies \<open>m_len\<close> bytes, whatever the size of the data area of the event.\<close>

definition usim_i2c_read :: "bool \<Rightarrow> world \<Rightarrow> u32 \<Rightarrow> i2c_msg \<Rightarrow> usim \<Rightarrow> (u8 list res \<times> usim) option" where
  "usim_i2c_read kzalloc w bus msg st =
     (case alloc_i2c_event kzalloc I2C_USIM_I2C_READ bus (ucast (m_addr msg)) (ucast (m_len msg)) st of
        (None, st) \<Rightarrow> Some (Fail ENOMEM, st)
      | (Some a, st) \<Rightarrow>
          (case post_and_wait w a st of
             None \<Rightarrow> None
           | Some (Done None, st) \<Rightarrow>
               (case copy_from_event a (unat (m_len msg)) st of (r, st) \<Rightarrow> Some (finish_xfer a r st))
           | Some (Done (Some err), st) \<Rightarrow> Some (finish_xfer a (Fail err) st)
           | Some (Fail err, st) \<Rightarrow> Some (Fail err, st)
           | Some (Crash f, st) \<Rightarrow> Some (Crash f, st)))"

definition usim_i2c_write :: "bool \<Rightarrow> world \<Rightarrow> u32 \<Rightarrow> i2c_msg \<Rightarrow> usim \<Rightarrow> (unit res \<times> usim) option" where
  "usim_i2c_write kzalloc w bus msg st =
     (case alloc_i2c_event kzalloc I2C_USIM_I2C_WRITE bus (ucast (m_addr msg)) (ucast (m_len msg)) st of
        (None, st) \<Rightarrow> Some (Fail ENOMEM, st)
      | (Some a, st) \<Rightarrow>
          (case copy_to_event a 0 (take (unat (m_len msg)) (m_buf msg)) st of
             (Done _, st) \<Rightarrow>
               (case post_and_wait w a st of
                  None \<Rightarrow> None
                | Some (Done None, st) \<Rightarrow> Some (finish_xfer a (Done ()) st)
                | Some (Done (Some err), st) \<Rightarrow> Some (finish_xfer a (Fail err) st)
                | Some (Fail err, st) \<Rightarrow> Some (Fail err, st)
                | Some (Crash f, st) \<Rightarrow> Some (Crash f, st))
           | (Fail err, st) \<Rightarrow> Some (Fail err, st)
           | (Crash f, st) \<Rightarrow> Some (Crash f, st)))"

text \<open>The messages of a transfer one after the other; the result is the number of those that
  succeeded, and what their buffers hold.\<close>

fun i2c_usim_xfer ::
    "(nat \<Rightarrow> bool) \<Rightarrow> world \<Rightarrow> u32 \<Rightarrow> nat \<Rightarrow> i2c_msg list \<Rightarrow> usim
      \<Rightarrow> ((nat \<times> i2c_msg list) res \<times> usim) option" where
  "i2c_usim_xfer kz w nr n [] st = Some (Done (0, []), st)"
| "i2c_usim_xfer kz w nr n (msg # msgs) st =
     (case (if m_flags msg AND I2C_M_RD \<noteq> 0
            then map_option (\<lambda>(r, st). (case r of
                     Done bytes \<Rightarrow> Done (1, msg\<lparr>m_buf := bytes @ drop (length bytes) (m_buf msg)\<rparr>)
                   | Fail _ \<Rightarrow> Done (0, msg)
                   | Crash f \<Rightarrow> Crash f, st))
                 (usim_i2c_read (kz n) w nr msg st)
            else map_option (\<lambda>(r, st). (case r of
                     Done _ \<Rightarrow> Done (1, msg)
                   | Fail _ \<Rightarrow> Done (0, msg)
                   | Crash f \<Rightarrow> Crash f, st))
                 (usim_i2c_write (kz n) w nr msg st)) of
        None \<Rightarrow> None
      | Some (Done (ok, msg), st) \<Rightarrow>
          map_option (\<lambda>(r, st). (case r of
               Done (cnt, msgs) \<Rightarrow> Done (ok + cnt, msg # msgs)
             | Fail e \<Rightarrow> Fail e
             | Crash f \<Rightarrow> Crash f, st))
            (i2c_usim_xfer kz w nr (n + 1) msgs st)
      | Some (Fail e, st) \<Rightarrow> Some (Fail e, st)
      | Some (Crash f, st) \<Rightarrow> Some (Crash f, st))"

definition i2c_usim_functionality :: u32 where
  "i2c_usim_functionality = 0x00060000 OR 0x00180000 OR 0x00600000 OR 0x03000000"

section \<open>The module\<close>

text \<open>What loading registers, in its order; the queue is initialised after the adapter is there.
  The proc entry is made on kernels before 3.10 only.\<close>

datatype usim_resource = Adapter | Proc_entry | Queue_ready | Usim_chrdev

definition i2c_usim_init :: "bool \<Rightarrow> errno option \<Rightarrow> bool \<Rightarrow> errno option \<Rightarrow> unit res \<times> usim_resource list" where
  "i2c_usim_init old_kernel add_adapter proc_ok register =
     (case add_adapter of
        Some v \<Rightarrow> (Fail v, [])
      | None \<Rightarrow>
          if old_kernel \<and> \<not> proc_ok then (Fail EINVAL, [])
          else
            let held = (if old_kernel then [Adapter, Proc_entry] else [Adapter]) @ [Queue_ready]
            in case register of
                 Some v \<Rightarrow> (Fail v, removeAll Adapter (removeAll Proc_entry held))
               | None \<Rightarrow> (Done (), held @ [Usim_chrdev]))"

definition i2c_usim_exit :: "usim_resource list \<Rightarrow> usim_resource list" where
  "i2c_usim_exit held = removeAll Adapter (removeAll Proc_entry (removeAll Usim_chrdev held))"

end
