(* ===== verification/AnimalI2c.thy ===== *)
theory AnimalI2c
  imports UsimXfer
begin

text \<open>
  The I2C driver for user space (\<open>animal-i2c/i2c_main.c\<close>): an open file has a handle with an
  adapter, a slave address and, if its device is selected by a GPIO, the number of that pin.
  Every transfer locks the adapter, selects the chip, calls the I2C core of the kernel and undoes
  both. The core is a parameter, a record of functions on its own state \<open>'s\<close>; what the driver does
  around it is a trace of actions.
\<close>

section \<open>State\<close>

definition ANIMAL_I2C_BUFFER_MAX_SIZE :: u32 where "ANIMAL_I2C_BUFFER_MAX_SIZE = 2048"
definition ANIMAL_SMB_BUFFER_MAX_SIZE :: u32 where "ANIMAL_SMB_BUFFER_MAX_SIZE = 32"

text \<open>The index of an adapter in the driver's array, and the number of the kernel's adapter.\<close>

record animal_device =
  animal_adapter :: "nat option list"
  info_simulator :: bool
  dev_users :: int

record animal_handle =
  gpio :: int
  hnd_adapter :: nat
  client_addr :: u16
  client_adapter :: nat

datatype action = Lock nat | Unlock nat | Set_gpio int bool | Core nat

text \<open>\<open>requested\<close> are the GPIOs the driver has of the kernel, \<open>open_handles\<close> counts the handles allocated.\<close>

record 's bus_state =
  core :: 's
  requested :: "int set"
  actions :: "action list"
  open_handles :: nat

text \<open>The results of the core: a value that is not negative, or an error.\<close>

record 's i2c_core =
  smbus_read_byte_data :: "nat \<Rightarrow> u16 \<Rightarrow> u8 \<Rightarrow> 's \<Rightarrow> u32 res \<times> 's"
  smbus_write_byte_data :: "nat \<Rightarrow> u16 \<Rightarrow> u8 \<Rightarrow> u8 \<Rightarrow> 's \<Rightarrow> unit res \<times> 's"
  smbus_read_word_data :: "nat \<Rightarrow> u16 \<Rightarrow> u8 \<Rightarrow> 's \<Rightarrow> u32 res \<times> 's"
  smbus_write_word_data :: "nat \<Rightarrow> u16 \<Rightarrow> u8 \<Rightarrow> u16 \<Rightarrow> 's \<Rightarrow> unit res \<times> 's"
  smbus_read_block_data :: "nat \<Rightarrow> u16 \<Rightarrow> u8 \<Rightarrow> 's \<Rightarrow> u8 list res \<times> 's"
  smbus_write_block_data :: "nat \<Rightarrow> u16 \<Rightarrow> u8 \<Rightarrow> u8 list \<Rightarrow> 's \<Rightarrow> unit res \<times> 's"
  i2c_transfer :: "nat \<Rightarrow> i2c_msg list \<Rightarrow> 's \<Rightarrow> (nat \<times> i2c_msg list) res \<times> 's"

section \<open>GPIO\<close>

text \<open>The kernel's GPIOs: which numbers are valid, and whether a request or setting the direction
  fails. Requesting a pin twice fails; freeing one that is not requested is an error.\<close>

record gpio_kernel =
  k_is_valid :: "int \<Rightarrow> bool"
  k_request :: "int \<Rightarrow> errno option"
  k_direction :: "int \<Rightarrow> errno option"

record 's gpio_operations =
  op_is_valid :: "int \<Rightarrow> bool"
  op_request :: "int \<Rightarrow> 's bus_state \<Rightarrow> errno option \<times> 's bus_state"
  op_free :: "int \<Rightarrow> 's bus_state \<Rightarrow> unit res \<times> 's bus_state"
  op_direction_input :: "int \<Rightarrow> errno option"
  op_direction_output :: "int \<Rightarrow> bool \<Rightarrow> errno option"
  op_set :: "int \<Rightarrow> bool \<Rightarrow> 's bus_state \<Rightarrow> 's bus_state"

definition animal_gpio_ops :: "gpio_kernel \<Rightarrow> 's gpio_operations" where
  "animal_gpio_ops k =
     \<lparr>op_is_valid = k_is_valid k,
      op_request = (\<lambda>g bs.
        if g \<in> requested bs then (Some EBUSY, bs)
        else case k_request k g of
          Some e \<Rightarrow> (Some e, bs)
        | None \<Rightarrow> (None, bs\<lparr>requested := insert g (requested bs)\<rparr>)),
      op_free = (\<lambda>g bs.
        if g \<in> requested bs then (Done (), bs\<lparr>requested := requested bs - {g}\<rparr>)
        else (Crash Not_requested, bs)),
      op_direction_input = k_direction k,
      op_direction_output = (\<lambda>g _. k_direction k g),
      op_set = (\<lambda>g v bs. bs\<lparr>actions := actions bs @ [Set_gpio g v]\<rparr>)\<rparr>"

definition simulator_gpio_ops :: "'s gpio_operations" where
  "simulator_gpio_ops =
     \<lparr>op_is_valid = (\<lambda>_. True), op_request = (\<lambda>_ bs. (None, bs)), op_free = (\<lambda>_ bs. (Done (), bs)),
      op_direction_input = (\<lambda>_. None), op_direction_output = (\<lambda>_ _. None), op_set = (\<lambda>_ _ bs. bs)\<rparr>"

text \<open>\<open>None\<close> is the return value 0: the code returns what \<open>is_valid\<close> returned when the pin is not
  valid, which is 0.\<close>

definition animal_gpio_init ::
    "'s gpio_operations \<Rightarrow> int \<Rightarrow> bool \<Rightarrow> bool \<Rightarrow> 's bus_state \<Rightarrow> errno option \<times> 's bus_state" where
  "animal_gpio_init ops g direction_in v bs =
     (if \<not> op_is_valid ops g then (None, bs)
      else case op_request ops g bs of
        (Some e, bs) \<Rightarrow> (Some e, bs)
      | (None, bs) \<Rightarrow>
          (if direction_in then op_direction_input ops g else op_direction_output ops g v, bs))"

section \<open>Transfers\<close>

definition animal_i2c_xfer_begin :: "'s gpio_operations \<Rightarrow> animal_handle \<Rightarrow> 's bus_state \<Rightarrow> 's bus_state" where
  "animal_i2c_xfer_begin ops hnd bs =
     (let bs = bs\<lparr>actions := actions bs @ [Lock (hnd_adapter hnd)]\<rparr>
      in if gpio hnd \<ge> 0 then op_set ops (gpio hnd) True bs else bs)"

definition animal_i2c_xfer_done :: "'s gpio_operations \<Rightarrow> animal_handle \<Rightarrow> 's bus_state \<Rightarrow> 's bus_state" where
  "animal_i2c_xfer_done ops hnd bs =
     (let bs = (if gpio hnd \<ge> 0 then op_set ops (gpio hnd) False bs else bs)
      in bs\<lparr>actions := actions bs @ [Unlock (hnd_adapter hnd)]\<rparr>)"

text \<open>A call of the core between the two.\<close>

definition locked_xfer ::
    "'s gpio_operations \<Rightarrow> animal_handle \<Rightarrow> ('s \<Rightarrow> 'r \<times> 's) \<Rightarrow> 's bus_state \<Rightarrow> 'r \<times> 's bus_state" where
  "locked_xfer ops hnd f bs =
     (let bs = animal_i2c_xfer_begin ops hnd bs;
          (r, c) = f (core bs);
          bs = bs\<lparr>core := c, actions := actions bs @ [Core (client_adapter hnd)]\<rparr>
      in (r, animal_i2c_xfer_done ops hnd bs))"

section \<open>The ioctl commands\<close>

text \<open>What a call gets from outside: whether the n-th access to user space and the \<open>kmalloc\<close>
  succeed, and what the uninitialised buffers hold.\<close>

record animal_io =
  a_user :: "nat \<Rightarrow> bool"
  a_kmalloc :: bool
  a_stack :: "u8 list"
  a_heap :: "u8 list"

datatype animal_cmd =
    ANIMAL_IOCTL_INFO
  | ANIMAL_IOCTL_SET_ADDRESS u16
  | ANIMAL_IOCTL_SET_GPIO int
  | ANIMAL_IOCTL_SET_ADAPTER int
  | ANIMAL_IOCTL_SMB_READ8 u8
  | ANIMAL_IOCTL_SMB_WRITE8 u8 u8
  | ANIMAL_IOCTL_SMB_READ16 u8
  | ANIMAL_IOCTL_SMB_WRITE16 u8 u16
  | ANIMAL_IOCTL_SMB_READ_BLOCK u8 u32
  | ANIMAL_IOCTL_SMB_WRITE_BLOCK u8 u32 "u8 list"
  | ANIMAL_IOCTL_I2C_WRITE u8 u32 "u8 list"
  | ANIMAL_IOCTL_I2C_WRITEREAD u8 u32
  | Unknown_cmd

text \<open>The return value and what was copied to user space; the information is the version and whether
  the driver runs on the simulator.\<close>

definition animal_i2c_info :: "animal_device \<Rightarrow> u8 list" where
  "animal_i2c_info dev = [0, 1, 0, if info_simulator dev then 1 else 0]"

datatype animal_reply = Rc nat | Info "u8 list" | Byte u8 | Word u16 | Block "u8 list"

definition animal_set_gpio ::
    "'s gpio_operations \<Rightarrow> int \<Rightarrow> animal_handle \<Rightarrow> 's bus_state \<Rightarrow> animal_reply res \<times> animal_handle \<times> 's bus_state" where
  "animal_set_gpio ops g hnd bs =
     (if g = gpio hnd then (Done (Rc 0), hnd, bs)
      else
        let (r, bs) = (if gpio hnd \<ge> 0 then op_free ops (gpio hnd) bs else (Done (), bs))
        in case r of
             Crash f \<Rightarrow> (Crash f, hnd, bs)
           | _ \<Rightarrow>
               if g \<ge> 0 then
                 (case animal_gpio_init ops g False False bs of
                    (None, bs) \<Rightarrow> (Done (Rc 0), hnd\<lparr>gpio := g\<rparr>, bs)
                  | (Some _, bs) \<Rightarrow> (Fail EINVAL, hnd\<lparr>gpio := -1\<rparr>, bs))
               else (Done (Rc 0), hnd, bs))"

definition animal_set_adapter :: "animal_device \<Rightarrow> int \<Rightarrow> animal_handle \<Rightarrow> animal_reply res \<times> animal_handle" where
  "animal_set_adapter dev i hnd =
     (if i < 0 \<or> (word_of_int i :: u32) > of_nat (length (animal_adapter dev)) - 1 then (Fail EINVAL, hnd)
      else if nat i \<ge> length (animal_adapter dev) then (Crash Out_of_bounds, hnd)
      else case animal_adapter dev ! nat i of
        None \<Rightarrow> (Fail EINVAL, hnd)
      | Some nr \<Rightarrow> (Done (Rc 0), hnd\<lparr>hnd_adapter := nat i, client_adapter := nr\<rparr>))"

text \<open>The buffer of a block transfer after \<open>bytes\<close> were stored at its start.\<close>

definition stored :: "u8 list \<Rightarrow> u8 list \<Rightarrow> u8 list" where
  "stored bytes buf = bytes @ drop (length bytes) buf"

definition smb_size :: "u32 \<Rightarrow> nat" where
  "smb_size sz = unat (if sz > ANIMAL_SMB_BUFFER_MAX_SIZE then ANIMAL_SMB_BUFFER_MAX_SIZE else sz)"

definition animal_read_block ::
    "'s i2c_core \<Rightarrow> 's gpio_operations \<Rightarrow> animal_io \<Rightarrow> u8 \<Rightarrow> u32 \<Rightarrow> animal_handle \<Rightarrow> 's bus_state
      \<Rightarrow> animal_reply res \<times> 's bus_state" where
  "animal_read_block c ops io command sz hnd bs =
     (case locked_xfer ops hnd (smbus_read_block_data c (client_adapter hnd) (client_addr hnd) command) bs of
        (Done bytes, bs) \<Rightarrow>
          if \<not> a_user io 2 then (Fail EFAULT, bs)
          else (Done (Block (take (smb_size sz) (stored bytes (a_stack io)))), bs)
      | (Fail e, bs) \<Rightarrow> (Fail e, bs)
      | (Crash f, bs) \<Rightarrow> (Crash f, bs))"

definition animal_smb_write_block ::
    "'s i2c_core \<Rightarrow> 's gpio_operations \<Rightarrow> u8 \<Rightarrow> u32 \<Rightarrow> u8 list \<Rightarrow> animal_handle \<Rightarrow> 's bus_state
      \<Rightarrow> animal_reply res \<times> 's bus_state" where
  "animal_smb_write_block c ops command sz data hnd bs =
     (let block = take (smb_size sz) data
      in case locked_xfer ops hnd (smbus_write_block_data c (client_adapter hnd) (client_addr hnd) command block) bs of
           (Done _, bs) \<Rightarrow> (Done (Rc 0), bs)
         | (Fail e, bs) \<Rightarrow> (Fail e, bs)
         | (Crash f, bs) \<Rightarrow> (Crash f, bs))"

definition animal_i2c_write ::
    "'s i2c_core \<Rightarrow> 's gpio_operations \<Rightarrow> animal_io \<Rightarrow> u8 \<Rightarrow> u32 \<Rightarrow> u8 list \<Rightarrow> animal_handle \<Rightarrow> 's bus_state
      \<Rightarrow> animal_reply res \<times> 's bus_state" where
  "animal_i2c_write c ops io command sz data hnd bs =
     (if sz > ANIMAL_I2C_BUFFER_MAX_SIZE then (Fail EFAULT, bs)
      else if sz + 1 > ANIMAL_SMB_BUFFER_MAX_SIZE \<and> \<not> a_kmalloc io then (Fail ENOMEM, bs)
      else if \<not> a_user io 2 then (Fail EFAULT, bs)
      else
        let msg = \<lparr>m_addr = client_addr hnd, m_flags = 0, m_len = ucast (sz + 1),
                   m_buf = command # take (unat sz) data\<rparr>
        in case locked_xfer ops hnd (i2c_transfer c (client_adapter hnd) [msg]) bs of
             (Done (n, _), bs) \<Rightarrow> (Done (Rc n), bs)
           | (Fail e, bs) \<Rightarrow> (Fail e, bs)
           | (Crash f, bs) \<Rightarrow> (Crash f, bs))"

text \<open>The reply is copied from \<open>block\<close>, the 32 bytes on the stack, also when the message was read
  into allocated memory.\<close>

definition writeread_msgs :: "animal_io \<Rightarrow> u8 \<Rightarrow> u32 \<Rightarrow> animal_handle \<Rightarrow> i2c_msg list" where
  "writeread_msgs io command sz hnd =
     [\<lparr>m_addr = client_addr hnd, m_flags = 0, m_len = 1, m_buf = [command]\<rparr>,
      \<lparr>m_addr = client_addr hnd, m_flags = I2C_M_RD, m_len = ucast sz,
       m_buf = take (unat sz) (if sz > ANIMAL_SMB_BUFFER_MAX_SIZE then a_heap io else a_stack io)\<rparr>]"

definition animal_i2c_writeread ::
    "'s i2c_core \<Rightarrow> 's gpio_operations \<Rightarrow> animal_io \<Rightarrow> u8 \<Rightarrow> u32 \<Rightarrow> animal_handle \<Rightarrow> 's bus_state
      \<Rightarrow> animal_reply res \<times> 's bus_state" where
  "animal_i2c_writeread c ops io command sz hnd bs =
     (if sz > ANIMAL_I2C_BUFFER_MAX_SIZE then (Fail EFAULT, bs)
      else
        let big = (sz > ANIMAL_SMB_BUFFER_MAX_SIZE)
        in if big \<and> \<not> a_kmalloc io then (Fail ENOMEM, bs)
           else case locked_xfer ops hnd (i2c_transfer c (client_adapter hnd) (writeread_msgs io command sz hnd)) bs of
                  (Done (_, msgs), bs) \<Rightarrow>
                    let block = (if big then a_stack io else stored (m_buf (msgs ! 1)) (a_stack io))
                    in if unat sz > length block then (Crash Out_of_bounds, bs)
                       else if \<not> a_user io 2 then (Fail EFAULT, bs)
                       else (Done (Block (take (unat sz) block)), bs)
                | (Fail e, bs) \<Rightarrow> (Fail e, bs)
                | (Crash f, bs) \<Rightarrow> (Crash f, bs))"

text \<open>The accesses to user space are numbered in the order of each command; what they read is the
  argument of the command.\<close>

definition user_gets :: "animal_io \<Rightarrow> nat \<Rightarrow> bool" where
  "user_gets io n \<longleftrightarrow> (\<forall>i<n. a_user io i)"

definition do_animal_ioctl ::
    "'s i2c_core \<Rightarrow> 's gpio_operations \<Rightarrow> animal_device \<Rightarrow> animal_io \<Rightarrow> animal_cmd \<Rightarrow> animal_handle \<Rightarrow> 's bus_state
      \<Rightarrow> animal_reply res \<times> animal_handle \<times> 's bus_state" where
  "do_animal_ioctl c ops dev io cmd hnd bs =
     (case cmd of
        ANIMAL_IOCTL_INFO \<Rightarrow>
          (if \<not> a_user io 0 then Fail EFAULT else Done (Info (animal_i2c_info dev)), hnd, bs)
      | ANIMAL_IOCTL_SET_ADDRESS addr \<Rightarrow>
          if \<not> a_user io 0 then (Fail EFAULT, hnd, bs) else (Done (Rc 0), hnd\<lparr>client_addr := addr\<rparr>, bs)
      | ANIMAL_IOCTL_SET_GPIO g \<Rightarrow>
          if \<not> a_user io 0 then (Fail EFAULT, hnd, bs) else animal_set_gpio ops g hnd bs
      | ANIMAL_IOCTL_SET_ADAPTER i \<Rightarrow>
          if \<not> a_user io 0 then (Fail EFAULT, hnd, bs)
          else (case animal_set_adapter dev i hnd of (r, hnd) \<Rightarrow> (r, hnd, bs))
      | ANIMAL_IOCTL_SMB_READ8 command \<Rightarrow>
          if \<not> user_gets io 1 then (Fail EFAULT, hnd, bs)
          else (case locked_xfer ops hnd (smbus_read_byte_data c (client_adapter hnd) (client_addr hnd) command) bs of
             (Done v, bs) \<Rightarrow> (if \<not> a_user io 1 then Fail EFAULT else Done (Byte (ucast (v AND 0xff))), hnd, bs)
           | (Fail e, bs) \<Rightarrow> (Fail e, hnd, bs)
           | (Crash f, bs) \<Rightarrow> (Crash f, hnd, bs))
      | ANIMAL_IOCTL_SMB_WRITE8 command byte \<Rightarrow>
          if \<not> user_gets io 2 then (Fail EFAULT, hnd, bs)
          else (case locked_xfer ops hnd (smbus_write_byte_data c (client_adapter hnd) (client_addr hnd) command byte) bs of
             (Done _, bs) \<Rightarrow> (Done (Rc 0), hnd, bs)
           | (Fail e, bs) \<Rightarrow> (Fail e, hnd, bs)
           | (Crash f, bs) \<Rightarrow> (Crash f, hnd, bs))
      | ANIMAL_IOCTL_SMB_READ16 command \<Rightarrow>
          if \<not> user_gets io 1 then (Fail EFAULT, hnd, bs)
          else (case locked_xfer ops hnd (smbus_read_word_data c (client_adapter hnd) (client_addr hnd) command) bs of
             (Done v, bs) \<Rightarrow> (if \<not> a_user io 1 then Fail EFAULT else Done (Word (ucast (v AND 0xffff))), hnd, bs)
           | (Fail e, bs) \<Rightarrow> (Fail e, hnd, bs)
           | (Crash f, bs) \<Rightarrow> (Crash f, hnd, bs))
      | ANIMAL_IOCTL_SMB_WRITE16 command word \<Rightarrow>
          if \<not> user_gets io 2 then (Fail EFAULT, hnd, bs)
          else (case locked_xfer ops hnd (smbus_write_word_data c (client_adapter hnd) (client_addr hnd) command word) bs of
             (Done _, bs) \<Rightarrow> (Done (Rc 0), hnd, bs)
           | (Fail e, bs) \<Rightarrow> (Fail e, hnd, bs)
           | (Crash f, bs) \<Rightarrow> (Crash f, hnd, bs))
      | ANIMAL_IOCTL_SMB_READ_BLOCK command sz \<Rightarrow>
          if \<not> user_gets io 2 then (Fail EFAULT, hnd, bs)
          else (case animal_read_block c ops io command sz hnd bs of (r, bs) \<Rightarrow> (r, hnd, bs))
      | ANIMAL_IOCTL_SMB_WRITE_BLOCK command sz data \<Rightarrow>
          if \<not> user_gets io 3 then (Fail EFAULT, hnd, bs)
          else (case animal_smb_write_block c ops command sz data hnd bs of (r, bs) \<Rightarrow> (r, hnd, bs))
      | ANIMAL_IOCTL_I2C_WRITE command sz data \<Rightarrow>
          if \<not> user_gets io 2 then (Fail EFAULT, hnd, bs)
          else (case animal_i2c_write c ops io command sz data hnd bs of (r, bs) \<Rightarrow> (r, hnd, bs))
      | ANIMAL_IOCTL_I2C_WRITEREAD command sz \<Rightarrow>
          if \<not> user_gets io 2 then (Fail EFAULT, hnd, bs)
          else (case animal_i2c_writeread c ops io command sz hnd bs of (r, bs) \<Rightarrow> (r, hnd, bs))
      | Unknown_cmd \<Rightarrow> (Fail ENOTTY, hnd, bs))"

section \<open>Open and close\<close>

fun first_adapter :: "nat \<Rightarrow> nat option list \<Rightarrow> (nat \<times> nat) option" where
  "first_adapter i [] = None"
| "first_adapter i (x # xs) = (case x of Some nr \<Rightarrow> Some (i, nr) | None \<Rightarrow> first_adapter (i + 1) xs)"

definition animal_open ::
    "bool \<Rightarrow> animal_device \<Rightarrow> 's bus_state \<Rightarrow> animal_handle res \<times> animal_device \<times> 's bus_state" where
  "animal_open kzalloc dev bs =
     (if \<not> kzalloc then (Fail ENOMEM, dev, bs)
      else
        let bs = bs\<lparr>open_handles := open_handles bs + 1\<rparr>
        in case first_adapter 0 (animal_adapter dev) of
             None \<Rightarrow> (Fail EFAULT, dev, bs)
           | Some (i, nr) \<Rightarrow>
               (Done \<lparr>gpio = -1, hnd_adapter = i, client_addr = 0, client_adapter = nr\<rparr>,
                dev\<lparr>dev_users := dev_users dev + 1\<rparr>, bs))"

definition animal_release :: "'s gpio_operations \<Rightarrow> animal_handle \<Rightarrow> 's bus_state \<Rightarrow> unit res \<times> 's bus_state" where
  "animal_release ops hnd bs =
     (case (if gpio hnd \<ge> 0 then op_free ops (gpio hnd) bs else (Done (), bs)) of
        (Done _, bs) \<Rightarrow> (Done (), bs\<lparr>open_handles := open_handles bs - 1\<rparr>)
      | (r, bs) \<Rightarrow> (r, bs))"

section \<open>The module\<close>

datatype animal_resource = Animal_dev | Adapter_array | Adapter_ref nat | I2c_driver | Chrdev_region | Cdev

record animal_params =
  adapters :: nat
  simulator :: bool
  sim_adap_nr :: int

record animal_kernel =
  kzalloc_dev :: bool
  kzalloc_adapters :: bool
  i2c_get_adapter :: "nat \<Rightarrow> nat option"
  i2c_add_driver :: bool
  register_region :: bool
  cdev_add :: bool

text \<open>A non-negative adapter number is used for all of them.\<close>

definition install_adapters :: "animal_kernel \<Rightarrow> nat \<Rightarrow> int \<Rightarrow> nat option list" where
  "install_adapters k n adap_nr = map (\<lambda>i. i2c_get_adapter k (if adap_nr < 0 then i else nat adap_nr)) [0..<n]"

definition adapter_refs :: "nat option list \<Rightarrow> animal_resource list" where
  "adapter_refs as = map Adapter_ref (List.map_filter id as)"

definition put_adapters :: "nat option list \<Rightarrow> animal_resource list \<Rightarrow> animal_resource list" where
  "put_adapters as held = fold remove1 (adapter_refs as) held"

definition animal_init ::
    "animal_params \<Rightarrow> animal_kernel \<Rightarrow> animal_device res \<times> animal_resource list" where
  "animal_init p k =
     (if \<not> kzalloc_dev k then (Fail ENOMEM, [])
      else
        let held = [Animal_dev]
        in if \<not> kzalloc_adapters k then (Fail EPERM, remove1 Animal_dev held)
           else
             let held = Adapter_array # held; none = replicate (adapters p) None;
                 err_i2c = (\<lambda>as held. (Fail EPERM, remove1 Animal_dev (remove1 Adapter_array (put_adapters as held))))
             in if simulator p \<and> sim_adap_nr p < 0 then err_i2c none held
                else
                  let as = install_adapters k (adapters p) (if simulator p then sim_adap_nr p else -1);
                      held = adapter_refs as @ held
                  in if \<not> i2c_add_driver k then err_i2c as held
                     else
                       let held = I2c_driver # held
                       in if \<not> register_region k then err_i2c as (remove1 I2c_driver held)
                          else
                            let held = Chrdev_region # held
                            in if \<not> cdev_add k then err_i2c as (remove1 I2c_driver (remove1 Chrdev_region held))
                               else (Done \<lparr>animal_adapter = as, info_simulator = simulator p, dev_users = 0\<rparr>, Cdev # held))"

definition animal_exit :: "animal_device \<Rightarrow> animal_resource list \<Rightarrow> animal_resource list" where
  "animal_exit dev held =
     remove1 Animal_dev (remove1 Adapter_array (remove1 I2c_driver
       (put_adapters (animal_adapter dev) (remove1 Chrdev_region (remove1 Cdev held)))))"

end
