(* ===== verification/UserInterface.thy ===== *)
theory UserInterface
  imports CmemIoctl BifrostIoctl AnimalI2c UsimEvents
begin

text \<open>
  The binary interface between programs and the drivers: the command numbers of the API headers
  (\<open>bifrost_api.h\<close>, \<open>animal-i2c_api.h\<close>, \<open>i2c_usim.h\<close>, \<open>cmemk.h\<close>) and the layout of their
  argument structures in user memory, as the drivers read them on a 32-bit machine. The handlers of
  the other theories take a command with its arguments; here is how it is read from a number and an
  address, and that what a program writes is what the driver reads.
\<close>

section \<open>User memory\<close>

type_synonym user_memory = "u32 \<Rightarrow> u8"

definition get_u16 :: "user_memory \<Rightarrow> u32 \<Rightarrow> u16" where
  "get_u16 um a = ucast (um a) OR push_bit 8 (ucast (um (a + 1)))"

definition get_u32 :: "user_memory \<Rightarrow> u32 \<Rightarrow> u32" where
  "get_u32 um a = ucast (get_u16 um a) OR push_bit 16 (ucast (get_u16 um (a + 2)))"

definition get_bytes :: "user_memory \<Rightarrow> u32 \<Rightarrow> nat \<Rightarrow> u8 list" where
  "get_bytes um a n = map (\<lambda>i. um (a + of_nat i)) [0..<n]"

text \<open>What a program has in its memory from an address on.\<close>

fun bytes_at :: "user_memory \<Rightarrow> u32 \<Rightarrow> u8 list \<Rightarrow> bool" where
  "bytes_at um a [] = True"
| "bytes_at um a (b # bs) = (um a = b \<and> bytes_at um (a + 1) bs)"

definition u16_bytes :: "u16 \<Rightarrow> u8 list" where
  "u16_bytes v = [ucast v, ucast (drop_bit 8 v)]"

definition u32_bytes :: "u32 \<Rightarrow> u8 list" where
  "u32_bytes v = u16_bytes (ucast v) @ u16_bytes (ucast (drop_bit 16 v))"

lemma get_u16_stored: "bytes_at um a (u16_bytes v) \<Longrightarrow> get_u16 um a = v"
  by (rule bit_word_eqI) (auto simp: get_u16_def u16_bytes_def bit_simps)

lemma get_u32_stored: "bytes_at um a (u32_bytes v) \<Longrightarrow> get_u32 um a = v"
proof -
  assume s: "bytes_at um a (u32_bytes v)"
  have "bytes_at um a (u16_bytes (ucast v))" "bytes_at um (a + 2) (u16_bytes (ucast (drop_bit 16 v)))"
    using s by (simp_all add: u32_bytes_def u16_bytes_def add.assoc)
  then have "get_u16 um a = ucast v" "get_u16 um (a + 2) = ucast (drop_bit 16 v)" by (simp_all add: get_u16_stored)
  then show ?thesis by (intro bit_word_eqI) (auto simp: get_u32_def bit_simps)
qed

lemma get_bytes_stored: "bytes_at um a bs \<Longrightarrow> get_bytes um a (length bs) = bs"
proof (induction bs arbitrary: a)
  case (Cons b bs)
  have "get_bytes um a (Suc (length bs)) = um a # get_bytes um (a + 1) (length bs)"
    by (simp add: get_bytes_def upt_conv_Cons map_Suc_upt [symmetric] algebra_simps del: upt_Suc)
  then show ?case using Cons by simp
qed (simp add: get_bytes_def)

lemma stored_append: "bytes_at um a (bs @ cs) \<longleftrightarrow> bytes_at um a bs \<and> bytes_at um (a + of_nat (length bs)) cs"
  by (induction bs arbitrary: a) (auto simp: algebra_simps)

text \<open>A structure of words.\<close>

definition words_stored :: "user_memory \<Rightarrow> u32 \<Rightarrow> u32 list \<Rightarrow> bool" where
  "words_stored um a ws \<longleftrightarrow> bytes_at um a (concat (map u32_bytes ws))"

lemma words_stored_Cons: "words_stored um a (w # ws) \<longleftrightarrow> bytes_at um a (u32_bytes w) \<and> words_stored um (a + 4) ws"
  by (simp add: words_stored_def stored_append) (simp add: u32_bytes_def u16_bytes_def)

lemma words_stored_nth: "words_stored um a ws \<Longrightarrow> i < length ws \<Longrightarrow> get_u32 um (a + of_nat (4 * i)) = ws ! i"
proof (induction ws arbitrary: a i)
  case (Cons w ws)
  then show ?case
    by (cases i) (auto simp: words_stored_Cons get_u32_stored add.assoc [symmetric])
qed simp

lemma get_words:
  "words_stored um a (w # ws) \<Longrightarrow> get_u32 um a = w"
  "words_stored um a (v # w # ws) \<Longrightarrow> get_u32 um (a + 4) = w"
  "words_stored um a (u # v # w # ws) \<Longrightarrow> get_u32 um (a + 8) = w"
  "words_stored um a (t # u # v # w # ws) \<Longrightarrow> get_u32 um (a + 12) = w"
  "words_stored um a (s # t # u # v # w # ws) \<Longrightarrow> get_u32 um (a + 16) = w"
  using words_stored_nth [of um a _ 0] words_stored_nth [of um a _ 1] words_stored_nth [of um a _ 2]
    words_stored_nth [of um a _ 3] words_stored_nth [of um a _ 4] by fastforce+

section \<open>Command numbers\<close>

text \<open>\<open>_IOC\<close> of the kernel: direction, type, number and size of the argument.\<close>

fun ioc_dir_bits :: "ioc_dir \<Rightarrow> u32" where
  "ioc_dir_bits IO = 0" | "ioc_dir_bits IOW = 1" | "ioc_dir_bits IOR = 2" | "ioc_dir_bits IOWR = 3"

fun ioc :: "ioc_dir \<times> nat \<times> nat \<times> nat \<Rightarrow> u32" where
  "ioc (d, t, n, s) = push_bit 30 (ioc_dir_bits d) OR push_bit 16 (of_nat s) OR push_bit 8 (of_nat t) OR of_nat n"

section \<open>The bifrost device\<close>

definition BIFROST_IOCTL_INFO :: u32 where "BIFROST_IOCTL_INFO = ioc (IOR, BIFROST_IOC_MAGIC, 0, 3)"
definition BIFROST_IOCTL_READ_REGB :: u32 where "BIFROST_IOCTL_READ_REGB = ioc (IOWR, BIFROST_IOC_MAGIC, 1, 12)"
definition BIFROST_IOCTL_READ_RANGE_REGB :: u32 where "BIFROST_IOCTL_READ_RANGE_REGB = ioc (IOWR, BIFROST_IOC_MAGIC, 4, 16)"
definition BIFROST_IOCTL_READ_REPEAT_REGB :: u32 where "BIFROST_IOCTL_READ_REPEAT_REGB = ioc (IOWR, BIFROST_IOC_MAGIC, 5, 16)"
definition BIFROST_IOCTL_WRITE_REGB :: u32 where "BIFROST_IOCTL_WRITE_REGB = ioc (IOW, BIFROST_IOC_MAGIC, 2, 12)"
definition BIFROST_IOCTL_WRITE_REPEAT_REGB :: u32 where "BIFROST_IOCTL_WRITE_REPEAT_REGB = ioc (IOWR, BIFROST_IOC_MAGIC, 6, 16)"
definition BIFROST_IOCTL_MODIFY_REGB :: u32 where "BIFROST_IOCTL_MODIFY_REGB = ioc (IOWR, BIFROST_IOC_MAGIC, 3, 20)"
definition BIFROST_IOCTL_START_DMA_UP :: u32 where "BIFROST_IOCTL_START_DMA_UP = ioc (IOW, BIFROST_IOC_MAGIC, 10, 12)"
definition BIFROST_IOCTL_START_DMA_DOWN :: u32 where "BIFROST_IOCTL_START_DMA_DOWN = ioc (IOW, BIFROST_IOC_MAGIC, 11, 12)"
definition BIFROST_IOCTL_START_DMA_DOWN_USER :: u32 where "BIFROST_IOCTL_START_DMA_DOWN_USER = ioc (IOW, BIFROST_IOC_MAGIC, 12, 12)"
definition BIFROST_IOCTL_START_DMA_UP_USER :: u32 where "BIFROST_IOCTL_START_DMA_UP_USER = ioc (IOW, BIFROST_IOC_MAGIC, 13, 12)"
definition BIFROST_IOCTL_ENABLE_EVENT :: u32 where "BIFROST_IOCTL_ENABLE_EVENT = ioc (IOW, BIFROST_IOC_MAGIC, 20, 4)"
definition BIFROST_IOCTL_IRQ_FORWARDING :: u32 where "BIFROST_IOCTL_IRQ_FORWARDING = ioc (IOW, BIFROST_IOC_MAGIC, 21, 4)"
definition BIFROST_IOCTL_DEQUEUE_EVENT :: u32 where "BIFROST_IOCTL_DEQUEUE_EVENT = ioc (IOR, BIFROST_IOC_MAGIC, 22, 48)"
definition BIFROST_IOCTL_SET_REGB_MODE :: u32 where "BIFROST_IOCTL_SET_REGB_MODE = ioc (IOW, BIFROST_IOC_MAGIC, 52, 12)"
definition BIFROST_IOCTL_RESET_DMA :: u32 where "BIFROST_IOCTL_RESET_DMA = ioc (IO, BIFROST_IOC_MAGIC, 53, 0)"

lemma bif_numbers:
  "BIFROST_IOCTL_INFO = 0x80034200"
  "BIFROST_IOCTL_READ_REGB = 0xC00C4201"
  "BIFROST_IOCTL_READ_RANGE_REGB = 0xC0104204"
  "BIFROST_IOCTL_READ_REPEAT_REGB = 0xC0104205"
  "BIFROST_IOCTL_WRITE_REGB = 0x400C4202"
  "BIFROST_IOCTL_WRITE_REPEAT_REGB = 0xC0104206"
  "BIFROST_IOCTL_MODIFY_REGB = 0xC0144203"
  "BIFROST_IOCTL_START_DMA_UP = 0x400C420A"
  "BIFROST_IOCTL_START_DMA_DOWN = 0x400C420B"
  "BIFROST_IOCTL_START_DMA_DOWN_USER = 0x400C420C"
  "BIFROST_IOCTL_START_DMA_UP_USER = 0x400C420D"
  "BIFROST_IOCTL_ENABLE_EVENT = 0x40044214"
  "BIFROST_IOCTL_IRQ_FORWARDING = 0x40044215"
  "BIFROST_IOCTL_DEQUEUE_EVENT = 0x80304216"
  "BIFROST_IOCTL_SET_REGB_MODE = 0x400C4234"
  "BIFROST_IOCTL_RESET_DMA = 0x4235"
    by (simp_all add: BIFROST_IOCTL_INFO_def BIFROST_IOCTL_READ_REGB_def BIFROST_IOCTL_READ_RANGE_REGB_def
      BIFROST_IOCTL_READ_REPEAT_REGB_def BIFROST_IOCTL_WRITE_REGB_def BIFROST_IOCTL_WRITE_REPEAT_REGB_def
      BIFROST_IOCTL_MODIFY_REGB_def BIFROST_IOCTL_START_DMA_UP_def BIFROST_IOCTL_START_DMA_DOWN_def
      BIFROST_IOCTL_START_DMA_DOWN_USER_def BIFROST_IOCTL_START_DMA_UP_USER_def BIFROST_IOCTL_ENABLE_EVENT_def
      BIFROST_IOCTL_IRQ_FORWARDING_def BIFROST_IOCTL_DEQUEUE_EVENT_def BIFROST_IOCTL_SET_REGB_MODE_def
      BIFROST_IOCTL_RESET_DMA_def BIFROST_IOC_MAGIC_def)

text \<open>The structures of the arguments.\<close>

definition bifrost_access_at :: "user_memory \<Rightarrow> u32 \<Rightarrow> u32 \<times> u32 \<times> u32" where
  "bifrost_access_at um a = (get_u32 um a, get_u32 um (a + 4), get_u32 um (a + 8))"

definition bifrost_access_range_at :: "user_memory \<Rightarrow> u32 \<Rightarrow> u32 \<times> u32 \<times> u32 \<times> u32" where
  "bifrost_access_range_at um a = (get_u32 um a, get_u32 um (a + 4), get_u32 um (a + 8), get_u32 um (a + 12))"

definition bifrost_modify_at :: "user_memory \<Rightarrow> u32 \<Rightarrow> u32 \<times> u32 \<times> u32 \<times> u32 \<times> u32" where
  "bifrost_modify_at um a =
     (get_u32 um a, get_u32 um (a + 4), get_u32 um (a + 8), get_u32 um (a + 12), get_u32 um (a + 16))"

definition bifrost_dma_transfer_at :: "user_memory \<Rightarrow> u32 \<Rightarrow> dma_transfer" where
  "bifrost_dma_transfer_at um a = \<lparr>system = get_u32 um a, device = get_u32 um (a + 4), xsize = get_u32 um (a + 8)\<rparr>"

text \<open>The \<open>switch\<close> of the ioctl entry point; ENABLE_EVENT and IRQ_FORWARDING take the argument itself.\<close>

definition bif_decode :: "u32 \<Rightarrow> u32 \<Rightarrow> user_memory \<Rightarrow> bif_cmd" where
  "bif_decode cmd arg um =
     (if cmd = BIFROST_IOCTL_INFO then INFO
      else if cmd = BIFROST_IOCTL_READ_REGB then (case bifrost_access_at um arg of (b, off, v) \<Rightarrow> READ_REGB b off)
      else if cmd = BIFROST_IOCTL_READ_RANGE_REGB then
        (case bifrost_access_range_at um arg of (b, off, values, n) \<Rightarrow> READ_RANGE_REGB b off n)
      else if cmd = BIFROST_IOCTL_READ_REPEAT_REGB then
        (case bifrost_access_range_at um arg of (b, off, values, n) \<Rightarrow> READ_REPEAT_REGB b off n)
      else if cmd = BIFROST_IOCTL_WRITE_REGB then (case bifrost_access_at um arg of (b, off, v) \<Rightarrow> WRITE_REGB b off v)
      else if cmd = BIFROST_IOCTL_WRITE_REPEAT_REGB then
        (case bifrost_access_range_at um arg of (b, off, values, n) \<Rightarrow> WRITE_REPEAT_REGB b off n)
      else if cmd = BIFROST_IOCTL_MODIFY_REGB then
        (case bifrost_modify_at um arg of (b, off, v, clear, setb) \<Rightarrow> MODIFY_REGB b off clear setb)
      else if cmd = BIFROST_IOCTL_START_DMA_UP_USER then
        START_DMA True BIFROST_DMA_DIRECTION_UP (bifrost_dma_transfer_at um arg)
      else if cmd = BIFROST_IOCTL_START_DMA_DOWN_USER then
        START_DMA True BIFROST_DMA_DIRECTION_DOWN (bifrost_dma_transfer_at um arg)
      else if cmd = BIFROST_IOCTL_START_DMA_UP then
        START_DMA False BIFROST_DMA_DIRECTION_UP (bifrost_dma_transfer_at um arg)
      else if cmd = BIFROST_IOCTL_START_DMA_DOWN then
        START_DMA False BIFROST_DMA_DIRECTION_DOWN (bifrost_dma_transfer_at um arg)
      else if cmd = BIFROST_IOCTL_ENABLE_EVENT then ENABLE_EVENT arg
      else if cmd = BIFROST_IOCTL_IRQ_FORWARDING then IRQ_FORWARDING arg
      else if cmd = BIFROST_IOCTL_DEQUEUE_EVENT then DEQUEUE_EVENT
      else if cmd = BIFROST_IOCTL_SET_REGB_MODE then (case bifrost_access_at um arg of (b, off, v) \<Rightarrow> SET_REGB_MODE b off v)
      else if cmd = BIFROST_IOCTL_RESET_DMA then RESET_DMA
      else UNKNOWN)"

text \<open>What a program puts at the address it passes, or passes itself; \<open>ptr\<close> is its buffer, \<open>old\<close> what a
  field that is only written by the driver holds.\<close>

fun bif_args_stored :: "user_memory \<Rightarrow> u32 \<Rightarrow> u32 \<Rightarrow> u32 \<Rightarrow> bif_cmd \<Rightarrow> bool" where
  "bif_args_stored um arg ptr old (READ_REGB b off) = words_stored um arg [b, off, old]"
| "bif_args_stored um arg ptr old (READ_RANGE_REGB b off n) = words_stored um arg [b, off, ptr, n]"
| "bif_args_stored um arg ptr old (READ_REPEAT_REGB b off n) = words_stored um arg [b, off, ptr, n]"
| "bif_args_stored um arg ptr old (WRITE_REGB b off v) = words_stored um arg [b, off, v]"
| "bif_args_stored um arg ptr old (WRITE_REPEAT_REGB b off n) = words_stored um arg [b, off, ptr, n]"
| "bif_args_stored um arg ptr old (MODIFY_REGB b off clear setb) = words_stored um arg [b, off, old, clear, setb]"
| "bif_args_stored um arg ptr old (START_DMA user dir' x) = words_stored um arg [system x, device x, xsize x]"
| "bif_args_stored um arg ptr old (ENABLE_EVENT m) = (arg = m)"
| "bif_args_stored um arg ptr old (IRQ_FORWARDING m) = (arg = m)"
| "bif_args_stored um arg ptr old (SET_REGB_MODE b off v) = words_stored um arg [b, off, v]"
| "bif_args_stored um arg ptr old c = True"

lemmas bif_decode_simps = bif_decode_def bif_numbers BIFROST_IOC_MAGIC_def

lemmas bif_structures = bifrost_access_at_def bifrost_access_range_at_def bifrost_modify_at_def
  bifrost_dma_transfer_at_def get_words

lemma bif_decode_the:
  assumes "bif_ioctl_code c \<noteq> None" and "bif_args_stored um arg ptr old c"
  shows "bif_decode (ioc (the (bif_ioctl_code c))) arg um = c"
proof (cases c)
  case (START_DMA user dir' x)
  have "bifrost_dma_transfer_at um arg = x" using assms(2) START_DMA by (simp add: bif_structures)
  then show ?thesis
    using assms(1) START_DMA by (cases user) (auto simp: bif_decode_simps split: if_splits)
qed (use assms in \<open>simp_all add: bif_decode_simps\<close>, use assms in \<open>simp_all add: bif_structures\<close>)

text \<open>A number the driver accepts is the number of the command it is read as.\<close>

lemma bif_encode_decode:
  "bif_decode cmd arg um \<noteq> UNKNOWN \<Longrightarrow> map_option ioc (bif_ioctl_code (bif_decode cmd arg um)) = Some cmd"
  by (simp add: bif_decode_simps BIFROST_DMA_DIRECTION_UP_def BIFROST_DMA_DIRECTION_DOWN_def
      bifrost_access_at_def bifrost_access_range_at_def bifrost_modify_at_def split: if_split_asm)

lemma bif_decode_known:
  "bif_ioctl_code c \<noteq> None \<Longrightarrow> bif_decode (ioc (the (bif_ioctl_code c))) arg um \<noteq> UNKNOWN"
  by (cases c) (simp_all add: bif_decode_simps bifrost_access_at_def bifrost_access_range_at_def
      bifrost_modify_at_def split: if_split_asm)

section \<open>The I2C driver\<close>

definition ANIMAL_DEVICE_MAJOR :: nat where "ANIMAL_DEVICE_MAJOR = 241"

text \<open>The size in the numbers is the one of a pointer.\<close>

fun animal_ioctl_code :: "animal_cmd \<Rightarrow> (ioc_dir \<times> nat \<times> nat \<times> nat) option" where
  "animal_ioctl_code ANIMAL_IOCTL_INFO = Some (IOR, ANIMAL_DEVICE_MAJOR, 0, 4)"
| "animal_ioctl_code (ANIMAL_IOCTL_SET_ADDRESS a) = Some (IOW, ANIMAL_DEVICE_MAJOR, 1, 4)"
| "animal_ioctl_code (ANIMAL_IOCTL_SET_GPIO g) = Some (IOW, ANIMAL_DEVICE_MAJOR, 2, 4)"
| "animal_ioctl_code (ANIMAL_IOCTL_SET_ADAPTER i) = Some (IOW, ANIMAL_DEVICE_MAJOR, 3, 4)"
| "animal_ioctl_code (ANIMAL_IOCTL_SMB_READ8 c) = Some (IOWR, ANIMAL_DEVICE_MAJOR, 10, 4)"
| "animal_ioctl_code (ANIMAL_IOCTL_SMB_WRITE8 c b) = Some (IOW, ANIMAL_DEVICE_MAJOR, 11, 4)"
| "animal_ioctl_code (ANIMAL_IOCTL_SMB_READ16 c) = Some (IOWR, ANIMAL_DEVICE_MAJOR, 12, 4)"
| "animal_ioctl_code (ANIMAL_IOCTL_SMB_WRITE16 c w) = Some (IOW, ANIMAL_DEVICE_MAJOR, 13, 4)"
| "animal_ioctl_code (ANIMAL_IOCTL_SMB_WRITE_BLOCK c n bs) = Some (IOW, ANIMAL_DEVICE_MAJOR, 14, 4)"
| "animal_ioctl_code (ANIMAL_IOCTL_SMB_READ_BLOCK c n) = Some (IOWR, ANIMAL_DEVICE_MAJOR, 15, 4)"
| "animal_ioctl_code (ANIMAL_IOCTL_I2C_WRITE c n bs) = Some (IOW, ANIMAL_DEVICE_MAJOR, 16, 4)"
| "animal_ioctl_code (ANIMAL_IOCTL_I2C_WRITEREAD c n) = Some (IOWR, ANIMAL_DEVICE_MAJOR, 17, 4)"
| "animal_ioctl_code Unknown_cmd = None"

text \<open>\<open>animal_i2c_message\<close>: the command, three bytes of padding, the size, the data.\<close>

definition message_command :: "user_memory \<Rightarrow> u32 \<Rightarrow> u8" where "message_command um a = um a"
definition message_size :: "user_memory \<Rightarrow> u32 \<Rightarrow> u32" where "message_size um a = get_u32 um (a + 4)"
definition message_byte :: "user_memory \<Rightarrow> u32 \<Rightarrow> u8" where "message_byte um a = um (a + 8)"
definition message_word :: "user_memory \<Rightarrow> u32 \<Rightarrow> u16" where "message_word um a = get_u16 um (a + 8)"
definition message_block :: "user_memory \<Rightarrow> u32 \<Rightarrow> u8 list" where
  "message_block um a = get_bytes um (get_u32 um (a + 8)) (unat (message_size um a))"

lemmas message_fields = message_command_def message_size_def message_byte_def message_word_def message_block_def

text \<open>The commands for I2C messages are the last ones of the \<open>switch\<close>, before the default.\<close>

definition decode_i2c :: "u32 \<Rightarrow> u32 \<Rightarrow> user_memory \<Rightarrow> animal_cmd" where
  "decode_i2c cmd arg um =
     (if cmd = ioc (IOW, ANIMAL_DEVICE_MAJOR, 16, 4) then
        ANIMAL_IOCTL_I2C_WRITE (message_command um arg) (message_size um arg) (message_block um arg)
      else if cmd = ioc (IOWR, ANIMAL_DEVICE_MAJOR, 17, 4) then
        ANIMAL_IOCTL_I2C_WRITEREAD (message_command um arg) (message_size um arg)
      else Unknown_cmd)"

definition animal_decode :: "u32 \<Rightarrow> u32 \<Rightarrow> user_memory \<Rightarrow> animal_cmd" where
  "animal_decode cmd arg um =
     (if cmd = ioc (IOR, ANIMAL_DEVICE_MAJOR, 0, 4) then ANIMAL_IOCTL_INFO
      else if cmd = ioc (IOW, ANIMAL_DEVICE_MAJOR, 1, 4) then ANIMAL_IOCTL_SET_ADDRESS (get_u16 um arg)
      else if cmd = ioc (IOW, ANIMAL_DEVICE_MAJOR, 2, 4) then ANIMAL_IOCTL_SET_GPIO (sint (get_u32 um arg))
      else if cmd = ioc (IOW, ANIMAL_DEVICE_MAJOR, 3, 4) then ANIMAL_IOCTL_SET_ADAPTER (sint (get_u32 um arg))
      else if cmd = ioc (IOWR, ANIMAL_DEVICE_MAJOR, 10, 4) then ANIMAL_IOCTL_SMB_READ8 (message_command um arg)
      else if cmd = ioc (IOW, ANIMAL_DEVICE_MAJOR, 11, 4) then
        ANIMAL_IOCTL_SMB_WRITE8 (message_command um arg) (message_byte um arg)
      else if cmd = ioc (IOWR, ANIMAL_DEVICE_MAJOR, 12, 4) then ANIMAL_IOCTL_SMB_READ16 (message_command um arg)
      else if cmd = ioc (IOW, ANIMAL_DEVICE_MAJOR, 13, 4) then
        ANIMAL_IOCTL_SMB_WRITE16 (message_command um arg) (message_word um arg)
      else if cmd = ioc (IOWR, ANIMAL_DEVICE_MAJOR, 15, 4) then
        ANIMAL_IOCTL_SMB_READ_BLOCK (message_command um arg) (message_size um arg)
      else if cmd = ioc (IOW, ANIMAL_DEVICE_MAJOR, 14, 4) then
        ANIMAL_IOCTL_SMB_WRITE_BLOCK (message_command um arg) (message_size um arg) (message_block um arg)
      else decode_i2c cmd arg um)"

text \<open>What a program has in memory for a command; \<open>ptr\<close> is where its block is.\<close>

definition int_stored :: "user_memory \<Rightarrow> u32 \<Rightarrow> int \<Rightarrow> bool" where
  "int_stored um a i \<longleftrightarrow> - (2 ^ 31) \<le> i \<and> i < 2 ^ 31 \<and> bytes_at um a (u32_bytes (word_of_int i))"

definition block_stored :: "user_memory \<Rightarrow> u32 \<Rightarrow> u32 \<Rightarrow> u8 \<Rightarrow> u32 \<Rightarrow> u8 list \<Rightarrow> bool" where
  "block_stored um arg ptr c n bs \<longleftrightarrow> bytes_at um arg [c] \<and> bytes_at um (arg + 4) (u32_bytes n)
     \<and> bytes_at um (arg + 8) (u32_bytes ptr) \<and> bytes_at um ptr bs \<and> length bs = unat n"

fun animal_args_stored :: "user_memory \<Rightarrow> u32 \<Rightarrow> u32 \<Rightarrow> animal_cmd \<Rightarrow> bool" where
  "animal_args_stored um arg ptr (ANIMAL_IOCTL_SET_ADDRESS a) = bytes_at um arg (u16_bytes a)"
| "animal_args_stored um arg ptr (ANIMAL_IOCTL_SET_GPIO g) = int_stored um arg g"
| "animal_args_stored um arg ptr (ANIMAL_IOCTL_SET_ADAPTER i) = int_stored um arg i"
| "animal_args_stored um arg ptr (ANIMAL_IOCTL_SMB_READ8 c) = bytes_at um arg [c]"
| "animal_args_stored um arg ptr (ANIMAL_IOCTL_SMB_READ16 c) = bytes_at um arg [c]"
| "animal_args_stored um arg ptr (ANIMAL_IOCTL_SMB_WRITE8 c b) = (bytes_at um arg [c] \<and> bytes_at um (arg + 8) [b])"
| "animal_args_stored um arg ptr (ANIMAL_IOCTL_SMB_WRITE16 c w) = (bytes_at um arg [c] \<and> bytes_at um (arg + 8) (u16_bytes w))"
| "animal_args_stored um arg ptr (ANIMAL_IOCTL_SMB_READ_BLOCK c n) = (bytes_at um arg [c] \<and> bytes_at um (arg + 4) (u32_bytes n))"
| "animal_args_stored um arg ptr (ANIMAL_IOCTL_I2C_WRITEREAD c n) = (bytes_at um arg [c] \<and> bytes_at um (arg + 4) (u32_bytes n))"
| "animal_args_stored um arg ptr (ANIMAL_IOCTL_SMB_WRITE_BLOCK c n bs) = block_stored um arg ptr c n bs"
| "animal_args_stored um arg ptr (ANIMAL_IOCTL_I2C_WRITE c n bs) = block_stored um arg ptr c n bs"
| "animal_args_stored um arg ptr c = True"

lemma get_int_stored:
  assumes "int_stored um a i"
  shows "sint (get_u32 um a) = i"
proof -
  have "get_u32 um a = word_of_int i" using assms by (intro get_u32_stored) (simp add: int_stored_def)
  moreover have "sint (word_of_int i :: u32) = i"
    using assms by (simp only: sint_sbintrunc') (simp add: signed_take_bit_int_eq_self int_stored_def)
  ultimately show ?thesis by simp
qed

lemma message_block_stored:
  assumes "block_stored um arg ptr c n bs"
  shows "message_command um arg = c \<and> message_size um arg = n \<and> message_block um arg = bs"
proof -
  have "get_u32 um (arg + 4) = n" "get_u32 um (arg + 8) = ptr"
    using assms by (auto simp: block_stored_def intro: get_u32_stored)
  moreover have "get_bytes um ptr (length bs) = bs"
    using assms by (intro get_bytes_stored) (simp add: block_stored_def)
  ultimately show ?thesis using assms by (simp add: block_stored_def message_fields)
qed

lemma animal_decode_the:
  assumes "animal_ioctl_code c \<noteq> None" and "animal_args_stored um arg ptr c"
  shows "animal_decode (ioc (the (animal_ioctl_code c))) arg um = c"
  using assms
  by (cases c) (simp_all add: animal_decode_def decode_i2c_def ANIMAL_DEVICE_MAJOR_def get_int_stored message_block_stored,
      simp_all add: message_fields get_u16_stored get_u32_stored)

lemma animal_encode_decode:
  "animal_decode cmd arg um \<noteq> Unknown_cmd \<Longrightarrow> map_option ioc (animal_ioctl_code (animal_decode cmd arg um)) = Some cmd"
  by (simp add: animal_decode_def decode_i2c_def ANIMAL_DEVICE_MAJOR_def split: if_split_asm)

lemma animal_decode_known:
  "animal_ioctl_code c \<noteq> None \<Longrightarrow> animal_decode (ioc (the (animal_ioctl_code c))) arg um \<noteq> Unknown_cmd"
  by (cases c) (simp_all add: animal_decode_def decode_i2c_def ANIMAL_DEVICE_MAJOR_def)

section \<open>The I2C simulator\<close>

definition I2C_USIM_IOC_MAGIC :: nat where "I2C_USIM_IOC_MAGIC = 85"

definition I2C_USIM_IOC_GET_EVENT :: u32 where "I2C_USIM_IOC_GET_EVENT = ioc (IOWR, I2C_USIM_IOC_MAGIC, 1, 536)"
definition I2C_USIM_IOC_PUT_EVENT :: u32 where "I2C_USIM_IOC_PUT_EVENT = ioc (IOWR, I2C_USIM_IOC_MAGIC, 2, 536)"

text \<open>The structure \<open>i2c_usim_ioc_event\<close> holds the sender, the ticket, the type, the bus, the address and the
  length, a word each, then the data.\<close>

definition usim_decode :: "u32 \<Rightarrow> u32 \<Rightarrow> user_memory \<Rightarrow> usim_cmd" where
  "usim_decode cmd arg um =
     (if cmd = I2C_USIM_IOC_GET_EVENT then GET_EVENT
      else if cmd = I2C_USIM_IOC_PUT_EVENT then
        PUT_EVENT (get_u32 um (arg + 4)) (get_u32 um (arg + 20)) (get_bytes um (arg + 24) DATA_SIZE)
      else Other_cmd)"

lemma usim_decode_put:
  assumes "bytes_at um (arg + 4) (u32_bytes t)" and "bytes_at um (arg + 20) (u32_bytes n)"
    and "bytes_at um (arg + 24) bs" and "length bs = DATA_SIZE"
  shows "usim_decode I2C_USIM_IOC_PUT_EVENT arg um = PUT_EVENT t n bs"
  using assms get_bytes_stored [OF assms(3)]
  by (simp add: usim_decode_def I2C_USIM_IOC_GET_EVENT_def I2C_USIM_IOC_PUT_EVENT_def I2C_USIM_IOC_MAGIC_def get_u32_stored)

section \<open>CMEM\<close>

text \<open>The argument of every command is the union \<open>CMEM_AllocUnion\<close>, three words whose meaning depends on
  the command.\<close>

definition alloc_union_at :: "user_memory \<Rightarrow> u32 \<Rightarrow> u32 \<times> u32 \<times> u32" where
  "alloc_union_at um a = (get_u32 um a, get_u32 um (a + 4), get_u32 um (a + 8))"

text \<open>What a program asks for: the base commands with their flavours.\<close>

datatype cmem_request =
    Alloc bool int int              \<comment> \<open>cached, poolid, blockid\<close>
  | Alloc_heap bool u32 u32 int     \<comment> \<open>cached, size, align, blockid\<close>
  | Free bool bool u32              \<comment> \<open>heap, by physical address, address\<close>
  | Get_phys u32
  | Get_size int int
  | Get_pool u32 int
  | Cache bool bool u32 u32         \<comment> \<open>write back, invalidate, address, size\<close>
  | Get_version
  | Get_block u32
  | Reg_user u32
  | Get_num_blocks

definition flavour :: "bool \<Rightarrow> u32 \<Rightarrow> u32" where
  "flavour b f = (if b then f else 0)"

fun cmem_number :: "cmem_request \<Rightarrow> u32" where
  "cmem_number (Alloc cached poolid blockid) = CMEM_IOCMAGIC OR CMEM_IOCALLOC OR flavour cached CMEM_CACHED"
| "cmem_number (Alloc_heap cached sz align blockid) = CMEM_IOCMAGIC OR CMEM_IOCALLOCHEAP OR flavour cached CMEM_CACHED"
| "cmem_number (Free heap by_phys a) = CMEM_IOCMAGIC OR CMEM_IOCFREE OR flavour heap CMEM_HEAP OR flavour by_phys CMEM_PHYS"
| "cmem_number (Get_phys a) = CMEM_IOCMAGIC OR CMEM_IOCGETPHYS"
| "cmem_number (Get_size poolid blockid) = CMEM_IOCMAGIC OR CMEM_IOCGETSIZE"
| "cmem_number (Get_pool sz blockid) = CMEM_IOCMAGIC OR CMEM_IOCGETPOOL"
| "cmem_number (Cache wb inval a sz) = CMEM_IOCMAGIC OR CMEM_IOCCACHE OR flavour wb CMEM_WB OR flavour inval CMEM_INV"
| "cmem_number Get_version = CMEM_IOCMAGIC OR CMEM_IOCGETVERSION"
| "cmem_number (Get_block i) = CMEM_IOCMAGIC OR CMEM_IOCGETBLOCK"
| "cmem_number (Reg_user a) = CMEM_IOCMAGIC OR CMEM_IOCREGUSER"
| "cmem_number Get_num_blocks = CMEM_IOCMAGIC OR CMEM_IOCGETNUMBLOCKS"

fun cmem_args_stored :: "user_memory \<Rightarrow> u32 \<Rightarrow> cmem_request \<Rightarrow> bool" where
  "cmem_args_stored um arg (Alloc cached poolid blockid) = (int_stored um arg poolid \<and> int_stored um (arg + 4) blockid)"
| "cmem_args_stored um arg (Alloc_heap cached sz align blockid) =
     (bytes_at um arg (u32_bytes sz) \<and> bytes_at um (arg + 4) (u32_bytes align) \<and> int_stored um (arg + 8) blockid)"
| "cmem_args_stored um arg (Free heap by_phys a) = bytes_at um arg (u32_bytes a)"
| "cmem_args_stored um arg (Get_phys a) = bytes_at um arg (u32_bytes a)"
| "cmem_args_stored um arg (Get_size poolid blockid) = (int_stored um arg poolid \<and> int_stored um (arg + 4) blockid)"
| "cmem_args_stored um arg (Get_pool sz blockid) = (bytes_at um arg (u32_bytes sz) \<and> int_stored um (arg + 4) blockid)"
| "cmem_args_stored um arg (Cache wb inval a sz) = (bytes_at um arg (u32_bytes a) \<and> bytes_at um (arg + 4) (u32_bytes sz))"
| "cmem_args_stored um arg (Get_block i) = bytes_at um arg (u32_bytes i)"
| "cmem_args_stored um arg (Reg_user a) = bytes_at um arg (u32_bytes a)"
| "cmem_args_stored um arg r = True"

text \<open>What the request does, by the handlers of the commands.\<close>

fun cmem_request_result :: "mm \<Rightarrow> io \<Rightarrow> filp \<Rightarrow> cmem_request \<Rightarrow> u32 \<Rightarrow> cmem \<Rightarrow> outcome" where
  "cmem_request_result mm io filp (Alloc cached poolid blockid) w st =
     ioctl_ALLOC io filp (cmem_number (Alloc cached poolid blockid)) poolid blockid w st"
| "cmem_request_result mm io filp (Alloc_heap cached sz align blockid) w st =
     ioctl_ALLOCHEAP mm io filp (cmem_number (Alloc_heap cached sz align blockid)) sz align blockid st"
| "cmem_request_result mm io filp (Free heap by_phys a) w st =
     ioctl_FREE mm io filp (cmem_number (Free heap by_phys a)) a st"
| "cmem_request_result mm io filp (Get_phys a) w st = ioctl_GETPHYS mm io a st"
| "cmem_request_result mm io filp (Get_size poolid blockid) w st = ioctl_GETSIZE io poolid blockid st"
| "cmem_request_result mm io filp (Get_pool sz blockid) w st = ioctl_GETPOOL io sz blockid st"
| "cmem_request_result mm io filp (Cache wb inval a sz) w st =
     (if \<not> io.copy_in io then (Fail EFAULT, st)
      else (Done [], st\<lparr>cache_ops := cache_ops st @
        (if wb \<and> inval then [Cache_flush a sz] else if wb then [Cache_clean a sz] else if inval then [Cache_inv a sz] else [])\<rparr>))"
| "cmem_request_result mm io filp Get_version w st = ioctl_GETVERSION io st"
| "cmem_request_result mm io filp (Get_block i) w st = ioctl_GETBLOCK io i w st"
| "cmem_request_result mm io filp (Reg_user a) w st = ioctl_REGUSER io filp a st"
| "cmem_request_result mm io filp Get_num_blocks w st = ioctl_GETNUMBLOCKS io st"

lemma cmem_request_arrives:
  assumes "cmem_args_stored um arg r"
  shows "cmem_ioctl mm io filp (cmem_number r) (alloc_union_at um arg) st
       = cmem_request_result mm io filp r (get_u32 um (arg + 8)) st"
proof -
  note defs = cmem_ioctl_def alloc_union_at_def flavour_def ioctl_CACHE_def CMEM_IOCMAGIC_def CMEM_IOCCMDMASK_def
    CMEM_WB_def CMEM_INV_def CMEM_HEAP_def CMEM_CACHED_def CMEM_PHYS_def
  show ?thesis
  proof (cases r)
    case (Alloc cached poolid blockid)
    then have "sint (get_u32 um arg) = poolid" "sint (get_u32 um (arg + 4)) = blockid"
      using assms get_int_stored by auto
    then show ?thesis using Alloc by (simp add: defs)
  next
    case (Alloc_heap cached sz align blockid)
    then have "get_u32 um arg = sz" "get_u32 um (arg + 4) = align" "sint (get_u32 um (arg + 8)) = blockid"
      using assms get_int_stored get_u32_stored by auto
    then show ?thesis using Alloc_heap by (simp add: defs)
  next
    case (Get_size poolid blockid)
    then have "sint (get_u32 um arg) = poolid" "sint (get_u32 um (arg + 4)) = blockid"
      using assms get_int_stored by auto
    then show ?thesis using Get_size by (simp add: defs)
  next
    case (Get_pool sz blockid)
    then have "get_u32 um arg = sz" "sint (get_u32 um (arg + 4)) = blockid"
      using assms get_int_stored get_u32_stored by auto
    then show ?thesis using Get_pool by (simp add: defs)
  qed (use assms in \<open>simp_all add: defs get_u32_stored\<close>)
qed

section \<open>The properties\<close>

text \<open>C25: What a program asks for is what the driver does: a command number of the API headers and the
  arguments laid out in user memory as the headers say are read by the bifrost device and the I2C
  driver as exactly that command, and the CMEM driver runs exactly the handler of the request,
  whatever the flavour bits of its number.\<close>

theorem requests_arrive:
  "(bif_ioctl_code b = Some code \<longrightarrow> bif_args_stored um arg ptr old b \<longrightarrow> bif_decode (ioc code) arg um = b)
   \<and> (animal_ioctl_code a = Some code \<longrightarrow> animal_args_stored um arg ptr a \<longrightarrow> animal_decode (ioc code) arg um = a)
   \<and> (cmem_args_stored um arg r \<longrightarrow>
        cmem_ioctl mm io filp (cmem_number r) (alloc_union_at um arg) st
        = cmem_request_result mm io filp r (get_u32 um (arg + 8)) st)"
  using bif_decode_the [of b um arg ptr old] animal_decode_the [of a um arg ptr]
    cmem_request_arrives [of um arg r mm io filp st] by (metis option.sel option.distinct(1))

definition demo_memory :: user_memory where
  "demo_memory a = (if a = 0x1000 then 1 else if a = 0x1004 then 8 else 0)"

theorem requests_arrive_witness: "bif_decode 0xC00C4201 0x1000 demo_memory = READ_REGB 1 8"
proof -
  have "bif_args_stored demo_memory 0x1000 0 0 (READ_REGB 1 8)"
    by (simp add: words_stored_def u32_bytes_def u16_bytes_def demo_memory_def)
  moreover have "bif_ioctl_code (READ_REGB 1 8) = Some (IOWR, BIFROST_IOC_MAGIC, 1, 12)" by simp
  moreover have "ioc (IOWR, BIFROST_IOC_MAGIC, 1, 12) = 0xC00C4201" by (simp add: BIFROST_IOC_MAGIC_def)
  ultimately show ?thesis
    using requests_arrive [of "READ_REGB 1 8" "(IOWR, BIFROST_IOC_MAGIC, 1, 12)" demo_memory "0x1000" 0 0] by metis
qed

text \<open>Any number that belongs to no command is refused.\<close>

theorem other_numbers_refused:
  "(bif_decode cmd arg um = UNKNOWN \<longleftrightarrow> (\<forall>c code. bif_ioctl_code c = Some code \<longrightarrow> ioc code \<noteq> cmd))
   \<and> (animal_decode cmd arg um = Unknown_cmd \<longleftrightarrow> (\<forall>c code. animal_ioctl_code c = Some code \<longrightarrow> ioc code \<noteq> cmd))"
  using bif_encode_decode [of cmd arg um] animal_encode_decode [of cmd arg um]
    bif_decode_known [of _ arg um] animal_decode_known [of _ arg um] by fastforce

end
