(* ===== verification/BifrostIrq.thy ===== *)
theory BifrostIrq
  imports BifrostBus BifrostEvents
begin

text \<open>
  The interrupt services of the FPGA on the memory bus (\<open>bifrost/bifrost_membus.c\<close>): they
  read the cause of the interrupt from FPGA registers and post events to the work queue.
  The state is the trace of register accesses and the work queue. \<open>ok k\<close> says whether the
  k-th post of a service finds memory; \<open>now\<close> is the wall clock in nanoseconds. The
  services reuse one event structure for all the events they post.
\<close>

section \<open>The state of an interrupt service\<close>

type_synonym isr_state = "bus \<times> event list"
type_synonym 'a isr = "(isr_state, 'a) state"

definition rd_reg :: "hardware \<Rightarrow> u32 \<Rightarrow> u32 isr" where
  "rd_reg hw off = State (\<lambda>(tr, ws).
     let (v, tr') = run_state (membus_read_device_memory hw 0 off) tr in (v, (tr', ws)))"

definition post :: "bool \<Rightarrow> event \<Rightarrow> unit isr" where
  "post ok e = State (\<lambda>(tr, ws). ((), (tr, bifrost_create_event_in_atomic ok e ws)))"

lemma run_rd_reg [simp]:
  "run_state (rd_reg hw off) (tr, ws) =
     (ucast (ucast (hw (tr @ [Rd16 0 (push_bit 1 off)])) :: u16),
      (tr @ [Rd16 0 (push_bit 1 off)], ws))"
  by (simp add: rd_reg_def membus_read_device_memory_def)

lemma run_post [simp]:
  "run_state (post ok e) (tr, ws) = ((), (tr, if ok then ws @ [e] else ws))"
  by (simp add: post_def bifrost_create_event_in_atomic_def)

definition zero_event :: event where
  "zero_event = \<lparr>ev_type = 0, ev_data = replicate 6 0, received = 0, forwarded = 0\<rparr>"

definition irq_event :: "u32 \<Rightarrow> event \<Rightarrow> event" where
  "irq_event source e = set_word 0 source (e\<lparr>ev_type := BIFROST_EVENT_TYPE_IRQ\<rparr>)"

definition set_time :: "int \<Rightarrow> event \<Rightarrow> event" where
  "set_time now e = set_word 4 (word_of_int (now mod 1000000000))
     (set_word 3 (word_of_int (now div 1000000000)) e)"

section \<open>Board execute interrupt\<close>

definition FVDInterruptService :: "hardware \<Rightarrow> (nat \<Rightarrow> bool) \<Rightarrow> unit isr" where
  "FVDInterruptService hw ok =
     do { exec_status \<leftarrow> rd_reg hw 0x1C;
          post (ok 0) (set_word 1 exec_status (irq_event 1 zero_event)) }"

section \<open>HostIntr 1\<close>

definition irq1_execute :: "bool \<Rightarrow> u32 \<Rightarrow> event \<Rightarrow> event isr" where
  "irq1_execute ok hit e =
     (if hit AND 0x10 \<noteq> 0 then
        do { post ok (irq_event 0x40 e); State_Monad.return (irq_event 0x40 e) }
      else State_Monad.return e)"

definition irq1_bob :: "bool \<Rightarrow> u32 \<Rightarrow> event \<Rightarrow> event isr" where
  "irq1_bob ok hit e =
     (if hit AND 0x20 \<noteq> 0 then
        do { post ok (irq_event 0x02 e); State_Monad.return (irq_event 0x02 e) }
      else State_Monad.return e)"

definition irq1_jpegls :: "hardware \<Rightarrow> bool \<Rightarrow> int \<Rightarrow> u32 \<Rightarrow> event \<Rightarrow> event isr" where
  "irq1_jpegls hw ok now hit e =
     (if hit AND 0x100 \<noteq> 0 then
        do { frameNo \<leftarrow> rd_reg hw 0x170;
             frameSize \<leftarrow> rd_reg hw (0x171 + frameNo);
             let e' = set_time now (set_word 2 frameSize (set_word 1 frameNo (irq_event 0x04 e)));
             post ok e';
             State_Monad.return e' }
      else State_Monad.return e)"

definition irq1_dio :: "hardware \<Rightarrow> bool \<Rightarrow> u32 \<Rightarrow> event \<Rightarrow> event isr" where
  "irq1_dio hw ok hit e =
     (if hit AND 0x200 \<noteq> 0 then
        do { camtype \<leftarrow> rd_reg hw 0x23;
             status \<leftarrow> (if camtype AND 0xFFFF = 0x8 then rd_reg hw 0x150
                        else if camtype AND 0xFFFF = 0x19 then rd_reg hw 0x152
                        else if camtype AND 0xFFFF = 0x1F then rd_reg hw 0x152
                        else State_Monad.return 0);
             let e' = set_word 1 status (irq_event 0x08 e);
             post ok e';
             State_Monad.return e' }
      else State_Monad.return e)"

definition irq1_cable :: "hardware \<Rightarrow> bool \<Rightarrow> u32 \<Rightarrow> event \<Rightarrow> event isr" where
  "irq1_cable hw ok hit e =
     (if hit AND 0x400 \<noteq> 0 then
        do { hsi_state \<leftarrow> rd_reg hw 0x141;
             let cable_state = (if hsi_state AND 0x10 \<noteq> 0 then 0 else 1);
             let e' = set_word 1 cable_state (irq_event 0x10 e);
             post ok e';
             State_Monad.return e' }
      else State_Monad.return e)"

definition FVDIRQ1Service :: "hardware \<Rightarrow> (nat \<Rightarrow> bool) \<Rightarrow> int \<Rightarrow> unit isr" where
  "FVDIRQ1Service hw ok now =
     do { mask \<leftarrow> rd_reg hw 0x38;
          vector \<leftarrow> rd_reg hw 0x37;
          let hit = mask AND vector;
          e1 \<leftarrow> irq1_execute (ok 0) hit zero_event;
          e2 \<leftarrow> irq1_bob (ok 1) hit e1;
          e3 \<leftarrow> irq1_jpegls hw (ok 2) now hit e2;
          e4 \<leftarrow> irq1_dio hw (ok 3) hit e3;
          e5 \<leftarrow> irq1_cable hw (ok 4) hit e4;
          State_Monad.return () }"

section \<open>HostIntr 2\<close>

text \<open>
  The packing of the frame data of the EC501. In C \<open>hd2 & 0xF << 8\<close> is
  \<open>hd2 & (0xF << 8)\<close>: the shift binds tighter.
\<close>

definition ec501_frame_no :: "u32 \<Rightarrow> u32 \<Rightarrow> u32 \<Rightarrow> u32 \<Rightarrow> u32 \<Rightarrow> u32 \<Rightarrow> u32" where
  "ec501_frame_no bufNo hd1 hd2 hd3 hd5 frameCnt =
     (bufNo AND 0xF)
     OR (if hd5 AND 0x1 \<noteq> 0 then 0x10 else 0)
     OR (if hd5 AND 0x100 \<noteq> 0 then 0x20 else 0)
     OR (if hd1 AND 0x1 \<noteq> 0 then 0x40 else 0)
     OR (if hd1 AND 0x100 \<noteq> 0 then 0x80 else 0)
     OR (hd2 AND push_bit 8 0xF)
     OR push_bit 12 (drop_bit 8 hd3 AND 0xF)
     OR push_bit 16 frameCnt"

definition ec501_line_stamps :: "u32 \<Rightarrow> u32 \<Rightarrow> u32 \<Rightarrow> u32" where
  "ec501_line_stamps hd2 hd3 hd4 =
     (drop_bit 8 hd2 AND 0xFF) OR push_bit 8 (hd3 AND 0xFF) OR push_bit 16 (hd4 AND 0xFFFF)"

definition FVDIRQ2Service :: "hardware \<Rightarrow> (nat \<Rightarrow> bool) \<Rightarrow> int \<Rightarrow> unit isr" where
  "FVDIRQ2Service hw ok now =
     do { camtype \<leftarrow> rd_reg hw 0x23;
          e \<leftarrow> (if camtype AND 0xFFFF = 0x19 \<or> camtype AND 0xFFFF = 0x1F then
                  do { bufNo \<leftarrow> rd_reg hw 0xb9;
                       hd1 \<leftarrow> rd_reg hw 0x14E;
                       hd2 \<leftarrow> rd_reg hw 0x14F;
                       hd3 \<leftarrow> rd_reg hw 0x150;
                       hd4 \<leftarrow> rd_reg hw 0x151;
                       hd5 \<leftarrow> rd_reg hw 0x152;
                       frameCnt \<leftarrow> rd_reg hw 0x153;
                       State_Monad.return
                         (set_word 2 (ec501_line_stamps hd2 hd3 hd4)
                           (set_word 1 (ec501_frame_no bufNo hd1 hd2 hd3 hd5 frameCnt) zero_event)) }
                else if camtype AND 0xFFFF = 0x2A \<or> camtype AND 0xFFFF = 0x26 then
                  do { bufNo \<leftarrow> rd_reg hw 0xb9;
                       State_Monad.return (set_word 1 (bufNo AND 0xF) zero_event) }
                else State_Monad.return zero_event);
          post (ok 0) (set_time now (irq_event 0x20 e)) }"

end
