(* ===== verification/BifrostLoad.thy ===== *)
theory BifrostLoad
  imports BifrostDevice BifrostIrq "HOL-Library.Multiset"
begin

text \<open>
  Loading and unloading of the bifrost module: the table of message-signaled interrupts, the
  PCI Express configuration and the probe (\<open>bifrost/bifrost_pci.c\<close>), the memory bus
  (\<open>bifrost/bifrost_membus.c\<close>), the character device (\<open>bifrost/bifrost_cdev.c\<close>) and the entry
  and exit points (\<open>bifrost/bifrost_main.c\<close>). What the module holds of the kernel is a
  multiset of resources; which requests the kernel grants is a parameter.
\<close>

section \<open>Message-signaled interrupts\<close>

definition NO_IRQ :: u32 where "NO_IRQ = -1"

datatype msi_handler = Dma_msi_handler | Default_msi_handler | Fvd_msi_handler

text \<open>The flags are 0 in every entry; \<open>msi_data\<close> says whether the device is attached.\<close>

record msi_action =
  msi_irq :: u32
  msi_vec :: nat
  msi_name :: string
  msi_handler :: "msi_handler option"
  msi_data :: bool

definition MSI_ENABLE :: "string \<Rightarrow> msi_handler \<Rightarrow> msi_action" where
  "MSI_ENABLE name h = \<lparr>msi_irq = NO_IRQ, msi_vec = 0, msi_name = name, msi_handler = Some h, msi_data = False\<rparr>"

definition MSI_DISABLED :: msi_action where
  "MSI_DISABLED = \<lparr>msi_irq = NO_IRQ, msi_vec = 0, msi_name = '''', msi_handler = None, msi_data = False\<rparr>"

definition msi_table :: "msi_action list" where
  "msi_table =
     [MSI_ENABLE ''dma0'' Dma_msi_handler, MSI_ENABLE ''dma1'' Dma_msi_handler,
      MSI_ENABLE ''dma2'' Dma_msi_handler, MSI_ENABLE ''dma3'' Dma_msi_handler,
      MSI_ENABLE ''dma4'' Dma_msi_handler, MSI_ENABLE ''dma5'' Dma_msi_handler,
      MSI_ENABLE ''dma6'' Dma_msi_handler, MSI_ENABLE ''dma7'' Dma_msi_handler,
      MSI_ENABLE ''err'' Default_msi_handler, MSI_DISABLED,
      MSI_ENABLE ''syssync'' Default_msi_handler, MSI_ENABLE ''clrx_sync'' Default_msi_handler,
      MSI_ENABLE ''vin0_sync'' Default_msi_handler, MSI_ENABLE ''vin1_sync'' Default_msi_handler,
      MSI_ENABLE ''irig_pps'' Default_msi_handler, MSI_ENABLE ''mdst_done'' Default_msi_handler,
      MSI_ENABLE ''mdsrx6_done'' Default_msi_handler, MSI_ENABLE ''manual_IRQ'' Default_msi_handler]
     @ replicate 14 MSI_DISABLED"

definition msi_fvd_table :: "msi_action list" where
  "msi_fvd_table =
     [MSI_ENABLE ''dma0'' Dma_msi_handler] @ replicate 7 MSI_DISABLED
     @ [MSI_ENABLE ''fvd_interrupt'' Fvd_msi_handler] @ replicate 23 MSI_DISABLED"

section \<open>The state of the module\<close>

datatype bif_resource =
    Pci_driver | Pci_device | Msi | Regions | Bar_map nat | Irq_line u32 | Dma_memory | Sysfs_group
  | Fvd_device | Fvd_gpio nat | Fvd_irq nat
  | Bdev | Work_pool | Work_queue | Chrdev_region | Cdev | Class | Device_node | Dma_buffer

text \<open>\<open>bound\<close> is the kernel's: the PCI device belongs to the driver. \<open>cfg\<close> is the configuration
  space of the device.\<close>

record 's load_state =
  held :: "bif_resource multiset"
  dev :: bifrost_device
  msi :: "msi_action list"
  msi_interrupts :: nat
  cfg :: 's
  pdev :: bool
  bound :: bool
  cdev_initialized :: bool

text \<open>What the kernel grants. Requests whose error the code returns give that error.\<close>

record 's bif_kernel =
  k_mach :: machine
  k_hw :: hardware
  k_membus :: u32
  kzalloc_bdev :: bool
  mempool_create :: bool
  create_workqueue :: bool
  pci_register_driver :: "errno option"
  device_present :: bool
  pci_irq :: int
  pci_enable_device :: bool
  pcie_set_readrq :: bool
  pcie_cap :: nat
  read_config_word :: "nat \<Rightarrow> 's \<Rightarrow> u16 res"
  write_config_dword :: "nat \<Rightarrow> u32 \<Rightarrow> 's \<Rightarrow> unit res \<times> 's"
  pci_enable_msi :: bool
  pci_request_regions :: bool
  resource_len :: "nat \<Rightarrow> u32"
  iomap :: "nat \<Rightarrow> bool"
  request_irq :: "u32 \<Rightarrow> bool"
  kzalloc_ctl :: bool
  sysfs_create_group :: bool
  platform_device_alloc :: bool
  gpio_is_valid :: "nat \<Rightarrow> bool"
  gpio_request :: "nat \<Rightarrow> bool"
  fpga_request_irq :: "nat \<Rightarrow> errno option"
  alloc_chrdev_region :: "errno option"
  cdev_add_error :: "errno option"

definition acquire :: "bif_resource \<Rightarrow> 's load_state \<Rightarrow> 's load_state" where
  "acquire r st = st\<lparr>held := add_mset r (held st)\<rparr>"

definition release :: "bif_resource \<Rightarrow> 's load_state \<Rightarrow> 's load_state" where
  "release r st = st\<lparr>held := held st - {#r#}\<rparr>"

section \<open>Attaching the interrupts\<close>

definition request_msi :: "'s bif_kernel \<Rightarrow> nat \<Rightarrow> int \<Rightarrow> 's load_state \<Rightarrow> bool \<times> 's load_state" where
  "request_msi k n hw_irq st =
     (let m = (msi st ! n)\<lparr>msi_vec := n, msi_irq := word_of_int (hw_irq + int n), msi_data := True\<rparr>;
          st = st\<lparr>msi := (msi st)[n := m]\<rparr>
      in if request_irq k (msi_irq m) then (True, acquire (Irq_line (msi_irq m)) st) else (False, st))"

definition attach_msi :: "'s bif_kernel \<Rightarrow> int \<Rightarrow> nat \<Rightarrow> 's load_state \<Rightarrow> 's load_state" where
  "attach_msi k hw_irq n st =
     (if msi_handler (msi st ! n) = None then st
      else if msi_irq (msi st ! n) \<noteq> NO_IRQ then st
      else case request_msi k n hw_irq st of
        (True, st) \<Rightarrow> st
      | (False, st) \<Rightarrow> st\<lparr>msi := (msi st)[n := (msi st ! n)\<lparr>msi_irq := NO_IRQ\<rparr>]\<rparr>)"

definition bifrost_attach_msis_to_irq :: "'s bif_kernel \<Rightarrow> int \<Rightarrow> 's load_state \<Rightarrow> 's load_state" where
  "bifrost_attach_msis_to_irq k hw_irq st =
     (let st = (if platform_fvd (k_mach k)
                then st\<lparr>msi := take (msi_interrupts st) msi_fvd_table @ drop (msi_interrupts st) (msi st)\<rparr>
                else st)
      in fold (attach_msi k hw_irq) [0..<msi_interrupts st] st)"

definition detach_msi :: "nat \<Rightarrow> 's load_state \<Rightarrow> 's load_state" where
  "detach_msi n st =
     (let m = msi st ! n
      in if msi_irq m \<noteq> NO_IRQ then release (Irq_line (msi_irq m)) (st\<lparr>msi := (msi st)[n := m\<lparr>msi_irq := NO_IRQ\<rparr>]\<rparr>)
         else st)"

definition bifrost_detach_msis :: "'s load_state \<Rightarrow> 's load_state" where
  "bifrost_detach_msis st = fold detach_msi [0..<32] st"

definition fvd_msi_handler :: "hardware \<Rightarrow> (nat \<Rightarrow> bool) \<Rightarrow> unit isr" where
  "fvd_msi_handler = FVDInterruptService"

section \<open>PCI Express configuration\<close>

definition PCI_EXP_DEVCTL :: nat where "PCI_EXP_DEVCTL = 8"
definition PCI_EXP_DEVCTL_PAYLOAD :: u16 where "PCI_EXP_DEVCTL_PAYLOAD = 0xe0"
definition PCI_EXP_DEVCTL_EXT_TAG :: u16 where "PCI_EXP_DEVCTL_EXT_TAG = 0x100"

definition is_power_of_2 :: "u32 \<Rightarrow> bool" where
  "is_power_of_2 n \<longleftrightarrow> n \<noteq> 0 \<and> n AND (n - 1) = 0"

definition payload_field :: "int \<Rightarrow> u16" where
  "payload_field pl = push_bit 5 (word_of_int (ffs (word_of_int pl) - 8))"

definition pcie_set_mps :: "'s bif_kernel \<Rightarrow> int \<Rightarrow> 's \<Rightarrow> unit res \<times> 's" where
  "pcie_set_mps k pl c =
     (if pl < 128 \<or> pl > 4096 \<or> \<not> is_power_of_2 (word_of_int pl) then (Fail EINVAL, c)
      else
        let v = payload_field pl
        in if pcie_cap k = 0 then (Fail EINVAL, c)
           else case read_config_word k (pcie_cap k + PCI_EXP_DEVCTL) c of
                  Done ctl \<Rightarrow>
                    if ctl AND PCI_EXP_DEVCTL_PAYLOAD \<noteq> v then
                      write_config_dword k (pcie_cap k + PCI_EXP_DEVCTL)
                        (ucast ((ctl AND NOT PCI_EXP_DEVCTL_PAYLOAD) OR v)) c
                    else (Done (), c)
                | Fail e \<Rightarrow> (Fail e, c)
                | Crash f \<Rightarrow> (Crash f, c))"

definition pcie_set_ext_tag :: "'s bif_kernel \<Rightarrow> 's \<Rightarrow> unit res \<times> 's" where
  "pcie_set_ext_tag k c =
     (if pcie_cap k = 0 then (Fail EINVAL, c)
      else case read_config_word k (pcie_cap k + PCI_EXP_DEVCTL) c of
             Done ctl \<Rightarrow>
               if ctl AND PCI_EXP_DEVCTL_EXT_TAG = 0 then
                 write_config_dword k (pcie_cap k + PCI_EXP_DEVCTL) (ucast (ctl OR PCI_EXP_DEVCTL_EXT_TAG)) c
               else (Done (), c)
           | Fail e \<Rightarrow> (Fail e, c)
           | Crash f \<Rightarrow> (Crash f, c))"

section \<open>Register banks and the DMA controller\<close>

text \<open>The mappings the banks of a device have.\<close>

definition bar_maps :: "bifrost_device \<Rightarrow> bif_resource multiset" where
  "bar_maps d = mset (map Bar_map (filter (\<lambda>n. enabled_bar (regb d ! n)) [0..<length (regb d)]))"

definition setup_regions :: "nat \<times> bifrost_device \<Rightarrow> 's load_state \<Rightarrow> 's load_state" where
  "setup_regions r st = st\<lparr>dev := snd r, held := bar_maps (snd r) + held st\<rparr>"

definition remove_regions :: "'s load_state \<Rightarrow> 's load_state" where
  "remove_regions st = st\<lparr>dev := remove_io_regions (dev st), held := held st - bar_maps (dev st)\<rparr>"

definition dma_init :: "'s bif_kernel \<Rightarrow> 's load_state \<Rightarrow> unit res \<times> 's load_state" where
  "dma_init k st =
     (case bifrost_dma_init (k_hw k) (k_mach k) (kzalloc_ctl k) (pci_irq k) (dev st) of
        (Done _, d) \<Rightarrow> (Done (), acquire Dma_memory (st\<lparr>dev := d\<rparr>))
      | (r, d) \<Rightarrow> (r, st\<lparr>dev := d\<rparr>))"

text \<open>The controller is freed; the pointer to it stays.\<close>

definition bifrost_dma_cleanup :: "'s load_state \<Rightarrow> unit res \<times> 's load_state" where
  "bifrost_dma_cleanup st =
     (if dctl (dev st) = None then (Done (), st)
      else if Dma_memory \<notin># held st then (Crash Use_after_free, st)
      else (Done (), release Dma_memory st))"

section \<open>The FPGA interrupts\<close>

text \<open>Unregistering the platform device gives back what is managed by it. Its pointer stays, so
  that unregistering again uses freed memory.\<close>

definition fvd_managed :: "bif_resource multiset" where
  "fvd_managed = mset (map Fvd_gpio [0..<3] @ map Fvd_irq [0..<3])"

definition bifrost_fvd_exit :: "'s load_state \<Rightarrow> unit res \<times> 's load_state" where
  "bifrost_fvd_exit st =
     (if Fvd_device \<notin># held st then (Crash Use_after_free, st)
      else (Done (), st\<lparr>held := held st - {#Fvd_device#} - fvd_managed\<rparr>))"

definition fvd_line :: "'s bif_kernel \<Rightarrow> nat \<Rightarrow> 's load_state \<Rightarrow> errno option \<times> 's load_state" where
  "fvd_line k n st =
     (let st = (if gpio_request k n then acquire (Fvd_gpio n) st else st)
      in case fpga_request_irq k n of
           None \<Rightarrow> (None, acquire (Fvd_irq n) st)
         | Some e \<Rightarrow> (Some e, st))"

text \<open>The value returned on an invalid pin is the last one \<open>rc\<close> had: none before the first request,
  0 after it.\<close>

definition bifrost_fvd_init :: "'s bif_kernel \<Rightarrow> 's load_state \<Rightarrow> unit res \<times> 's load_state" where
  "bifrost_fvd_init k st =
     (if \<not> platform_device_alloc k then (Crash Uninitialised, st)
      else
        let st = acquire Fvd_device st; err_gpio = (\<lambda>r st. (r, snd (bifrost_fvd_exit st)))
        in if \<not> gpio_is_valid k 0 then err_gpio (Crash Uninitialised) st
           else case fvd_line k 0 st of
                  (Some e, st) \<Rightarrow> err_gpio (Fail e) st
                | (None, st) \<Rightarrow>
                    if \<not> gpio_is_valid k 1 then err_gpio (Done ()) st
                    else (case fvd_line k 1 st of
                        (Some e, st) \<Rightarrow> err_gpio (Fail e) st
                      | (None, st) \<Rightarrow>
                          if \<not> gpio_is_valid k 2 then err_gpio (Done ()) st
                          else (case fvd_line k 2 st of
                              (Some e, st) \<Rightarrow> err_gpio (Fail e) st
                            | (None, st) \<Rightarrow> (Done (), st))))"

section \<open>Probing the PCI device\<close>

definition bifrost_pci_probe_post_init :: "'s bif_kernel \<Rightarrow> 's load_state \<Rightarrow> unit res \<times> 's load_state" where
  "bifrost_pci_probe_post_init k st =
     (let st = bifrost_attach_msis_to_irq k (pci_irq k) st
      in case dma_init k st of
           (Done _, st) \<Rightarrow>
             if platform_fvd (k_mach k) then
               (case bifrost_fvd_init k st of
                  (Done _, st) \<Rightarrow> (Done (), st)
                | (Fail e, st) \<Rightarrow>
                    (case bifrost_dma_cleanup st of
                       (Done _, st) \<Rightarrow> (Fail EPERM, bifrost_detach_msis st)
                     | (r, st) \<Rightarrow> (r, st))
                | (Crash f, st) \<Rightarrow> (Crash f, st))
             else (Done (), st)
         | (Fail e, st) \<Rightarrow> (Fail EPERM, bifrost_detach_msis st)
         | (Crash f, st) \<Rightarrow> (Crash f, st))"

text \<open>The unwinding labels, each followed by those below it.\<close>

definition err_pci_request :: "'s load_state \<Rightarrow> 's load_state" where
  "err_pci_request st = (release Pci_device st)\<lparr>pdev := False\<rparr>"

definition err_pci_iomap_regb :: "'s load_state \<Rightarrow> 's load_state" where
  "err_pci_iomap_regb st = err_pci_request (release Regions st)"

definition err_pci_post_init :: "'s load_state \<Rightarrow> 's load_state" where
  "err_pci_post_init st = err_pci_iomap_regb (remove_regions st)"

definition patch_bar0 :: "bifrost_device \<Rightarrow> bifrost_device" where
  "patch_bar0 d = d\<lparr>regb := (regb d)[0 := (regb d ! 0)\<lparr>io16 := True\<rparr>]\<rparr>"

definition probe_regions :: "'s bif_kernel \<Rightarrow> 's load_state \<Rightarrow> unit res \<times> 's load_state" where
  "probe_regions k st =
     (let r = setup_io_regions_pci (resource_len k) (iomap k) (dev st);
          st = setup_regions r st
      in if fst r < 2 then (Fail ENODEV, err_pci_iomap_regb st)
         else
           let st = (if platform_fvd (k_mach k) then st\<lparr>dev := patch_bar0 (dev st)\<rparr> else st)
           in case bifrost_pci_probe_post_init k st of
                (Done _, st) \<Rightarrow>
                  if sysfs_create_group k then (Done (), (acquire Sysfs_group st)\<lparr>pdev := True\<rparr>)
                  else (Fail ENODEV, err_pci_post_init st)
              | (Fail e, st) \<Rightarrow> (Fail ENODEV, err_pci_post_init st)
              | (Crash f, st) \<Rightarrow> (Crash f, st))"

definition probe_interrupts :: "'s bif_kernel \<Rightarrow> 's load_state \<Rightarrow> unit res \<times> 's load_state" where
  "probe_interrupts k st =
     (let st = (if platform_fvd (k_mach k) then st\<lparr>msi_interrupts := 1\<rparr> else st)
      in if \<not> pci_enable_msi k then (Fail ENODEV, st)
         else
           let st = acquire Msi st
           in if \<not> pci_request_regions k then (Fail ENODEV, err_pci_request st)
              else probe_regions k (acquire Regions st))"

definition bifrost_pci_probe :: "'s bif_kernel \<Rightarrow> 's load_state \<Rightarrow> unit res \<times> 's load_state" where
  "bifrost_pci_probe k st =
     (if \<not> pci_enable_device k then (Fail ENODEV, st)
      else
        let st = acquire Pci_device st
        in if \<not> pcie_set_readrq k then (Fail ENODEV, st)
           else case pcie_set_mps k 128 (cfg st) of
                  (Done _, c) \<Rightarrow>
                    (case pcie_set_ext_tag k c of
                       (Done _, c) \<Rightarrow> probe_interrupts k (st\<lparr>cfg := c\<rparr>)
                     | (_, c) \<Rightarrow> (Fail ENODEV, st\<lparr>cfg := c\<rparr>))
                | (_, c) \<Rightarrow> (Fail ENODEV, st\<lparr>cfg := c\<rparr>))"

text \<open>The bank \<open>ddr\<close> that is unmapped here was never mapped: its address is NULL, nothing is given back.\<close>

definition bifrost_pci_remove :: "'s bif_kernel \<Rightarrow> 's load_state \<Rightarrow> unit res \<times> 's load_state" where
  "bifrost_pci_remove k st =
     (case (if platform_fvd (k_mach k) then bifrost_fvd_exit st else (Done (), st)) of
        (Done _, st) \<Rightarrow>
          (Done (), release Pci_device (release Regions (remove_regions (release Msi
             (bifrost_detach_msis (release Sysfs_group st))))))
      | (r, st) \<Rightarrow> (r, st))"

section \<open>The bus interfaces\<close>

text \<open>Registering the driver probes a device that is present, unregistering it removes a bound one.\<close>

definition bifrost_pci_init :: "'s bif_kernel \<Rightarrow> 's load_state \<Rightarrow> unit res \<times> 's load_state" where
  "bifrost_pci_init k st =
     (case pci_register_driver k of
        Some e \<Rightarrow> (Fail e, st)
      | None \<Rightarrow>
          let st = acquire Pci_driver st
          in if \<not> device_present k then (Done (), st)
             else case bifrost_pci_probe k st of
                    (Done _, st) \<Rightarrow> (Done (), st\<lparr>bound := True\<rparr>)
                  | (Fail _, st) \<Rightarrow> (Done (), st)
                  | (Crash f, st) \<Rightarrow> (Crash f, st))"

definition bifrost_pci_exit :: "'s bif_kernel \<Rightarrow> 's load_state \<Rightarrow> unit res \<times> 's load_state" where
  "bifrost_pci_exit k st =
     (case bifrost_dma_cleanup st of
        (Done _, st) \<Rightarrow>
          (case (if bound st then bifrost_pci_remove k (st\<lparr>bound := False\<rparr>) else (Done (), st)) of
             (Done _, st) \<Rightarrow> (Done (), release Pci_driver st)
           | (r, st) \<Rightarrow> (r, st))
      | (r, st) \<Rightarrow> (r, st))"

definition bifrost_membus_init :: "'s bif_kernel \<Rightarrow> 's load_state \<Rightarrow> unit res \<times> 's load_state" where
  "bifrost_membus_init k st =
     (let r = setup_io_regions_membus (iomap k) (dev st);
          st = setup_regions r st
      in if fst r < 2 then (Fail ENODEV, remove_regions st)
         else case bifrost_fvd_init k st of
                (Done _, st) \<Rightarrow> (Done (), st)
              | (Fail e, st) \<Rightarrow> (Fail ENODEV, remove_regions st)
              | (Crash f, st) \<Rightarrow> (Crash f, st))"

definition bifrost_membus_exit :: "'s load_state \<Rightarrow> unit res \<times> 's load_state" where
  "bifrost_membus_exit st = bifrost_fvd_exit (remove_regions st)"

section \<open>The character device\<close>

definition bifrost_cdev_init :: "'s bif_kernel \<Rightarrow> 's load_state \<Rightarrow> unit res \<times> 's load_state" where
  "bifrost_cdev_init k st =
     (case alloc_chrdev_region k of
        Some e \<Rightarrow> (Fail e, st)
      | None \<Rightarrow>
          let st = acquire Chrdev_region st
          in case cdev_add_error k of
               Some e \<Rightarrow> (Fail e, release Chrdev_region st)
             | None \<Rightarrow>
                 (Done (), (acquire Device_node (acquire Class (acquire Cdev st)))\<lparr>cdev_initialized := True\<rparr>))"

definition bifrost_cdev_exit :: "'s load_state \<Rightarrow> 's load_state" where
  "bifrost_cdev_exit st =
     (if \<not> cdev_initialized st then st
      else
        let st = (if saved_virt (dev st) \<noteq> None then release Dma_buffer st else st)
        in release Chrdev_region (release Cdev (release Class (release Device_node st))))"

section \<open>The module\<close>

text \<open>The device as it is allocated, filled with zeroes.\<close>

definition zero_device :: "bool \<Rightarrow> bifrost_device" where
  "zero_device on_membus =
     \<lparr>regb = replicate 6 \<lparr>bar = 0, enabled_bar = False, size_bar = 0, io16 = False\<rparr>, regb_dma = 0, membus = on_membus,
      handles = [], works = [],
      bstats = \<lparr>enabled = False, ioctls = 0, read_buf = 0, write_buf = 0, read_b = 0, write_b = 0,
        write_speed_avg = 0, write_speed_last = 0, read_speed_avg = 0, read_speed_last = 0\<rparr>,
      dctl = None, tickets = 0, bus = [], live = [], signalled = [], saved_size = 0, saved_virt = None\<rparr>"

text \<open>The errors of the bus interface and of the character device go to one label with a return
  value that was never set; what the bus interface holds stays held.\<close>

definition err_pci :: "'s load_state \<Rightarrow> unit res \<times> 's load_state" where
  "err_pci st = (Crash Uninitialised, release Bdev (release Work_pool (release Work_queue st)))"

definition bifrost_init :: "'s bif_kernel \<Rightarrow> 's load_state \<Rightarrow> unit res \<times> 's load_state" where
  "bifrost_init k st =
     (if \<not> kzalloc_bdev k then (Fail ENOMEM, st)
      else
        let st = (acquire Bdev st)\<lparr>dev := zero_device (k_membus k > 0), pdev := False, cdev_initialized := False\<rparr>
        in if \<not> mempool_create k then (Fail ENOMEM, release Bdev st)
           else
             let st = acquire Work_pool st
             in if \<not> create_workqueue k then (Fail ENOMEM, release Bdev (release Work_pool st))
                else
                  case (if membus (dev st) then bifrost_membus_init k (acquire Work_queue st)
                        else bifrost_pci_init k (acquire Work_queue st)) of
                    (Done _, st) \<Rightarrow>
                      (case bifrost_cdev_init k st of
                         (Done _, st) \<Rightarrow> (Done (), st)
                       | (Fail e, st) \<Rightarrow> err_pci st
                       | (Crash f, st) \<Rightarrow> (Crash f, st))
                  | (Fail e, st) \<Rightarrow> err_pci st
                  | (Crash f, st) \<Rightarrow> (Crash f, st))"

definition bifrost_exit :: "'s bif_kernel \<Rightarrow> 's load_state \<Rightarrow> unit res \<times> 's load_state" where
  "bifrost_exit k st =
     (let st = bifrost_cdev_exit st
      in case (if membus (dev st) then bifrost_membus_exit st else bifrost_pci_exit k st) of
           (Done _, st) \<Rightarrow> (Done (), release Bdev (release Work_pool (release Work_queue st)))
         | (r, st) \<Rightarrow> (r, st))"

end
