(* ===== verification/DriverText.thy ===== *)
theory DriverText
  imports BifrostLoad CmemSeq Numerals
begin

text \<open>
  What the drivers show as text and read as text: the statistics of the bifrost device in sysfs
  (\<open>bifrost_pci.c\<close>), the state of its DMA controller (\<open>get_dma_info\<close>), the lines of the listing of
  the CMEM pools (\<open>cmem_seq_show\<close>, \<open>dump_lists\<close>) and the adapter number of the I2C simulator
  (\<open>i2c_usim_proc_read\<close>). The theorems show what a reader of the text can rely on.
\<close>

definition NL :: char where "NL = CHR 0x0A"
definition TAB :: char where "TAB = CHR 0x09"

section \<open>Numbers with a delimiter\<close>

lemma append_delimiter:
  "xs @ c # us = ys @ c # vs \<Longrightarrow> c \<notin> set xs \<Longrightarrow> c \<notin> set ys \<Longrightarrow> xs = ys \<and> us = vs"
proof (induction xs arbitrary: ys)
  case Nil
  then show ?case by (cases ys) auto
next
  case (Cons x xs)
  then show ?case by (cases ys) auto
qed

lemma numeral_text_no:
  "digit_value c = None \<Longrightarrow> 2 \<le> base \<Longrightarrow> base \<le> 16 \<Longrightarrow> c \<notin> set (numeral_text base n)"
  using numeral_text_digits [of c base n] by auto

lemma numeral_text_first: "0 < n \<Longrightarrow> hd (numeral_text 10 n) \<noteq> CHR ''0''"
proof (induction "10 :: nat" n rule: numeral_text.induct)
  case (1 n)
  have d: "digit_char n \<noteq> CHR ''0''" if "n < 10" "0 < n"
    using that digit_value_char [of n] by (auto simp: digit_value_def)
  show ?case
  proof (cases "n < 10")
    case True
    then show ?thesis using d 1(2) by (subst numeral_text.simps) simp
  next
    case False
    then have "0 < n div 10" by (simp add: div_greater_zero_iff)
    then show ?thesis using 1(1) False by (subst numeral_text.simps) simp
  qed
qed

lemma takeWhile_digits:
  assumes "2 \<le> base" and "base \<le> 16" and "rest = [] \<or> \<not> digit_in base (hd rest)"
  shows "takeWhile (digit_in base) (numeral_text base n @ rest) = numeral_text base n"
    and "dropWhile (digit_in base) (numeral_text base n @ rest) = rest"
proof -
  have "\<forall>c\<in>set (numeral_text base n). digit_in base c"
    using numeral_text_digits [OF _ assms(1,2)] by (fastforce simp: digit_in_def)
  moreover have "takeWhile (digit_in base) rest = []" "dropWhile (digit_in base) rest = rest"
    using assms(3) by (cases rest; simp)+
  ultimately show "takeWhile (digit_in base) (numeral_text base n @ rest) = numeral_text base n"
    "dropWhile (digit_in base) (numeral_text base n @ rest) = rest" by simp_all
qed

lemma kstrtoul_fmt_u:
  assumes "rest = [] \<or> rest = [NL]"
  shows "kstrtoul (fmt_u v @ rest) = Some v"
proof (cases "v = 0")
  case True
  have "fmt_u 0 = ''0''" by (simp add: fmt_u_def numeral_text.simps digit_char_def char_of_eq_iff)
  moreover have "kstrtoul ''0'' = Some 0"
    by (simp add: kstrtoul_def digit_in_def digit_value_def number_value_def)
  moreover have "kstrtoul [CHR ''0'', NL] = Some 0"
    by (simp add: kstrtoul_def digit_in_def digit_value_def number_value_def NL_def)
  ultimately show ?thesis using assms True by auto
next
  case False
  obtain c cs where c: "numeral_text 10 (unat v) = c # cs" by (cases "numeral_text 10 (unat v)") auto
  have c0: "c \<noteq> CHR ''0''" using numeral_text_first [of "unat v"] False c by (simp add: unat_gt_0)
  have cp: "c \<noteq> CHR ''+''" using numeral_text_no [of "CHR ''+''" 10 "unat v"] c by (auto simp: digit_value_def)
  have r: "rest = [] \<or> \<not> digit_in 10 (hd rest)" using assms by (auto simp: digit_in_def NL_def digit_value_def)
  have ok: "\<not> (numeral_text 10 (unat v) = [] \<or> 2 ^ 32 \<le> unat v \<or> rest \<notin> {[], [CHR 0x0A]})"
    using assms c by (auto simp: NL_def not_le)
  have "kstrtoul (fmt_u v @ rest) =
      (let ds = takeWhile (digit_in 10) (numeral_text 10 (unat v) @ rest); rest = dropWhile (digit_in 10) (numeral_text 10 (unat v) @ rest)
       in if ds = [] \<or> number_value 10 ds \<ge> 2 ^ 32 \<or> rest \<notin> {[], [CHR 0x0A]} then None else Some (of_nat (number_value 10 ds)))"
    using c c0 cp by (simp add: kstrtoul_def fmt_u_def Let_def)
  also have "\<dots> = Some v"
    unfolding takeWhile_digits [OF _ _ r, of "unat v", simplified] using ok number_value_numeral [of 10 "unat v"] by (simp add: Let_def)
  finally show ?thesis .
qed

section \<open>The statistics of the bifrost device in sysfs\<close>

datatype sysfs_attribute =
  Read_b | Write_b | Read_speed_last | Write_speed_last | Read_speed_avg | Write_speed_avg | Stats_enable

text \<open>The number an attribute shows: kilobytes, or kilobytes per second.\<close>

definition show_attribute :: "sysfs_attribute \<Rightarrow> bifrost_stats \<Rightarrow> u32" where
  "show_attribute a s =
     (case a of
        Read_b \<Rightarrow> read_b s div 1024
      | Write_b \<Rightarrow> write_b s div 1024
      | Read_speed_last \<Rightarrow> read_speed_last s div 1024
      | Write_speed_last \<Rightarrow> write_speed_last s div 1024
      | Read_speed_avg \<Rightarrow> read_speed_avg s div 1024
      | Write_speed_avg \<Rightarrow> write_speed_avg s div 1024
      | Stats_enable \<Rightarrow> of_bool (enabled s))"

definition attribute_unit :: "sysfs_attribute \<Rightarrow> string" where
  "attribute_unit a =
     (case a of
        Read_b \<Rightarrow> '' kB'' | Write_b \<Rightarrow> '' kB''
      | Stats_enable \<Rightarrow> []
      | _ \<Rightarrow> '' kB/s'')"

text \<open>The buffer and the length of what is shown.\<close>

definition show_text :: "sysfs_attribute \<Rightarrow> bifrost_stats \<Rightarrow> string \<times> nat" where
  "show_text a s =
     scnprintf (unat PAGE_SIZE)
       ((if a = Stats_enable then fmt_d (show_attribute a s) else fmt_u (show_attribute a s)) @ attribute_unit a @ [NL])"

text \<open>What a program writes to the attribute; all of it is consumed.\<close>

definition store_enable :: "string \<Rightarrow> bifrost_stats \<Rightarrow> nat res \<times> bifrost_stats" where
  "store_enable buf s =
     (case kstrtoul buf of
        None \<Rightarrow> (Fail EINVAL, s)
      | Some val \<Rightarrow> (Done (length buf), s\<lparr>enabled := (val \<noteq> 0)\<rparr>))"

lemma length_fmt_u: "length (fmt_u v) \<le> 10"
proof -
  have "unat v < 10 ^ 10" using unat_less_2p32 [of v] by (rule less_le_trans) simp
  then show ?thesis using length_numeral_text [of 10 "unat v" 10] by (simp add: fmt_u_def)
qed

lemma fmt_d_of_bool: "fmt_d (of_bool b) = fmt_u (of_bool b)"
  by (cases b) (simp_all add: fmt_d_def fmt_u_def)

lemma show_text_result:
  "show_text a s = (fmt_u (show_attribute a s) @ attribute_unit a @ [NL, NUL],
     length (fmt_u (show_attribute a s) @ attribute_unit a @ [NL]))"
proof -
  let ?t = "fmt_u (show_attribute a s) @ attribute_unit a @ [NL]"
  have "length ?t \<le> 4095"
  proof -
    have "length (attribute_unit a) \<le> 5" by (cases a) (simp_all add: attribute_unit_def)
    then show ?thesis using length_fmt_u [of "show_attribute a s"] by simp
  qed
  moreover have "(if a = Stats_enable then fmt_d (show_attribute a s) else fmt_u (show_attribute a s)) = fmt_u (show_attribute a s)"
    by (simp add: show_attribute_def fmt_d_of_bool)
  ultimately show ?thesis by (simp add: show_text_def scnprintf_def PAGE_SIZE_def)
qed

text \<open>What sysfs shows is complete and can be written back: no text is cut off at the end of the
  page; the text of \<open>stats_enable\<close> written back changes nothing, and the text of any number, with or
  without a line end, switches the statistics on or off as the number is not or is zero.\<close>

theorem sysfs_roundtrip:
  "show_text a s = (fmt_u (show_attribute a s) @ attribute_unit a @ [NL, NUL],
      length (fmt_u (show_attribute a s) @ attribute_unit a @ [NL]))
   \<and> store_enable (butlast (fst (show_text Stats_enable s))) s = (Done (snd (show_text Stats_enable s)), s)
   \<and> store_enable (fmt_u v) s = (Done (length (fmt_u v)), s\<lparr>enabled := (v \<noteq> 0)\<rparr>)
   \<and> store_enable (fmt_u v @ [NL]) s = (Done (length (fmt_u v) + 1), s\<lparr>enabled := (v \<noteq> 0)\<rparr>)"
proof -
  let ?v = "show_attribute Stats_enable s"
  have "butlast (fst (show_text Stats_enable s)) = fmt_u ?v @ [NL]"
    by (simp add: show_text_result attribute_unit_def butlast_append)
  moreover have "s\<lparr>enabled := (?v \<noteq> 0)\<rparr> = s" by (cases "enabled s") (simp_all add: show_attribute_def)
  ultimately show ?thesis
    using kstrtoul_fmt_u [of "[NL]"] kstrtoul_fmt_u [of "[]"]
    by (simp add: store_enable_def show_text_result attribute_unit_def)
qed

section \<open>The DMA controller and the simulated adapter\<close>

text \<open>The caller gives the size of its buffer; the result is the length of the whole text.\<close>

definition get_dma_info :: "dma_ctl \<Rightarrow> nat \<Rightarrow> string \<times> nat" where
  "get_dma_info ctl bufsz =
     snprintf bufsz
       (''Number of channels: '' @ fmt_u (num_ch ctl) @ [NL] @ ''Idle bitmap:'' @ [TAB] @ ''     ''
        @ fmt_x (idle_bitmap ctl) @ [NL])"

definition i2c_usim_proc_read :: "u32 \<Rightarrow> nat \<Rightarrow> string \<times> nat" where
  "i2c_usim_proc_read nr bufsz = snprintf bufsz (fmt_d nr @ [NL])"

text \<open>64 bytes are enough for the controller.\<close>

lemma get_dma_info_fits: "snd (get_dma_info ctl bufsz) < 64"
  using length_fmt_u [of "num_ch ctl"] length_fmt_x [of "idle_bitmap ctl"]
  by (simp add: get_dma_info_def snprintf_def)

text \<open>Read into too small a buffer, the number of the adapter is cut off but the length reported is that of
  the whole text.\<close>

lemma proc_read_reports_too_much:
  "0 < bufsz \<Longrightarrow> bufsz \<le> length (fmt_d nr) \<Longrightarrow>
     length (fst (i2c_usim_proc_read nr bufsz)) = bufsz \<and> bufsz < snd (i2c_usim_proc_read nr bufsz)"
  by (simp add: i2c_usim_proc_read_def snprintf_def)

section \<open>The listing of the CMEM pools\<close>

definition fmt_int :: "int \<Rightarrow> string" where
  "fmt_int i = fmt_d (word_of_int i)"

fun line_text :: "line \<Rightarrow> string" where
  "line_text (Busy_banner bi n nb sz req) =
     NL # ''Block '' @ fmt_int (int bi) @ '': Pool '' @ fmt_int (int n) @ '': '' @ fmt_d nb @ '' bufs size ''
     @ fmt_d sz @ '' ('' @ fmt_d req @ '' requested)'' @ [NL, NL] @ ''Pool '' @ fmt_int (int n) @ '' busy bufs:'' @ [NL]"
| "line_text (Free_banner n) = NL # ''Pool '' @ fmt_int n @ '' free bufs:'' @ [NL]"
| "line_text (Entry i p attr) =
     ''id '' @ fmt_int i @ '': phys addr '' @ fmt_hash_x p
     @ (case attr of None \<Rightarrow> [] | Some cached \<Rightarrow> if cached then '' (cached)'' else '' (noncached)'') @ [NL]"

text \<open>The debug build lists a pool after every change of it.\<close>

definition dump_lists :: "cmem \<Rightarrow> nat \<Rightarrow> nat \<Rightarrow> bool \<Rightarrow> (bool \<times> int \<times> u32) list" where
  "dump_lists st bi idx lock =
     (if \<not> lock then []
      else map (\<lambda>e. (True, pb_id e, physp e)) (busylist (p_objs st bi idx))
           @ map (\<lambda>e. (False, pb_id e, physp e)) (freelist (p_objs st bi idx)))"

lemma fmt_d_parse: "simple_strtol 10 (fmt_d v) = v"
proof (cases "sint v < 0")
  case True
  have "simple_strtol 10 (fmt_d v) = - simple_strtoul 10 (numeral_text 10 (nat (- sint v)))"
    using True by (simp add: fmt_d_def simple_strtol_def)
  also have "\<dots> = - of_nat (nat (- sint v))"
    using parse_digits_numeral [of 10 "nat (- sint v)"] by (simp add: simple_strtoul_def)
  also have "(of_nat (nat (- sint v)) :: u32) = word_of_int (- sint v)" using True by simp
  finally show ?thesis by simp
next
  case False
  then have "(of_nat (nat (sint v)) :: u32) = word_of_int (sint v)" by simp
  then show ?thesis using False simple_strtol_numeral [of "nat (sint v)"] by (simp add: fmt_d_def)
qed

lemma fmt_d_no: "c \<noteq> CHR ''-'' \<Longrightarrow> digit_value c = None \<Longrightarrow> c \<notin> set (fmt_d v)"
  using numeral_text_no [of c 10] by (auto simp: fmt_d_def)

lemma fmt_hash_x_no: "c \<noteq> CHR ''x'' \<Longrightarrow> digit_value c = None \<Longrightarrow> c \<notin> set (fmt_hash_x v)"
  using numeral_text_no [of c 16] by (auto simp: fmt_hash_x_def fmt_x_def digit_value_def)

lemma fmt_hash_x_parse: "simple_strtol 16 (fmt_hash_x v) = v"
  using simple_strtol_hex [of v] by (auto simp: fmt_hash_x_def simple_strtol_def simple_strtoul_def digit_value_def)

text \<open>The line of a buffer tells its number, its address and whether a busy one is cached: two buffers that
  differ in one of them have different lines.\<close>

theorem entry_lines_tell_buffers:
  assumes "line_text (Entry i p a) = line_text (Entry j q b)"
  shows "(word_of_int i :: u32) = word_of_int j \<and> p = q \<and> a = b"
proof -
  let ?at = "\<lambda>attr. case attr of None \<Rightarrow> [] | Some cached \<Rightarrow> if cached then '' (cached)'' else '' (noncached)''"
  have eq: "fmt_int i @ CHR '':'' # ('' phys addr '' @ fmt_hash_x p @ ?at a @ [NL])
      = fmt_int j @ CHR '':'' # ('' phys addr '' @ fmt_hash_x q @ ?at b @ [NL])"
    using assms by simp
  have nc: "CHR '':'' \<notin> set (fmt_int i)" for i by (simp add: fmt_int_def fmt_d_no digit_value_def)
  have 1: "fmt_int i = fmt_int j" and 2: "fmt_hash_x p @ ?at a @ [NL] = fmt_hash_x q @ ?at b @ [NL]"
    using append_delimiter [OF eq nc nc] by simp_all
  have ij: "(word_of_int i :: u32) = word_of_int j" using 1 fmt_d_parse by (metis fmt_int_def)
  have no: "CHR '' '' \<notin> set (fmt_hash_x v)" "NL \<notin> set (fmt_hash_x v)" for v
    by (simp_all add: fmt_hash_x_no digit_value_def NL_def)
  have pq: "fmt_hash_x p = fmt_hash_x q \<and> a = b"
  proof (cases a; cases b)
    fix x y assume "a = Some x" "b = Some y"
    then have "fmt_hash_x p @ CHR '' '' # tl (?at a) @ [NL] = fmt_hash_x q @ CHR '' '' # tl (?at b) @ [NL]"
      using 2 by (cases x; cases y) simp_all
    from append_delimiter [OF this no(1) no(1)] show ?thesis
      using \<open>a = Some x\<close> \<open>b = Some y\<close> by (cases x; cases y) simp_all
  next
    fix y assume ab: "a = None" "b = Some y"
    then have "CHR '' '' \<in> set (fmt_hash_x p @ [NL])" using 2 by (simp split: if_splits)
    then show ?thesis using no(1) by (simp add: NL_def)
  next
    fix x assume ab: "a = Some x" "b = None"
    then have "CHR '' '' \<in> set (fmt_hash_x q @ [NL])" using 2 [symmetric] by (simp split: if_splits)
    then show ?thesis using no(1) by (simp add: NL_def)
  qed (use 2 in simp)
  then have "p = q" using fmt_hash_x_parse by metis
  with ij pq show ?thesis by blast
qed

end
