(* ===== verification/FpgaIds.thy ===== *)
theory FpgaIds
  imports Prelude
begin

text \<open>
  The FPGA configuration registers and unit identifiers (\<open>bifrost/fpga_fcr.h\<close> and
  \<open>bifrost/fpga_unit_ids.h\<close>): the fields of the registers, an identifier of four characters, and
  the identifiers the second header defines.
\<close>

section \<open>Configuration registers\<close>

definition FCR_SYS_UNIT_ID :: u32 where "FCR_SYS_UNIT_ID = 0"
definition FCR_FW_VER_NUM :: u32 where "FCR_FW_VER_NUM = 4"
definition FCR_HEADER_CONF :: u32 where "FCR_HEADER_CONF = 8"
definition FCR_FIRST_FIELD :: u32 where "FCR_FIRST_FIELD = 12"

definition FCR_UNIT_API_VERSION :: "u32 \<Rightarrow> u32" where "FCR_UNIT_API_VERSION x = drop_bit 24 (x AND 0xff000000)"
definition FCR_HEADER_VERSION :: "u32 \<Rightarrow> u32" where "FCR_HEADER_VERSION x = drop_bit 16 (x AND 0x00ff0000)"
definition FCR_CAPABILITY_FIELDS :: "u32 \<Rightarrow> u32" where "FCR_CAPABILITY_FIELDS x = drop_bit 8 (x AND 0x0000ff00)"
definition FCR_SUB_UNITS :: "u32 \<Rightarrow> u32" where "FCR_SUB_UNITS x = x AND 0x000000ff"

definition FCR_BUILD_YEAR :: "u32 \<Rightarrow> u32" where "FCR_BUILD_YEAR x = drop_bit 24 (x AND 0xff000000)"
definition FCR_BUILD_MONTH :: "u32 \<Rightarrow> u32" where "FCR_BUILD_MONTH x = drop_bit 16 (x AND 0x00ff0000)"
definition FCR_BUILD_DAY :: "u32 \<Rightarrow> u32" where "FCR_BUILD_DAY x = drop_bit 8 (x AND 0x0000ff00)"
definition FCR_BUILD_NUMBER :: "u32 \<Rightarrow> u32" where "FCR_BUILD_NUMBER x = x AND 0x000000ff"

definition UNIT_ID :: "u32 \<Rightarrow> u32 \<Rightarrow> u32 \<Rightarrow> u32 \<Rightarrow> u32" where
  "UNIT_ID a b c d =
     push_bit 24 (a AND 0xff) OR push_bit 16 (b AND 0xff) OR push_bit 8 (c AND 0xff) OR (d AND 0xff)"

section \<open>Unit identifiers\<close>

text \<open>The macro joins the shifted characters with the logical and: the value is 0 or 1.\<close>

definition FPGA_UNIT_ID :: "u32 \<Rightarrow> u32 \<Rightarrow> u32 \<Rightarrow> u32 \<Rightarrow> u32" where
  "FPGA_UNIT_ID a b c d =
     of_bool (push_bit 24 (a AND 0xff) \<noteq> 0 \<and> push_bit 16 (b AND 0xff) \<noteq> 0
       \<and> push_bit 8 (c AND 0xff) \<noteq> 0 \<and> d AND 0xff \<noteq> 0)"

definition FPGA_UNIT_ADE_TOP :: u32 where "FPGA_UNIT_ADE_TOP = FPGA_UNIT_ID 65 68 69 84"
definition FPGA_UNIT_ATF_TOP :: u32 where "FPGA_UNIT_ATF_TOP = FPGA_UNIT_ID 65 84 70 84"

section \<open>The properties\<close>

lemma byte_masks:
  "(0xff :: u32) = mask 8" "(0xff00 :: u32) = push_bit 8 (mask 8)"
  "(0xff0000 :: u32) = push_bit 16 (mask 8)" "(0xff000000 :: u32) = push_bit 24 (mask 8)"
  by (simp_all add: mask_eq_exp_minus_1)

text \<open>An identifier holds its four characters, each in the field of its place; the two identifiers of the
  second header are the same number and none that the first macro makes of the same characters.\<close>

theorem unit_id_fields:
  "FCR_UNIT_API_VERSION (UNIT_ID a b c d) = a AND 0xff \<and> FCR_HEADER_VERSION (UNIT_ID a b c d) = b AND 0xff
   \<and> FCR_CAPABILITY_FIELDS (UNIT_ID a b c d) = c AND 0xff \<and> FCR_SUB_UNITS (UNIT_ID a b c d) = d AND 0xff"
  unfolding UNIT_ID_def FCR_UNIT_API_VERSION_def FCR_HEADER_VERSION_def FCR_CAPABILITY_FIELDS_def FCR_SUB_UNITS_def
    byte_masks
  by (intro conjI bit_word_eqI) (auto simp: bit_simps)

theorem unit_ids_collide:
  "FPGA_UNIT_ADE_TOP = FPGA_UNIT_ATF_TOP \<and> FPGA_UNIT_ADE_TOP \<noteq> UNIT_ID 65 68 69 84
   \<and> UNIT_ID 65 68 69 84 \<noteq> UNIT_ID 65 84 70 84"
  by (simp add: FPGA_UNIT_ADE_TOP_def FPGA_UNIT_ATF_TOP_def FPGA_UNIT_ID_def UNIT_ID_def)

end
