(* ===== verification/RegisterInterface.thy ===== *)
theory RegisterInterface
  imports BifrostDevice
begin

text \<open>
  The contract of the access functions a register bank points to (\<open>rd\<close> and \<open>wr\<close> of
  \<open>struct device_memory\<close>): each makes exactly one access to the hardware, at a place that
  depends on the offset only. Both pairs of functions, 32 bits over PCI and 16 bits over the
  memory bus, satisfy it, and the user-space operations rely on nothing else.
\<close>

locale register_access =
  fixes rd :: "u32 \<Rightarrow> u32 io_prog"
    and wr :: "u32 \<Rightarrow> u32 \<Rightarrow> unit io_prog"
    and rd_at :: "u32 \<Rightarrow> access"
    and wr_at :: "u32 \<Rightarrow> u32 \<Rightarrow> access"
  assumes rd_law: "snd (run_state (rd off) tr) = tr @ [rd_at off]"
    and wr_law: "snd (run_state (wr off v) tr) = tr @ [wr_at off v]"
begin

lemma on_bus_rd: "\<exists>v. on_bus (rd off) d = (v, d\<lparr>bus := bus d @ [rd_at off]\<rparr>)"
  using rd_law [of off "bus d"] by (cases "run_state (rd off) (bus d)") (simp add: on_bus_def)

lemma on_bus_wr: "on_bus (wr off v) d = ((), d\<lparr>bus := bus d @ [wr_at off v]\<rparr>)"
  using wr_law [of off v "bus d"] by (cases "run_state (wr off v) (bus d)") (simp add: on_bus_def)

text \<open>A read followed by a write of a function of the value read.\<close>

lemma modify:
  "\<exists>v. (let (v, d1) = on_bus (rd off) d; (u, d2) = on_bus (wr off (f v)) d1 in (f v, d2))
      = (f v, d\<lparr>bus := bus d @ [rd_at off, wr_at off (f v)]\<rparr>)
      \<and> fst (run_state (rd off) (bus d)) = v"
  using rd_law [of off "bus d"] wr_law
  by (cases "run_state (rd off) (bus d)")
     (auto simp: on_bus_def split: prod.splits, metis snd_conv append_assoc append_Cons append_Nil)

end

interpretation pci: register_access "read_device_memory hw b" "write_device_memory b" "Rd32 b" "Wr32 b"
  for hw b
  by unfold_locales (simp_all add: read_device_memory_def write_device_memory_def)

interpretation fpga: register_access "membus_read_device_memory hw b" "membus_write_device_memory b"
    "\<lambda>off. Rd16 b (push_bit 1 off)" "\<lambda>off v. Wr16 b (push_bit 1 off) (ucast v)"
  for hw b
  by unfold_locales (simp_all add: membus_read_device_memory_def membus_write_device_memory_def)

text \<open>The access functions of a bank, whichever pair it points to.\<close>

definition rd_access :: "device_memory \<Rightarrow> u32 \<Rightarrow> access" where
  "rd_access mem off = (if io16 mem then Rd16 (bar mem) (push_bit 1 off) else Rd32 (bar mem) off)"

definition wr_access :: "device_memory \<Rightarrow> u32 \<Rightarrow> u32 \<Rightarrow> access" where
  "wr_access mem off v =
     (if io16 mem then Wr16 (bar mem) (push_bit 1 off) (ucast v) else Wr32 (bar mem) off v)"

interpretation bank: register_access "mem_rd hw mem" "mem_wr mem" "rd_access mem" "wr_access mem"
  for hw mem
proof unfold_locales
  show "snd (run_state (mem_rd hw mem off) tr) = tr @ [rd_access mem off]" for off tr
    by (simp add: mem_rd_def rd_access_def pci.rd_law fpga.rd_law)
  show "snd (run_state (mem_wr mem off v) tr) = tr @ [wr_access mem off v]" for off v tr
    by (simp add: mem_wr_def wr_access_def pci.wr_law fpga.wr_law)
qed

end
