(* ===== verification/BifrostAccess.thy ===== *)
theory BifrostAccess
  imports BifrostIoctl RegisterInterface
begin

text \<open>
  Register access from user space: what the access check lets through, what each register
  command does to the hardware, and where the bounds that are checked are not the bounds
  that matter. The proofs use the access functions of a bank only through their contract,
  \<open>RegisterInterface.register_access\<close>.
\<close>

section \<open>The check\<close>

definition user_rights :: "machine \<Rightarrow> bifrost_device \<Rightarrow> nat \<Rightarrow> u32" where
  "user_rights mach d n =
     (if platform_fvd mach then user_space_bar_access_fvd ! n
      else if membus d then user_space_membus_access ! n
      else user_space_bar_access ! n)"

definition allowed :: "machine \<Rightarrow> bifrost_device \<Rightarrow> u32 \<Rightarrow> u32 \<Rightarrow> u32 \<Rightarrow> bool" where
  "allowed mach d b access off \<longleftrightarrow> b < 6 \<and> enabled_bar (regb d ! unat b)
     \<and> access AND user_rights mach d (unat b) = access \<and> off < size_bar (regb d ! unat b)"

lemma check_bar_access_iff:
  "check_bar_access mach d b access off = Done () \<longleftrightarrow> allowed mach d b access off"
  by (auto simp: check_bar_access_def allowed_def user_rights_def Let_def not_less)

lemma check_bar_access_cases:
  obtains "check_bar_access mach d b access off = Done ()" "allowed mach d b access off"
  | e where "check_bar_access mach d b access off = Fail e" "\<not> allowed mach d b access off"
      "e \<in> {EINVAL, EFAULT, EACCES}"
proof (cases "check_bar_access mach d b access off")
  case (Done u)
  then show thesis using that(1) check_bar_access_iff by simp
next
  case (Fail e)
  have "e \<in> {EINVAL, EFAULT, EACCES}"
    using Fail by (auto simp: check_bar_access_def Let_def split: if_splits)
  moreover have "\<not> allowed mach d b access off"
    using Fail check_bar_access_iff [of mach d b access off] by auto
  ultimately show thesis using that(2) Fail by blast
next
  case (Crash f)
  then show thesis by (auto simp: check_bar_access_def Let_def split: if_splits)
qed

text \<open>The check does not look at what an access changes.\<close>

definition same_banks :: "bifrost_device \<Rightarrow> bifrost_device \<Rightarrow> bool" where
  "same_banks d d' \<longleftrightarrow> regb d' = regb d \<and> membus d' = membus d"

lemma check_same_banks:
  "same_banks d d' \<Longrightarrow> check_bar_access mach d' b access off = check_bar_access mach d b access off"
  by (simp add: same_banks_def check_bar_access_def)

lemma allowed_same_banks: "same_banks d d' \<Longrightarrow> allowed mach d' b access off = allowed mach d b access off"
  by (simp add: same_banks_def allowed_def user_rights_def)

section \<open>One access\<close>

text \<open>The value a read of a register returns after the accesses \<open>tr\<close>.\<close>

definition reg_value :: "hardware \<Rightarrow> device_memory \<Rightarrow> u32 \<Rightarrow> bus \<Rightarrow> u32" where
  "reg_value hw mem off tr = fst (run_state (mem_rd hw mem off) tr)"

abbreviation bank_of :: "bifrost_device \<Rightarrow> u32 \<Rightarrow> device_memory" where
  "bank_of d b \<equiv> regb d ! unat b"

lemma on_bus_mem_rd:
  "on_bus (mem_rd hw mem off) d = (reg_value hw mem off (bus d), d\<lparr>bus := bus d @ [rd_access mem off]\<rparr>)"
  using bank.rd_law [of hw mem off "bus d"]
  by (cases "run_state (mem_rd hw mem off) (bus d)") (simp add: on_bus_def reg_value_def)

lemma do_read_regb_allowed:
  "allowed mach d b RD_ACCESS off \<Longrightarrow> do_read_regb hw mach b off d
     = (Done (reg_value hw (bank_of d b) off (bus d)), d\<lparr>bus := bus d @ [rd_access (bank_of d b) off]\<rparr>)"
  by (simp add: do_read_regb_def check_bar_access_iff [symmetric] on_bus_mem_rd)

lemma do_write_regb_allowed:
  "allowed mach d b WR_ACCESS off \<Longrightarrow> do_write_regb mach b off v d
     = (Done (), d\<lparr>bus := bus d @ [wr_access (bank_of d b) off v]\<rparr>)"
  by (simp add: do_write_regb_def check_bar_access_iff [symmetric] bank.on_bus_wr)

lemma do_modify_regb_allowed:
  "allowed mach d b (RD_ACCESS OR WR_ACCESS) off \<Longrightarrow> do_modify_regb hw mach b off clear setb d =
     (let v = (reg_value hw (bank_of d b) off (bus d) AND NOT clear) OR setb
      in (Done v, d\<lparr>bus := bus d @ [rd_access (bank_of d b) off, wr_access (bank_of d b) off v]\<rparr>))"
  by (simp add: do_modify_regb_def check_bar_access_iff [symmetric] on_bus_mem_rd bank.on_bus_wr Let_def)

lemma do_regb_refused:
  "check_bar_access mach d b RD_ACCESS off = Fail e \<Longrightarrow> do_read_regb hw mach b off d = (Fail e, d)"
  "check_bar_access mach d b WR_ACCESS off = Fail e \<Longrightarrow> do_write_regb mach b off v d = (Fail e, d)"
  "check_bar_access mach d b (RD_ACCESS OR WR_ACCESS) off = Fail e \<Longrightarrow>
     do_modify_regb hw mach b off clear setb d = (Fail e, d)"
  by (simp_all add: do_read_regb_def do_write_regb_def do_modify_regb_def)

section \<open>Accesses that stay inside\<close>

text \<open>An access the rights of user space cover.\<close>

definition covered :: "machine \<Rightarrow> bifrost_device \<Rightarrow> access \<Rightarrow> bool" where
  "covered mach d x \<longleftrightarrow> (\<exists>b off.
     allowed mach d b RD_ACCESS off \<and> x = rd_access (bank_of d b) off
     \<or> (\<exists>v. allowed mach d b WR_ACCESS off \<and> x = wr_access (bank_of d b) off v))"

text \<open>A step that only appends covered accesses.\<close>

definition extends :: "machine \<Rightarrow> bifrost_device \<Rightarrow> bifrost_device \<Rightarrow> bool" where
  "extends mach d d' \<longleftrightarrow> (\<exists>new. d' = d\<lparr>bus := bus d @ new\<rparr> \<and> (\<forall>x\<in>set new. covered mach d x))"

lemma extends_refl: "extends mach d d"
  by (auto simp: extends_def intro: exI [of _ "[]"])

lemma extends_same_banks: "extends mach d d' \<Longrightarrow> same_banks d d'"
  by (auto simp: extends_def same_banks_def)

lemma extends_trans:
  assumes "extends mach d d'" and "extends mach d' d''"
  shows "extends mach d d''"
proof -
  have "covered mach d' x = covered mach d x" for x
    unfolding covered_def allowed_same_banks [OF extends_same_banks [OF assms(1)]]
    using extends_same_banks [OF assms(1)] by (simp add: same_banks_def)
  moreover obtain n1 where "d' = d\<lparr>bus := bus d @ n1\<rparr>" "\<forall>x\<in>set n1. covered mach d x"
    using assms(1) by (auto simp: extends_def)
  moreover obtain n2 where "d'' = d'\<lparr>bus := bus d' @ n2\<rparr>" "\<forall>x\<in>set n2. covered mach d' x"
    using assms(2) by (auto simp: extends_def)
  ultimately have "d'' = d\<lparr>bus := bus d @ n1 @ n2\<rparr>" "\<forall>x\<in>set (n1 @ n2). covered mach d x" by auto
  then show ?thesis unfolding extends_def by blast
qed

lemma extendsI: "\<forall>x\<in>set new. covered mach d x \<Longrightarrow> extends mach d (d\<lparr>bus := bus d @ new\<rparr>)"
  unfolding extends_def by blast

lemma coveredI:
  "allowed mach d b RD_ACCESS off \<Longrightarrow> covered mach d (rd_access (bank_of d b) off)"
  "allowed mach d b WR_ACCESS off \<Longrightarrow> covered mach d (wr_access (bank_of d b) off v)"
  unfolding covered_def by blast+

lemma sub_rights: "(x OR y) AND r = x OR y \<Longrightarrow> x AND r = x" for x y r :: u32
proof (rule bit_word_eqI)
  fix n
  assume e: "(x OR y) AND r = x OR y"
  have "bit ((x OR y) AND r) n = bit (x OR y) n" by (simp only: e)
  then show "bit (x AND r) n = bit x n" by (auto simp: bit_and_iff bit_or_iff)
qed

lemma rights_split:
  assumes "allowed mach d b (RD_ACCESS OR WR_ACCESS) off"
  shows "allowed mach d b RD_ACCESS off" and "allowed mach d b WR_ACCESS off"
  using assms sub_rights [of RD_ACCESS WR_ACCESS] sub_rights [of WR_ACCESS RD_ACCESS]
  unfolding allowed_def by (simp_all add: or.commute)

lemma do_regb_extends:
  "extends mach d (snd (do_read_regb hw mach b off d))"
  "extends mach d (snd (do_write_regb mach b off v d))"
  "extends mach d (snd (do_modify_regb hw mach b off clear setb d))"
proof -
  show "extends mach d (snd (do_read_regb hw mach b off d))"
    by (rule check_bar_access_cases [of mach d b RD_ACCESS off])
       (simp_all add: do_read_regb_allowed do_regb_refused extends_refl extendsI coveredI)
  show "extends mach d (snd (do_write_regb mach b off v d))"
    by (rule check_bar_access_cases [of mach d b WR_ACCESS off])
       (simp_all add: do_write_regb_allowed do_regb_refused extends_refl extendsI coveredI)
  show "extends mach d (snd (do_modify_regb hw mach b off clear setb d))"
    by (rule check_bar_access_cases [of mach d b "RD_ACCESS OR WR_ACCESS" off])
       (simp_all add: do_modify_regb_allowed do_regb_refused extends_refl extendsI coveredI Let_def
          rights_split)
qed

section \<open>Ranges\<close>

lemma read_regs_extends: "extends mach d (snd (read_regs hw mach b off incr sz n i buf d))"
proof (induction n arbitrary: i buf d)
  case (Suc n)
  have e: "extends mach d (snd (do_read_regb hw mach b (off + i * incr) d))" by (rule do_regb_extends)
  obtain r d' where rd: "do_read_regb hw mach b (off + i * incr) d = (r, d')" by fastforce
  then have e: "extends mach d d'" using e by simp
  show ?case
  proof (cases r)
    case (Done v)
    have "extends mach d' (snd (read_regs hw mach b off incr sz n (i + 1) (buf @ [v]) d'))" by (rule Suc)
    then show ?thesis using rd Done e extends_trans [OF e] by simp
  qed (use rd e in simp_all)
qed (simp add: extends_refl)

lemma write_regs_extends: "extends mach d (snd (write_regs mach b off sz n i buf d))"
proof (induction n arbitrary: i d)
  case (Suc n)
  have e: "extends mach d (snd (do_write_regb mach b off (buf ! unat i) d))" by (rule do_regb_extends)
  obtain r d' where wr: "do_write_regb mach b off (buf ! unat i) d = (r, d')" by fastforce
  then have e: "extends mach d d'" using e by simp
  show ?case
  proof (cases r)
    case (Done v)
    have "extends mach d' (snd (write_regs mach b off sz n (i + 1) buf d'))" by (rule Suc)
    then show ?thesis using wr Done e extends_trans [OF e] by (simp add: extends_refl)
  qed (use wr e in \<open>simp_all add: extends_refl\<close>)
qed (simp add: extends_refl)

text \<open>The values of a sequence of reads.\<close>

fun reg_values :: "hardware \<Rightarrow> device_memory \<Rightarrow> u32 list \<Rightarrow> bus \<Rightarrow> u32 list" where
  "reg_values hw mem [] tr = []"
| "reg_values hw mem (off # offs) tr =
     reg_value hw mem off tr # reg_values hw mem offs (tr @ [rd_access mem off])"

definition offsets :: "u32 \<Rightarrow> u32 \<Rightarrow> u32 \<Rightarrow> nat \<Rightarrow> u32 list" where
  "offsets off incr i n = map (\<lambda>k. off + (i + of_nat k) * incr) [0..<n]"

lemma offsets_simps [simp]:
  "offsets off incr i 0 = []"
  "offsets off incr i (Suc n) = (off + i * incr) # offsets off incr (i + 1) n"
  by (simp_all add: offsets_def upt_conv_Cons map_Suc_upt [symmetric] algebra_simps del: upt_Suc)

lemma unat_Suc_index: "unat i < 2 ^ 31 \<Longrightarrow> unat (i + 1 :: u32) = Suc (unat i)"
  using unat_plus_no_wrap [of i 1] by simp

lemma index_room:
  assumes "Suc (unat i) \<le> unat (sz :: u32) div 4"
  shows "unat (i :: u32) < 2 ^ 31" and "\<not> 4 * unat i + 4 > unat sz"
proof -
  have "unat sz < 4294967296" by simp
  moreover have "4 * Suc (unat i) \<le> unat sz" using assms by presburger
  ultimately have "unat i < 2147483648 \<and> \<not> 4 * unat i + 4 > unat sz" by arith
  then show "unat i < 2 ^ 31" "\<not> 4 * unat i + 4 > unat sz" by simp_all
qed

lemma index_full: "4 * (n div 4) + 4 > (n :: nat)"
  by presburger

lemma allowed_bus [simp]: "allowed mach (d\<lparr>bus := tr\<rparr>) b access off = allowed mach d b access off"
  by (simp add: allowed_def user_rights_def)

lemma read_regs_done:
  assumes "\<forall>o'\<in>set (offsets off incr i n). allowed mach d b RD_ACCESS o'"
    and "unat i + n \<le> unat sz div 4"
  shows "read_regs hw mach b off incr sz n i buf d =
     (Done (buf @ reg_values hw (bank_of d b) (offsets off incr i n) (bus d)),
      d\<lparr>bus := bus d @ map (rd_access (bank_of d b)) (offsets off incr i n)\<rparr>)"
  using assms
proof (induction n arbitrary: i buf d)
  case (Suc n)
  have i: "unat i < 2 ^ 31" "\<not> 4 * unat i + 4 > unat sz"
    by (rule index_room [of i sz], use Suc.prems(2) in simp)+
  show ?case
    using Suc.prems Suc.IH i by (simp add: do_read_regb_allowed unat_Suc_index)
qed simp

lemma read_regs_crash:
  assumes "\<forall>o'\<in>set (offsets off incr i (Suc k)). allowed mach d b RD_ACCESS o'"
    and "unat i + k = unat sz div 4" and "k < n"
  shows "fst (read_regs hw mach b off incr sz n i buf d) = Crash Out_of_bounds"
  using assms
proof (induction k arbitrary: i buf d n)
  case 0
  then obtain n' where "n = Suc n'" by (cases n) auto
  with 0 show ?case using index_full [of "unat sz"] by (simp add: do_read_regb_allowed)
next
  case (Suc k)
  then obtain n' where n': "n = Suc n'" by (cases n) auto
  have i: "unat i < 2 ^ 31" "\<not> 4 * unat i + 4 > unat sz"
    by (rule index_room [of i sz], use Suc.prems(2) in simp)+
  show ?case
    using Suc.prems Suc.IH i n' by (simp add: do_read_regb_allowed unat_Suc_index)
qed

lemma write_regs_done:
  assumes "allowed mach d b WR_ACCESS off" and "unat i + n \<le> unat sz div 4"
    and "unat i + n \<le> length buf"
  shows "write_regs mach b off sz n i buf d =
     (Done (), d\<lparr>bus := bus d @ map (wr_access (bank_of d b) off) (take n (drop (unat i) buf))\<rparr>)"
  using assms
proof (induction n arbitrary: i d)
  case (Suc n)
  have i: "unat i < 2 ^ 31" "\<not> 4 * unat i + 4 > unat sz"
    by (rule index_room [of i sz], use Suc.prems(2) in simp)+
  have "unat i < length buf" using Suc.prems(3) by simp
  then have dr: "drop (unat i) buf = buf ! unat i # drop (Suc (unat i)) buf" by (rule Cons_nth_drop_Suc [symmetric])
  show ?case
    using Suc.prems Suc.IH i by (simp add: do_write_regb_allowed unat_Suc_index dr)
qed simp

lemma write_regs_crash:
  assumes "allowed mach d b WR_ACCESS off" and "unat i + k = unat sz div 4" and "k < n"
  shows "fst (write_regs mach b off sz n i buf d) = Crash Out_of_bounds"
  using assms
proof (induction k arbitrary: i d n)
  case 0
  then obtain n' where "n = Suc n'" by (cases n) auto
  with 0 show ?case using index_full [of "unat sz"] by simp
next
  case (Suc k)
  then obtain n' where n': "n = Suc n'" by (cases n) auto
  have i: "unat i < 2 ^ 31" "\<not> 4 * unat i + 4 > unat sz"
    by (rule index_room [of i sz], use Suc.prems(2) in simp)+
  show ?case
    using Suc.prems Suc.IH i n' by (simp add: do_write_regb_allowed unat_Suc_index)
qed

text \<open>The buffer has room for \<open>count mod 2 ^ 30\<close> words.\<close>

lemma words_of_bytes: "unat (4 * cnt :: u32) div 4 = unat cnt mod 2 ^ 30"
proof -
  have "unat (4 * cnt :: u32) = 4 * unat cnt mod 4294967296" by (simp add: unat_word_ariths)
  also have "\<dots> = 4 * (unat cnt mod 2 ^ 30)" by (simp add: mult_mod_right)
  finally show ?thesis by simp
qed

section \<open>The register commands\<close>

text \<open>The commands that access registers.\<close>

fun register_command :: "bif_cmd \<Rightarrow> bool" where
  "register_command (READ_REGB b off) = True"
| "register_command (READ_RANGE_REGB b off n) = True"
| "register_command (READ_REPEAT_REGB b off n) = True"
| "register_command (WRITE_REGB b off v) = True"
| "register_command (WRITE_REPEAT_REGB b off n) = True"
| "register_command (MODIFY_REGB b off clear setb) = True"
| "register_command (SET_REGB_MODE b off mode) = True"
| "register_command _ = False"

text \<open>The device after the command was counted.\<close>

definition counted :: "bifrost_device \<Rightarrow> bifrost_device" where
  "counted d = d\<lparr>bstats := (bstats d)\<lparr>ioctls := ioctls (bstats d) + 1\<rparr>\<rparr>"

lemma counted_fields [simp]:
  "regb (counted d) = regb d" "membus (counted d) = membus d" "bus (counted d) = bus d"
  "allowed mach (counted d) b access off = allowed mach d b access off"
  "covered mach (counted d) x = covered mach d x"
  by (simp_all add: counted_def allowed_def user_rights_def covered_def)

lemma ioctl_register_extends:
  "extends mach d (snd (ioctl_read hw mach io b off d))"
  "extends mach d (snd (ioctl_read_range hw mach io incr b off n d))"
  "extends mach d (snd (ioctl_write mach io b off v d))"
  "extends mach d (snd (ioctl_write_repeat mach io b off n d))"
  "extends mach d (snd (ioctl_modify hw mach io b off clear setb d))"
  "extends mach d (snd (ioctl_set_mode mach io b off d))"
proof -
  show "extends mach d (snd (ioctl_read hw mach io b off d))"
    using do_regb_extends(1) [of mach d hw b off]
    by (auto simp: ioctl_read_def extends_refl split: prod.splits res.splits)
  show "extends mach d (snd (ioctl_read_range hw mach io incr b off n d))"
    using read_regs_extends [of mach d hw b off incr "4 * n" "unat n" 0 "[]"]
    by (auto simp: ioctl_read_range_def extends_refl split: prod.splits res.splits)
  show "extends mach d (snd (ioctl_write mach io b off v d))"
    using do_regb_extends(2) [of mach d b off v]
    by (auto simp: ioctl_write_def extends_refl split: prod.splits res.splits)
  show "extends mach d (snd (ioctl_write_repeat mach io b off n d))"
    using write_regs_extends [of mach d b off "4 * n" "unat n" 0 "user_words io"]
    by (auto simp: ioctl_write_repeat_def extends_refl split: prod.splits res.splits)
  show "extends mach d (snd (ioctl_modify hw mach io b off clear setb d))"
    using do_regb_extends(3) [of mach d hw b off clear setb]
    by (auto simp: ioctl_modify_def extends_refl split: prod.splits res.splits)
  show "extends mach d (snd (ioctl_set_mode mach io b off d))"
    by (simp add: ioctl_set_mode_def extends_refl)
qed

end
