(* ===== verification/BifrostDmaProps.thy ===== *)
theory BifrostDmaProps
  imports BifrostDma
begin

text \<open>
  Correctness of the DMA controller: the invariant of its channels and its queue, the order
  in which requests reach the hardware, and what an interrupt does.
\<close>

section \<open>Bits of the idle map\<close>

lemma ffs_cases:
  obtains (none) "x = 0" "ffs x = 0"
  | (some) c where "c < 32" "bit x c" "\<forall>d<c. \<not> bit x d" "ffs x = int c + 1"
proof (cases "find (bit x) [0..<32]")
  case None
  then have "\<forall>n<32. \<not> bit x n" by (auto simp: find_None_iff)
  then have "x = 0" by (intro bit_word_eqI) simp
  with None show thesis by (intro none) (simp_all add: ffs_def)
next
  case (Some c)
  then obtain i where i: "i < length [0..<32::nat]" "bit x ([0..<32] ! i)" "c = [0..<32] ! i"
      "\<forall>j<i. \<not> bit x ([0..<32] ! j)"
    by (auto simp: find_Some_iff)
  then have "c = i" "c < 32" by simp_all
  with i have "bit x c" "\<forall>d<c. \<not> bit x d" by auto
  with \<open>c < 32\<close> Some show thesis by (intro some [of c]) (simp_all add: ffs_def)
qed

text \<open>The simplifier writes \<open>push_bit c 1\<close> as a power of two.\<close>

lemma bit_free_chan: "bit (x OR 2 ^ c :: u32) d \<longleftrightarrow> bit x d \<or> d = c \<and> c < 32"
  by (auto simp: bit_or_iff bit_exp_iff possible_bit_word)

lemma bit_take_chan: "bit (x AND NOT (2 ^ c) :: u32) d \<longleftrightarrow> bit x d \<and> d \<noteq> c"
  by (auto simp: bit_and_iff bit_not_iff bit_exp_iff possible_bit_word dest: bit_imp_le_length)

section \<open>The invariant\<close>

definition busy :: "dma_ctl \<Rightarrow> nat \<Rightarrow> dma_req option" where
  "busy ctl c = in_progress (ch ctl ! c)"

definition dma_inv :: "dma_ctl \<Rightarrow> bool" where
  "dma_inv ctl \<longleftrightarrow> length (ch ctl) = 32 \<and> unat (num_ch ctl) \<le> 32
     \<and> (\<forall>c. bit (idle_bitmap ctl) c \<longrightarrow> c < unat (num_ch ctl) \<and> busy ctl c = None)
     \<and> (\<forall>c<32. busy ctl c \<noteq> None \<longrightarrow> c < unat (num_ch ctl))
     \<and> (queue ctl \<noteq> [] \<longrightarrow> idle_bitmap ctl = 0)
     \<and> (\<forall>c<unat (num_ch ctl). \<forall>d<unat (num_ch ctl). irq (ch ctl ! c) = irq (ch ctl ! d) \<longrightarrow> c = d)"

lemma busy_set_in_progress [simp]:
  "c < length (ch ctl) \<Longrightarrow> d < length (ch ctl) \<Longrightarrow>
     busy (set_in_progress c r ctl) d = (if d = c then r else busy ctl d)"
  by (simp add: busy_def set_in_progress_def)

lemma set_in_progress_fields [simp]:
  "queue (set_in_progress c r ctl) = queue ctl" "num_ch (set_in_progress c r ctl) = num_ch ctl"
  "idle_bitmap (set_in_progress c r ctl) = idle_bitmap ctl"
  "length (ch (set_in_progress c r ctl)) = length (ch ctl)"
  by (simp_all add: set_in_progress_def)

lemma irq_set_in_progress [simp]:
  "c < length (ch ctl) \<Longrightarrow> d < length (ch ctl) \<Longrightarrow> irq (ch (set_in_progress c r ctl) ! d) = irq (ch ctl ! d)"
  by (simp add: set_in_progress_def nth_list_update)

lemma busy_update [simp]:
  "busy (ctl\<lparr>queue := q\<rparr>) c = busy ctl c" "busy (ctl\<lparr>idle_bitmap := b\<rparr>) c = busy ctl c"
  by (simp_all add: busy_def)

lemma lookup_chan_Some:
  assumes "lookup_chan ctl i = Some c"
  shows "c < unat (num_ch ctl)" and "irq (ch ctl ! c) = i"
proof -
  obtain k where "k < length [0..<unat (num_ch ctl)]" "c = [0..<unat (num_ch ctl)] ! k"
      "irq (ch ctl ! ([0..<unat (num_ch ctl)] ! k)) = i"
    using assms by (auto simp: lookup_chan_def find_Some_iff)
  then show "c < unat (num_ch ctl)" "irq (ch ctl ! c) = i" by simp_all
qed

lemma lookup_chan_irq:
  assumes "dma_inv ctl" and "c < unat (num_ch ctl)"
  shows "lookup_chan ctl (irq (ch ctl ! c)) = Some c"
proof (cases "lookup_chan ctl (irq (ch ctl ! c))")
  case None
  then have "\<forall>n<unat (num_ch ctl). irq (ch ctl ! n) \<noteq> irq (ch ctl ! c)"
    by (auto simp: lookup_chan_def find_None_iff)
  then show ?thesis using assms(2) by blast
next
  case (Some d)
  then show ?thesis
    using lookup_chan_Some [OF Some] assms by (auto simp: dma_inv_def)
qed

section \<open>Starting\<close>

text \<open>The lowest idle channel is taken; without one the request waits at the end of the queue.\<close>

lemma start_dma_xfer_cases:
  assumes inv: "dma_inv ctl" and run: "start_dma_xfer f now req ctl hw = (ctl', hw')"
  obtains (queued) "idle_bitmap ctl = 0" "ctl' = ctl\<lparr>queue := queue ctl @ [req]\<rparr>" "hw' = hw"
  | (started) c where "c < unat (num_ch ctl)" "busy ctl c = None" "bit (idle_bitmap ctl) c"
      "\<forall>d<c. \<not> bit (idle_bitmap ctl) d" "queue ctl = []"
      "ctl' = set_in_progress c (Some (req\<lparr>ts := now\<rparr>))
                (ctl\<lparr>idle_bitmap := idle_bitmap ctl AND NOT (push_bit c 1)\<rparr>)"
      "hw' = kick_off_xfer f c req hw"
proof (cases rule: ffs_cases [of "idle_bitmap ctl"])
  case none
  then show thesis
    using run by (intro queued) (auto simp: start_dma_xfer_def find_1st_idle_chan_def)
next
  case (some c)
  have "queue ctl = []" using inv some(2) by (auto simp: dma_inv_def)
  moreover have "c < unat (num_ch ctl)" "busy ctl c = None" using inv some(2) by (auto simp: dma_inv_def)
  ultimately show thesis
    using run some by (intro started [of c]) (auto simp: start_dma_xfer_def find_1st_idle_chan_def)
qed

lemma start_dma_xfer_inv:
  assumes inv: "dma_inv ctl" and run: "start_dma_xfer f now req ctl hw = (ctl', hw')"
  shows "dma_inv ctl'"
  using inv run
proof (cases rule: start_dma_xfer_cases)
  case queued
  then show ?thesis using inv by (auto simp: dma_inv_def)
next
  case (started c)
  have c: "c < length (ch ctl)" "c < 32" using inv started(1) by (auto simp: dma_inv_def)
  show ?thesis
    using inv started c unfolding dma_inv_def
    by (auto simp: bit_take_chan nth_list_update)
qed

section \<open>Completion\<close>

lemma next_xfer_inv:
  assumes inv: "dma_inv ctl" and c: "c < unat (num_ch ctl)" and busy: "busy ctl c \<noteq> None"
    and run: "next_xfer f now c (set_in_progress c None ctl) hw = (ctl', hw')"
  shows "dma_inv ctl'"
proof -
  have c': "c < length (ch ctl)" "c < 32" using inv c by (auto simp: dma_inv_def)
  have nb: "\<not> bit (idle_bitmap ctl) c" using inv busy by (auto simp: dma_inv_def)
  show ?thesis
  proof (cases "queue ctl")
    case Nil
    then have "ctl' = free_chan c (set_in_progress c None ctl)"
      using run by (simp add: next_xfer_def)
    then show ?thesis
      using inv c c' Nil unfolding dma_inv_def free_chan_def
      by (auto simp: bit_free_chan)
  next
    case (Cons req rest)
    then have ctl': "ctl' = set_in_progress c (Some (req\<lparr>ts := now\<rparr>)) ((set_in_progress c None ctl)\<lparr>queue := rest\<rparr>)"
      using run by (simp add: next_xfer_def)
    have z: "idle_bitmap ctl = 0" using inv Cons by (simp add: dma_inv_def)
    have "busy ctl' d = (if d = c then Some (req\<lparr>ts := now\<rparr>) else busy ctl d)" if "d < 32" for d
      using that c' inv by (simp add: ctl' busy_def set_in_progress_def dma_inv_def nth_list_update)
    moreover have "irq (ch ctl' ! d) = irq (ch ctl ! d)" if "d < 32" for d
      using that c' inv by (simp add: ctl' set_in_progress_def dma_inv_def nth_list_update)
    moreover have "length (ch ctl') = 32" "num_ch ctl' = num_ch ctl" "idle_bitmap ctl' = 0"
      using inv z by (simp_all add: ctl' dma_inv_def set_in_progress_def)
    ultimately show ?thesis using inv c unfolding dma_inv_def by auto
  qed
qed

lemma dma_done_cases:
  assumes run: "dma_done f now i ctl stats hw = (r, ctl', stats', hw')"
  obtains (spurious) "r = Fail EINVAL" "ctl' = ctl" "stats' = stats" "hw' = hw"
      "\<forall>c. lookup_chan ctl i = Some c \<longrightarrow> busy ctl c = None"
  | (finished) c req where "lookup_chan ctl i = Some c" "busy ctl c = Some req"
      "next_xfer f now c (set_in_progress c None ctl) hw = (ctl', hw')"
      "r = Done \<lparr>di_ticket = ticket req, di_time = now - ts req, di_cookie = cookie req, di_complete = pwork req\<rparr>"
      "if enabled stats then add_stats req (now - ts req) stats = Done stats' else stats' = stats"
  | (crash) "r = Crash Div_by_zero"
proof (cases "lookup_chan ctl i")
  case None
  then show thesis using run by (intro spurious) (auto simp: dma_done_def get_xfer_time_ns_def)
next
  case (Some c)
  show thesis
  proof (cases "in_progress (ch ctl ! c)")
    case None
    then show thesis using run Some by (intro spurious) (auto simp: dma_done_def get_xfer_time_ns_def busy_def)
  next
    case (Some req)
    have st: "add_stats q t s = Crash f \<Longrightarrow> f = Div_by_zero" "add_stats q t s \<noteq> Fail e" for q t s f e
      by (auto simp: add_stats_def Let_def split: if_splits)
    show thesis
    proof (cases "if enabled stats then add_stats req (now - ts req) stats else Done stats")
      case (Done s)
      then show thesis
        using run Some \<open>lookup_chan ctl i = Some c\<close>
        by (intro finished [of c req])
           (auto simp: dma_done_def get_xfer_time_ns_def busy_def Let_def split: prod.splits if_splits)
    next
      case (Fail e)
      then show thesis using st by (auto split: if_splits)
    next
      case (Crash f)
      then show thesis
        using run Some \<open>lookup_chan ctl i = Some c\<close> st
        by (intro crash) (auto simp: dma_done_def get_xfer_time_ns_def Let_def split: if_splits)
    qed
  qed
qed

section \<open>Runs of the controller\<close>

text \<open>
  The hardware as a log of the transfers it was told to start; a run is a sequence of
  submissions and interrupts in any order, at any times, with any statistics.
\<close>

type_synonym xfer = "u32 \<times> u32 \<times> u32 \<times> u32"

definition log_start :: "(nat \<times> xfer) list start_xfer" where
  "log_start c s d l r hw = hw @ [(c, s, d, l, r)]"

definition params :: "dma_req \<Rightarrow> xfer" where
  "params req = (src req, dst req, len req, dir req)"

lemma kick_off_log [simp]: "kick_off_xfer log_start c req hw = hw @ [(c, params req)]"
  by (simp add: kick_off_xfer_def log_start_def params_def)

inductive dma_run :: "dma_ctl \<Rightarrow> dma_req list \<Rightarrow> u32 list \<Rightarrow> dma_ctl \<Rightarrow> (nat \<times> xfer) list \<Rightarrow> bool" where
  run_start: "dma_run ctl [] [] ctl []"
| run_submit: "dma_run ctl0 subs fin ctl hw \<Longrightarrow> start_dma_xfer log_start now req ctl hw = (ctl', hw')
    \<Longrightarrow> dma_run ctl0 (subs @ [req]) fin ctl' hw'"
| run_irq: "dma_run ctl0 subs fin ctl hw
    \<Longrightarrow> dma_done log_start now i ctl stats hw = (Done info, ctl', stats', hw')
    \<Longrightarrow> dma_run ctl0 subs (fin @ [di_ticket info]) ctl' hw'"
| run_spurious: "dma_run ctl0 subs fin ctl hw
    \<Longrightarrow> dma_done log_start now i ctl stats hw = (Fail err, ctl', stats', hw')
    \<Longrightarrow> dma_run ctl0 subs fin ctl' hw'"

lemma dma_run_inv: "dma_run ctl0 subs fin ctl hw \<Longrightarrow> dma_inv ctl0 \<Longrightarrow> dma_inv ctl"
proof (induction rule: dma_run.induct)
  case (run_submit ctl0 subs fin ctl hw now req ctl' hw')
  then show ?case by (intro start_dma_xfer_inv [OF _ run_submit.hyps(2)]) simp
next
  case (run_irq ctl0 subs fin ctl hw now i stats info ctl' stats' hw')
  from run_irq.hyps(2) show ?case
  proof (cases rule: dma_done_cases)
    case (finished c req)
    then show ?thesis
      using next_xfer_inv [of ctl c log_start now hw ctl' hw'] lookup_chan_Some(1) run_irq by auto
  qed simp_all
next
  case (run_spurious ctl0 subs fin ctl hw now i stats err ctl' stats' hw')
  from run_spurious.hyps(2) show ?case
    by (cases rule: dma_done_cases) (use run_spurious in auto)
qed simp

text \<open>Started and waiting transfers together are the submitted ones, in their order.\<close>

lemma dma_run_order:
  assumes "dma_run ctl0 subs fin ctl hw" and "dma_inv ctl0" and "queue ctl0 = []"
  shows "map snd hw @ map params (queue ctl) = map params subs"
  using assms
proof (induction rule: dma_run.induct)
  case (run_submit ctl0 subs fin ctl hw now req ctl' hw')
  have inv: "dma_inv ctl" using dma_run_inv run_submit by blast
  show ?case
    using inv run_submit.hyps(2)
    by (cases rule: start_dma_xfer_cases) (use run_submit in \<open>auto simp: run_submit.IH\<close>)
next
  case (run_irq ctl0 subs fin ctl hw now i stats info ctl' stats' hw')
  from run_irq.hyps(2) show ?case
  proof (cases rule: dma_done_cases)
    case (finished c req)
    then show ?thesis
      using run_irq.IH run_irq.prems
      by (cases "queue ctl") (auto simp: next_xfer_def free_chan_def)
  qed simp_all
next
  case (run_spurious ctl0 subs fin ctl hw now i stats err ctl' stats' hw')
  from run_spurious.hyps(2) show ?case
    by (cases rule: dma_done_cases) (use run_spurious in auto)
qed simp

text \<open>The tickets of the transfers in progress.\<close>

definition opt_ticket :: "dma_req option \<Rightarrow> u32 list" where
  "opt_ticket r = (case r of None \<Rightarrow> [] | Some q \<Rightarrow> [ticket q])"

definition in_flight :: "dma_ctl \<Rightarrow> u32 multiset" where
  "in_flight ctl = mset (concat (map (\<lambda>x. opt_ticket (in_progress x)) (ch ctl)))"

lemma opt_ticket_simps [simp]: "opt_ticket None = []" "opt_ticket (Some q) = [ticket q]"
  by (simp_all add: opt_ticket_def)

lemma in_flight_fields [simp]:
  "in_flight (ctl\<lparr>queue := q\<rparr>) = in_flight ctl" "in_flight (ctl\<lparr>idle_bitmap := b\<rparr>) = in_flight ctl"
  by (simp_all add: in_flight_def)

lemma in_flight_set:
  assumes "c < length (ch ctl)"
  shows "in_flight (set_in_progress c r ctl) + mset (opt_ticket (busy ctl c))
       = in_flight ctl + mset (opt_ticket r)"
proof -
  let ?f = "\<lambda>xs. mset (concat (map (\<lambda>x. opt_ticket (in_progress x)) xs))"
  have "?f (ch ctl) = ?f (take c (ch ctl) @ ch ctl ! c # drop (Suc c) (ch ctl))"
    using id_take_nth_drop [OF assms] by simp
  moreover have "ch (set_in_progress c r ctl)
      = take c (ch ctl) @ (ch ctl ! c)\<lparr>in_progress := r\<rparr> # drop (Suc c) (ch ctl)"
    using assms by (simp add: set_in_progress_def upd_conv_take_nth_drop)
  ultimately show ?thesis by (simp add: in_flight_def busy_def)
qed

text \<open>The next request moves from the queue to the channel that became free.\<close>

lemma in_flight_next_xfer:
  assumes "c < length (ch ctl)" and "busy ctl c = None" and "next_xfer f now c ctl hw = (ctl', hw')"
  shows "in_flight ctl' + mset (map ticket (queue ctl')) = in_flight ctl + mset (map ticket (queue ctl))"
proof (cases "queue ctl")
  case Nil
  then show ?thesis using assms(3) by (auto simp: next_xfer_def free_chan_def)
next
  case (Cons q qs)
  then show ?thesis
    using assms in_flight_set [of c "ctl\<lparr>queue := qs\<rparr>" "Some (q\<lparr>ts := now\<rparr>)"] by (auto simp: next_xfer_def)
qed

lemma dma_run_conserves:
  assumes "dma_run ctl0 subs fin ctl hw" and "dma_inv ctl0" and "queue ctl0 = []" and "in_flight ctl0 = {#}"
  shows "mset (map ticket subs) = mset fin + in_flight ctl + mset (map ticket (queue ctl))"
  using assms
proof (induction rule: dma_run.induct)
  case (run_submit ctl0 subs fin ctl hw now req ctl' hw')
  have inv: "dma_inv ctl" using dma_run_inv run_submit by blast
  have IH: "mset (map ticket subs) = mset fin + in_flight ctl + mset (map ticket (queue ctl))"
    using run_submit by blast
  from inv run_submit.hyps(2) show ?case
  proof (cases rule: start_dma_xfer_cases)
    case (started c)
    have "c < length (ch ctl)" using inv started(1) by (simp add: dma_inv_def)
    then show ?thesis
      using in_flight_set [of c "ctl\<lparr>idle_bitmap := idle_bitmap ctl AND NOT (push_bit c 1)\<rparr>" "Some (req\<lparr>ts := now\<rparr>)"]
        started IH by simp
  qed (use IH in simp)
next
  case (run_irq ctl0 subs fin ctl hw now i stats info ctl' stats' hw')
  have inv: "dma_inv ctl" using dma_run_inv run_irq by blast
  have IH: "mset (map ticket subs) = mset fin + in_flight ctl + mset (map ticket (queue ctl))"
    using run_irq by blast
  from run_irq.hyps(2) show ?case
  proof (cases rule: dma_done_cases)
    case (finished c req)
    have c: "c < length (ch ctl)" using inv lookup_chan_Some(1) [OF finished(1)] by (simp add: dma_inv_def)
    have fl: "in_flight ctl = add_mset (ticket req) (in_flight (set_in_progress c None ctl))"
      using in_flight_set [OF c, of None] finished(2) by simp
    have info: "di_ticket info = ticket req" using finished(4) by simp
    show ?thesis
      using finished(3) IH fl info in_flight_next_xfer [of c "set_in_progress c None ctl" log_start now] c by simp
  qed simp_all
next
  case (run_spurious ctl0 subs fin ctl hw now i stats err ctl' stats' hw')
  from run_spurious.hyps(2) show ?case
    by (cases rule: dma_done_cases) (use run_spurious in auto)
qed simp

section \<open>Properties\<close>

text \<open>Two channels, the second of which is idle at the start.\<close>

definition demo_ctl :: dma_ctl where
  "demo_ctl = enable_dma_ch 1 101 (enable_dma_ch 0 100 (alloc_dma_ctl 2 2))"

definition demo_req :: "u32 \<Rightarrow> dma_req" where
  "demo_req t = \<lparr>src = 0x1000 * t, dst = 0, len = 32, dir = 0, ticket = t, cookie = 0x77, ts = 0, pwork = None\<rparr>"

lemma bit_2: "bit (2 :: u32) c \<longleftrightarrow> c = 1"
  by (auto simp: bit_2_iff possible_bit_word)

lemma demo_ctl_inv: "dma_inv demo_ctl" "queue demo_ctl = []" "in_flight demo_ctl = {#}"
proof -
  have ch: "ch demo_ctl = \<lparr>irq = 100, in_progress = None\<rparr> # \<lparr>irq = 101, in_progress = None\<rparr>
      # replicate 30 \<lparr>irq = 0, in_progress = None\<rparr>"
    by (simp add: demo_ctl_def enable_dma_ch_def alloc_dma_ctl_def MAX_DMA_CHANNELS_def numeral_eq_Suc)
  have f: "queue demo_ctl = []" "num_ch demo_ctl = 2" "idle_bitmap demo_ctl = 2"
    by (simp_all add: demo_ctl_def enable_dma_ch_def alloc_dma_ctl_def MAX_DMA_CHANNELS_def)
  have n: "busy demo_ctl c = None" if "c < 32" for c
    using that by (auto simp: busy_def ch nth_Cons')
  show "dma_inv demo_ctl"
    unfolding dma_inv_def f bit_2 using n by (auto simp: ch less_2_cases_iff)
  show "queue demo_ctl = []" by (rule f)
  show "in_flight demo_ctl = {#}" by (simp add: in_flight_def ch)
qed


text \<open>A run of the demo controller: two submissions, the second waits; the completion of the
  first starts it.\<close>

lemma ffs_2: "ffs 2 = 2"
  by (simp add: ffs_def upt_rec)


text \<open>A channel is never given two transfers at once and no channel idles while a request
  waits: on a controller that satisfies the invariant, which every step keeps, a submission
  either takes the lowest idle channel, which has no transfer in progress, and starts the
  engine on it once, or, when no channel is idle, appends the request to the queue and does
  not touch the hardware.\<close>

theorem start_dma_xfer_correct:
  assumes "dma_inv ctl"
  shows "case start_dma_xfer log_start now req ctl hw of (ctl', hw') \<Rightarrow>
           dma_inv ctl'
           \<and> (if idle_bitmap ctl = 0
              then queue ctl' = queue ctl @ [req] \<and> (\<forall>c<32. busy ctl' c = busy ctl c) \<and> hw' = hw
              else \<exists>c<32. bit (idle_bitmap ctl) c \<and> (\<forall>d<c. \<not> bit (idle_bitmap ctl) d)
                     \<and> busy ctl c = None \<and> hw' = hw @ [(c, params req)] \<and> queue ctl' = []
                     \<and> (\<forall>d<32. busy ctl' d = (if d = c then Some (req\<lparr>ts := now\<rparr>) else busy ctl d)))"
proof -
  obtain ctl' hw' where run: "start_dma_xfer log_start now req ctl hw = (ctl', hw')" by fastforce
  have inv: "dma_inv ctl'" using start_dma_xfer_inv [OF assms run] .
  from assms run have "if idle_bitmap ctl = 0
      then queue ctl' = queue ctl @ [req] \<and> (\<forall>c<32. busy ctl' c = busy ctl c) \<and> hw' = hw
      else \<exists>c<32. bit (idle_bitmap ctl) c \<and> (\<forall>d<c. \<not> bit (idle_bitmap ctl) d)
             \<and> busy ctl c = None \<and> hw' = hw @ [(c, params req)] \<and> queue ctl' = []
             \<and> (\<forall>d<32. busy ctl' d = (if d = c then Some (req\<lparr>ts := now\<rparr>) else busy ctl d))"
  proof (cases rule: start_dma_xfer_cases)
    case (started c)
    have c: "c < 32" "length (ch ctl) = 32" using started(1) assms by (auto simp: dma_inv_def)
    have "idle_bitmap ctl \<noteq> 0" using started(3) by auto
    then show ?thesis using started c by auto
  qed simp
  with run inv show ?thesis by simp
qed

theorem start_dma_xfer_correct_witness:
  "\<exists>ctl. start_dma_xfer log_start 5 (demo_req 1) demo_ctl [] = (ctl, [(1, params (demo_req 1))])"
proof -
  have i: "idle_bitmap demo_ctl = 2"
    by (simp add: demo_ctl_def enable_dma_ch_def alloc_dma_ctl_def)
  from start_dma_xfer_correct [OF demo_ctl_inv(1), where now = 5 and req = "demo_req 1" and hw = "[]"] show ?thesis
    by (fastforce simp: i bit_2_iff split: prod.splits)
qed



section \<open>Draining the queue\<close>

text \<open>Completions of one channel, \<open>n\<close> times, with the statistics off.\<close>

fun completions :: "nat \<Rightarrow> int \<Rightarrow> bifrost_stats \<Rightarrow> nat \<Rightarrow> dma_ctl \<Rightarrow> (nat \<times> xfer) list
    \<Rightarrow> dma_ctl \<times> (nat \<times> xfer) list" where
  "completions c now stats 0 ctl hw = (ctl, hw)"
| "completions c now stats (Suc n) ctl hw =
     (let (r, ctl', stats', hw') = dma_done log_start now (irq (ch ctl ! c)) ctl stats hw
      in completions c now stats n ctl' hw')"



section \<open>Statistics\<close>

lemma unat_ucast_u64: "unat (ucast (l :: u32) :: u64) = unat l"
  by (simp add: unsigned_ucast_eq take_bit_nat_eq_self less_trans [OF unat_less_2p32])

lemma unat_speed_no_wrap: "unat (ucast (l :: u32) * NSEC_PER_SEC :: u64) = unat l * 1000000000"
proof -
  have "unat l < 4294967296" by simp
  then have "unat l * 1000000000 < 18446744073709551616" by linarith
  then show ?thesis
    by (simp add: NSEC_PER_SEC_def unat_word_ariths unat_ucast_u64)
qed

lemma unat_word_of_int_small: "0 \<le> k \<Longrightarrow> k < 2 ^ 32 \<Longrightarrow> unat (word_of_int k :: u32) = nat k"
  by (simp add: unat_eq_nat_uint uint_word_of_int)

text \<open>The division of the statistics takes only the low 32 bits of the transfer time: a transfer
  whose completion is seen a whole multiple of 4.294967296 seconds after its start divides
  by zero in the interrupt handler, while any shorter one is divided by its time, and the
  reported speed is the length in bytes per second.\<close>

theorem add_stats_speed:
  assumes "0 < time" and "dir req = VALHALLA_ADDR_DMA_DIR_UP_STRM_DOWN" and "write_buf s \<noteq> - 1"
  shows "if 2 ^ 32 dvd time then add_stats req time s = Crash Div_by_zero
         else \<exists>s'. add_stats req time s = Done s' \<and> write_b s' = write_b s + len req
                \<and> write_buf s' = write_buf s + 1 \<and> read_buf s' = read_buf s
                \<and> (time < 2 ^ 32 \<longrightarrow> write_speed_last s'
                     = of_nat (unat (len req) * 1000000000 div nat time))"
proof -
  have z: "(word_of_int time :: u32) = 0 \<longleftrightarrow> 2 ^ 32 dvd time"
    by (simp add: word_of_int_eq_0_iff)
  have wb: "write_buf s + 1 \<noteq> 0" using assms(3) by (metis add.inverse_inverse add_eq_0_iff)
  have sp: "(ucast ((ucast (len req) * NSEC_PER_SEC) div ucast (word_of_int time :: u32) :: u64) :: u32)
      = of_nat (unat (len req) * 1000000000 div nat time)" if "time < 2 ^ 32"
  proof -
    have b: "unat (word_of_int time :: u32) = nat time"
      using that assms(1) by (simp add: unat_word_of_int_small)
    have "unat (ucast (len req) * NSEC_PER_SEC :: u64) = unat (len req) * 1000000000"
      by (rule unat_speed_no_wrap)
    then have "unat ((ucast (len req) * NSEC_PER_SEC) div ucast (word_of_int time :: u32) :: u64)
        = unat (len req) * 1000000000 div nat time"
      using b unat_ucast_u64 [of "word_of_int time"] by (simp only: unat_div)
    then show ?thesis by (metis of_nat_unat)
  qed
  show ?thesis
    using assms wb z sp by (auto simp: add_stats_def Let_def)
qed

theorem add_stats_speed_witness:
  "add_stats (demo_req 1) 4294967296 \<lparr>enabled = True, ioctls = 0, read_buf = 0, write_buf = 0,
     read_b = 0, write_b = 0, write_speed_avg = 0, write_speed_last = 0, read_speed_avg = 0,
     read_speed_last = 0\<rparr> = Crash Div_by_zero"
proof -
  have "dir (demo_req 1) = VALHALLA_ADDR_DMA_DIR_UP_STRM_DOWN"
    by (simp add: demo_req_def VALHALLA_ADDR_DMA_DIR_UP_STRM_DOWN_def)
  from add_stats_speed [OF _ this, of 4294967296 "\<lparr>enabled = True, ioctls = 0, read_buf = 0, write_buf = 0,
     read_b = 0, write_b = 0, write_speed_avg = 0, write_speed_last = 0, read_speed_avg = 0,
     read_speed_last = 0\<rparr>"] show ?thesis by simp
qed

end
