(* ===== verification/BifrostSystem.thy ===== *)
theory BifrostSystem
  imports BifrostAccess BifrostDmaProps BifrostIrq
begin

text \<open>
  The bifrost driver as a transition system: system calls of the open files, the end of
  blocked transfers, interrupts and the work queue, in any order. The invariant: the queues
  of the handles are bounded and their counters right, every open file has its own handle,
  and the DMA controller satisfies its own invariant.
\<close>

section \<open>The DMA controller after its setup\<close>

lemma bit_channels:
  fixes status :: u32
  assumes "n < 32"
  shows "bit (NOT status AND (push_bit n 1 - 1)) c \<longleftrightarrow> c < n \<and> \<not> bit status c"
proof -
  have "(push_bit n 1 - 1 :: u32) = mask n" by (simp add: mask_eq_exp_minus_1 push_bit_of_1)
  then show ?thesis
    using assms by (auto simp: bit_and_iff bit_not_iff bit_mask_iff possible_bit_word)
qed

lemma enable_channels:
  "length (ch ctl) = 32 \<Longrightarrow> n \<le> 32 \<Longrightarrow>
     (let ctl' = fold (\<lambda>c. enable_dma_ch c (irq0 + int c)) [0..<n] ctl
      in queue ctl' = queue ctl \<and> num_ch ctl' = num_ch ctl \<and> idle_bitmap ctl' = idle_bitmap ctl
         \<and> ch ctl' = map (\<lambda>c. if c < n then (ch ctl ! c)\<lparr>irq := irq0 + int c\<rparr> else ch ctl ! c) [0..<32])"
proof (induction n)
  case 0
  then show ?case using map_nth [of "ch ctl"] by (simp del: upt_rec_numeral)
next
  case (Suc n)
  then have "n < 32" by simp
  with Suc show ?case
    by (auto simp: Let_def enable_dma_ch_def nth_list_update simp del: upt_rec_numeral intro!: nth_equalityI)
qed

lemma low_nibble: "unat (cap AND 0xF :: u32) < 16"
proof -
  have "(0xF :: u32) = 2 ^ 4 - 1" by simp
  then have "unat (cap AND 0xF) = unat cap mod 16" using unat_and_mask [of cap 4] by simp
  then show ?thesis by simp
qed

lemma initial_ctl:
  assumes "n = cap AND 0xF" and "idle = NOT status AND (push_bit (unat n) 1 - 1)"
    and ctl: "ctl = fold (\<lambda>c. enable_dma_ch c (irq0 + int c)) [0..<unat n] (alloc_dma_ctl (uint n) idle)"
  shows "dma_inv ctl" and "queue ctl = []" and "in_flight ctl = {#}" and "num_ch ctl = n"
    and "\<forall>c<unat n. irq (ch ctl ! c) = irq0 + int c" and "\<forall>c. bit (idle_bitmap ctl) c \<longleftrightarrow> c < unat n \<and> \<not> bit status c"
proof -
  have n: "unat n < 16" unfolding assms(1) by (rule low_nibble)
  let ?a = "alloc_dma_ctl (uint n) idle"
  have a: "length (ch ?a) = 32" by (simp add: alloc_dma_ctl_def MAX_DMA_CHANNELS_def)
  have n': "unat n \<le> 32" using n by simp
  have f: "queue ctl = queue ?a" "num_ch ctl = num_ch ?a" "idle_bitmap ctl = idle"
      "ch ctl = map (\<lambda>c. if c < unat n then (ch ?a ! c)\<lparr>irq := irq0 + int c\<rparr> else ch ?a ! c) [0..<32]"
    using enable_channels [OF a n', of irq0] unfolding ctl by (simp_all add: Let_def alloc_dma_ctl_def)
  have "nat (uint n) < 16" using n by (simp only: unat_eq_nat_uint)
  then have "uint n < 16" by linarith
  then have "min (uint n) (int MAX_DMA_CHANNELS) = uint n" by (simp add: MAX_DMA_CHANNELS_def)
  then have num: "num_ch ctl = n" by (simp only: f(2) alloc_dma_ctl_def dma_ctl.simps word_of_int_uint)
  have idle: "bit idle c \<longleftrightarrow> c < unat n \<and> \<not> bit status c" for c
    unfolding assms(2) using bit_channels [of "unat n" status c] n by simp
  have b: "busy ctl c = None" if "c < 32" for c
    using that by (simp add: busy_def f(4) alloc_dma_ctl_def MAX_DMA_CHANNELS_def)
  have i: "irq (ch ctl ! c) = irq0 + int c" if "c < unat n" for c
    using that n by (simp add: f(4))
  show "num_ch ctl = n" by (rule num)
  show "\<forall>c<unat n. irq (ch ctl ! c) = irq0 + int c" using i by simp
  show "\<forall>c. bit (idle_bitmap ctl) c \<longleftrightarrow> c < unat n \<and> \<not> bit status c" by (simp add: f(3) idle)
  show "queue ctl = []" by (simp add: f(1) alloc_dma_ctl_def)
  show "dma_inv ctl"
    unfolding dma_inv_def using n b i idle by (auto simp: f(3) num f(1) alloc_dma_ctl_def) (simp add: f(4))
  have "length (ch ctl) = 32" by (simp add: f(4))
  then have "\<forall>x\<in>set (ch ctl). in_progress x = None"
    using b by (auto simp: in_set_conv_nth busy_def)
  then show "in_flight ctl = {#}" by (auto simp: in_flight_def)
qed

definition dma_bank :: "machine \<Rightarrow> nat" where
  "dma_bank mach = (if platform_rocky mach then 3
     else if platform_evander mach \<or> platform_eoco mach \<or> platform_ec702 mach then 2 else 0)"

lemma bifrost_dma_init_result:
  assumes "mem = regb d ! dma_bank mach"
    and "cap = reg_value hw mem VALHALLA_ADDR_DMA_CAPABILITY (bus d)"
    and "status = reg_value hw mem VALHALLA_ADDR_DMA_STATUS (bus d @ [rd_access mem VALHALLA_ADDR_DMA_CAPABILITY])"
    and "n = cap AND 0xF" and "idle = NOT status AND (push_bit (unat n) 1 - 1)"
  shows "bifrost_dma_init hw mach True irq0 d =
     (Done (), d\<lparr>regb_dma := dma_bank mach,
        bus := bus d @ [rd_access mem VALHALLA_ADDR_DMA_CAPABILITY, rd_access mem VALHALLA_ADDR_DMA_STATUS],
        dctl := Some (fold (\<lambda>c. enable_dma_ch c (irq0 + int c)) [0..<unat n] (alloc_dma_ctl (uint n) idle))\<rparr>)"
  unfolding assms(4,5) assms(2,3) assms(1)
  by (simp add: bifrost_dma_init_def dma_bank_def Let_def on_bus_mem_rd)

section \<open>The invariant\<close>

definition dev_inv :: "bifrost_device \<Rightarrow> bool" where
  "dev_inv d \<longleftrightarrow> distinct (map h_addr (handles d)) \<and> (\<forall>h\<in>set (handles d). handle_ok h)
     \<and> (\<forall>ctl. dctl d = Some ctl \<longrightarrow> dma_inv ctl)"

definition same_core :: "bifrost_device \<Rightarrow> bifrost_device \<Rightarrow> bool" where
  "same_core d d' \<longleftrightarrow> handles d' = handles d \<and> dctl d' = dctl d"

lemma dev_inv_core: "same_core d d' \<Longrightarrow> dev_inv d \<Longrightarrow> dev_inv d'"
  by (simp add: same_core_def dev_inv_def)

lemma same_core_refl [simp]: "same_core d d"
  by (simp add: same_core_def)

lemma same_core_on_bus: "same_core d (snd (on_bus prog d))"
  by (simp add: on_bus_def same_core_def split: prod.splits)

lemma same_core_extends: "extends mach d d' \<Longrightarrow> same_core d d'"
  by (auto simp: extends_def same_core_def)

lemma same_core_membus_xfer: "same_core d (snd (membus_xfer hw io xfer up_down d))"
  using same_core_on_bus [of d "do_membus_xfer hw (if up_down = BIFROST_DMA_DIRECTION_DOWN then user_half io
     else replicate (unat (xsize xfer) div 2) 0) (device xfer) (xsize xfer) up_down"]
  by (auto simp: membus_xfer_def Let_def split: prod.splits res.splits)

lemma same_core_prepare: "same_core d (snd (prepare_dma_buffer io up_down xfer d))"
  by (simp add: prepare_dma_buffer_def Let_def same_core_def)

lemma dev_start_dma_inv:
  assumes "dev_inv d" and "dev_start_dma now req d = (r, d')"
  shows "dev_inv d'"
proof (cases "dctl d")
  case (Some ctl)
  obtain ctl' tr' where run: "start_dma_xfer (dev_start_xfer (regb d ! regb_dma d)) now req ctl (bus d) = (ctl', tr')"
    by fastforce
  have "dma_inv ctl'" using start_dma_xfer_inv [OF _ run] assms(1) Some by (simp add: dev_inv_def)
  then show ?thesis using assms Some run by (auto simp: dev_start_dma_def dev_inv_def)
qed (use assms in \<open>simp add: dev_start_dma_def\<close>)

lemma do_dma_start_xfer_inv:
  assumes inv: "dev_inv d" and run: "do_dma_start_xfer io now xfer up_down hnd user d = (r, d')"
  shows "dev_inv d'"
proof (cases "req_alloc io")
  case True
  obtain req counter where rq: "alloc_dma_req (tickets d) hnd = (req, counter)" by fastforce
  let ?d = "d\<lparr>tickets := counter\<rparr>"
  obtain p d1 where p: "(if user then prepare_dma_buffer io up_down xfer ?d else (Done xfer, ?d)) = (p, d1)" by fastforce
  have i1: "dev_inv d1"
    using inv p same_core_prepare [of ?d io up_down xfer]
    by (auto simp: dev_inv_def same_core_def split: if_splits)
  show ?thesis
  proof (cases p)
    case (Done xfer')
    show ?thesis
    proof (cases "dma_req_for up_down xfer' (if user then req\<lparr>pwork := Some (completion io)\<rparr> else req)")
      case None
      then show ?thesis using run True rq p Done i1 by (simp add: do_dma_start_xfer_def)
    next
      case (Some req')
      let ?d2 = "if user then d1\<lparr>live := completion io # live d1\<rparr> else d1"
      obtain s d3 where s: "dev_start_dma now req' ?d2 = (s, d3)" by fastforce
      have "dev_inv ?d2" using i1 by (simp add: dev_inv_def)
      then have "dev_inv d3" using dev_start_dma_inv s by blast
      moreover have "d' = d3"
        using run True rq p Done Some s by (cases s) (simp_all add: do_dma_start_xfer_def)
      ultimately show ?thesis by simp
    qed
  qed (use run True rq p i1 in \<open>auto simp: do_dma_start_xfer_def\<close>)
qed (use inv run in \<open>simp add: do_dma_start_xfer_def\<close>)

lemma on_handle_inv:
  assumes "dev_inv d" and "\<And>h. h_addr (f h) = h_addr h" and "\<And>h. handle_ok h \<Longrightarrow> handle_ok (f h)"
  shows "dev_inv (on_handle a f d)"
proof -
  have m: "map h_addr (update_handle a f hs) = map h_addr hs" for hs
    using assms(2) by (induction hs) (simp_all add: update_handle_def)
  show ?thesis
    using assms m by (auto simp: on_handle_def dev_inv_def) (auto simp: update_handle_def)
qed

lemma ioctl_dequeue_inv:
  assumes inv: "dev_inv d" and run: "ioctl_dequeue io now a d = (r, d')"
  shows "dev_inv d'"
proof (cases "find_handle a (handles d)")
  case (Some h)
  have h: "h \<in> set (handles d)" "h_addr h = a"
    using Some by (auto simp: find_handle_def find_Some_iff)
  then have ok: "handle_ok h" using inv by (simp add: dev_inv_def)
  show ?thesis
  proof (cases "dequeue_event h")
    case None
    then show ?thesis using run Some inv by (simp add: ioctl_dequeue_def)
  next
    case (Some p)
    obtain e h' where p: "p = (e, h')" by (cases p)
    have ok': "handle_ok h'" using event_queue.get_law [OF ok] Some p by simp
    have a': "h_addr h' = a" using Some p h(2) by (auto simp: dequeue_event_def split: list.splits)
    have "d' = on_handle a (\<lambda>_. h') d"
      using run Some p \<open>find_handle a (handles d) = Some h\<close> by (auto simp: ioctl_dequeue_def Let_def split: if_splits)
    moreover have "map h_addr (update_handle a (\<lambda>_. h') hs) = map h_addr hs" for hs
      using a' by (induction hs) (simp_all add: update_handle_def)
    ultimately show ?thesis
      using inv ok' by (auto simp: on_handle_def dev_inv_def) (auto simp: update_handle_def)
  qed
qed (use run inv in \<open>simp add: ioctl_dequeue_def\<close>)

lemma bifrost_ioctl_inv:
  assumes inv: "dev_inv d" and run: "bifrost_ioctl hw mach io now a cmd d = (r, d')"
  shows "dev_inv d'"
proof -
  have c: "dev_inv (counted d)" using inv by (simp add: counted_def dev_inv_def)
  have ext: "extends mach (counted d) d' \<Longrightarrow> dev_inv d'"
    using dev_inv_core [OF same_core_extends] c by blast
  have masks: "handle_ok (h\<lparr>event_enable_mask := m\<rparr>) = handle_ok h"
      "handle_ok (h\<lparr>irq_forwarding_mask := m\<rparr>) = handle_ok h" for h m
    by (simp_all add: handle_ok_def)
  show ?thesis
  proof (cases "register_command cmd")
    case True
    then show ?thesis
      using run by (intro ext, cases cmd)
        (simp_all add: bifrost_ioctl_def counted_def [symmetric],
         (metis ioctl_register_extends snd_conv)+)
  next
    case reg: False
    show ?thesis
    proof (cases cmd)
      case (START_DMA user up_down xfer)
      have x: "bifrost_do_xfer hw io now a user up_down xfer (counted d) = (r, d')"
        using run START_DMA by (simp add: bifrost_ioctl_def counted_def)
      show ?thesis
        using x c do_dma_start_xfer_inv [OF c] same_core_membus_xfer [of "counted d" hw io xfer up_down] dev_inv_core
        by (auto simp: bifrost_do_xfer_def split: if_splits)
    next
      case DEQUEUE_EVENT
      then show ?thesis using run ioctl_dequeue_inv [OF c] by (simp add: bifrost_ioctl_def counted_def)
    next
      case (ENABLE_EVENT m)
      then have "d' = on_handle a (\<lambda>h. h\<lparr>event_enable_mask := m\<rparr>) (counted d)"
        using run by (simp add: bifrost_ioctl_def counted_def)
      then show ?thesis using on_handle_inv [OF c] masks by simp
    next
      case (IRQ_FORWARDING m)
      then have "d' = on_handle a (\<lambda>h. h\<lparr>irq_forwarding_mask := m\<rparr>) (counted d)"
        using run by (simp add: bifrost_ioctl_def counted_def)
      then show ?thesis using on_handle_inv [OF c] masks by simp
    qed (use run reg c in \<open>auto simp: bifrost_ioctl_def counted_def Let_def split: if_splits\<close>)
  qed
qed

section \<open>Interrupts and the work queue\<close>

lemma dma_msi_handler_inv:
  assumes inv: "dev_inv d" and run: "dma_msi_handler now mp junk i d = (Done (), d')"
  shows "dev_inv d'"
proof -
  obtain ctl where ctl: "dctl d = Some ctl"
    using run by (auto simp: dma_msi_handler_def split: option.splits)
  obtain r ctl' stats' tr' where dd:
      "dma_done (dev_start_xfer (regb d ! regb_dma d)) now i ctl (bstats d) (bus d) = (r, ctl', stats', tr')"
    by (metis prod_cases4)
  have i: "dma_inv ctl" using inv ctl by (simp add: dev_inv_def)
  from dd have "dma_inv ctl'" if "r = Done info" for info
  proof (cases rule: dma_done_cases)
    case (finished c req)
    then show ?thesis using next_xfer_inv [OF i _ _ finished(3)] lookup_chan_Some(1) by simp
  qed (use that in simp_all)
  then show ?thesis
    using run ctl dd inv by (cases r) (auto simp: dma_msi_handler_def dev_inv_def Let_def split: if_splits)
qed

lemma bifrost_create_event_handles:
  "map h_addr (bifrost_create_event alloc now e hs) = map h_addr hs"
  "\<forall>h\<in>set hs. handle_ok h \<Longrightarrow> \<forall>h\<in>set (bifrost_create_event alloc now e hs). handle_ok h"
proof -
  show "map h_addr (bifrost_create_event alloc now e hs) = map h_addr hs"
    by (induction hs) (simp_all add: bifrost_create_event_def Let_def)
  show "\<forall>h\<in>set hs. handle_ok h \<Longrightarrow> \<forall>h\<in>set (bifrost_create_event alloc now e hs). handle_ok h"
    by (auto simp: bifrost_create_event_def Let_def post_event_items(1))
qed

lemma dev_work_inv: "dev_inv d \<Longrightarrow> dev_inv (dev_work alloc now d)"
  using bifrost_create_event_handles [where alloc = alloc and now = now and hs = "handles d"]
  by (auto simp: dev_work_def work_create_event_def dev_inv_def split: list.splits)

text \<open>An interrupt service of the memory bus.\<close>

definition dev_isr :: "unit isr \<Rightarrow> bifrost_device \<Rightarrow> bifrost_device" where
  "dev_isr prog d = (let (u, (tr, ws)) = run_state prog (bus d, works d) in d\<lparr>bus := tr, works := ws\<rparr>)"

lemma dev_isr_inv: "dev_inv d \<Longrightarrow> dev_inv (dev_isr prog d)"
  by (auto simp: dev_isr_def dev_inv_def split: prod.splits)

section \<open>Runs\<close>

text \<open>A system call that ends in a crash has no next state. The address of a new handle is not
  that of an open one, and a completion is not one that exists.\<close>

inductive dev_step :: "hardware \<Rightarrow> machine \<Rightarrow> bifrost_device \<Rightarrow> bifrost_device \<Rightarrow> bool"
  for hw :: hardware and mach :: machine where
  step_open: "case mem of Some a \<Rightarrow> a \<notin> h_addr ` set (handles d) | None \<Rightarrow> True \<Longrightarrow> dev_open mem d = (r, d') \<Longrightarrow>
    dev_step hw mach d d'"
| step_release: "dev_step hw mach d (dev_release a d)"
| step_ioctl: "a \<in> h_addr ` set (handles d) \<Longrightarrow> completion io \<notin> set (live d @ signalled d) \<Longrightarrow>
    bifrost_ioctl hw mach io now a cmd d = (Done r, d') \<Longrightarrow> dev_step hw mach d d'"
| step_ioctl_error: "a \<in> h_addr ` set (handles d) \<Longrightarrow> completion io \<notin> set (live d @ signalled d) \<Longrightarrow>
    bifrost_ioctl hw mach io now a cmd d = (Fail e, d') \<Longrightarrow> dev_step hw mach d d'"
| step_finish: "w \<in> set (live d) \<Longrightarrow> finish_dma_buffer io up_down w t d = (q, d') \<Longrightarrow> dev_step hw mach d d'"
| step_dma_irq: "dma_msi_handler now mp junk i d = (Done (), d') \<Longrightarrow> dev_step hw mach d d'"
| step_irq: "dev_step hw mach d (default_msi_handler mp junk vec d)"
| step_fvd: "prog = FVDInterruptService hw ok \<or> prog = FVDIRQ1Service hw ok now \<or> prog = FVDIRQ2Service hw ok now \<Longrightarrow>
    dev_step hw mach d (dev_isr prog d)"
| step_work: "dev_step hw mach d (dev_work alloc now d)"

inductive_cases dev_stepE: "dev_step hw mach d d'"

text \<open>The driver starts without an open file, on PCI with the controller set up, on the memory
  bus without one.\<close>

inductive dev_reach :: "hardware \<Rightarrow> machine \<Rightarrow> bifrost_device \<Rightarrow> bool"
  for hw :: hardware and mach :: machine where
  reach_pci: "handles d = [] \<Longrightarrow> bifrost_dma_init hw mach True irq0 d = (r, d') \<Longrightarrow> dev_reach hw mach d'"
| reach_membus: "handles d = [] \<Longrightarrow> dctl d = None \<Longrightarrow> membus d \<Longrightarrow> dev_reach hw mach d"
| reach_next: "dev_reach hw mach d \<Longrightarrow> dev_step hw mach d d' \<Longrightarrow> dev_reach hw mach d'"

lemma dev_step_inv:
  assumes "dev_step hw mach d d'" and "dev_inv d"
  shows "dev_inv d'"
  using assms(1)
proof cases
  case (step_open mem r)
  then show ?thesis
    using assms(2)
    by (cases mem) (auto simp: dev_open_def bifrost_open_def dev_inv_def new_handle_def handle_ok_def)
next
  case (step_release a)
  then show ?thesis using assms(2) distinct_map_filter [of h_addr "handles d"]
    by (auto simp: dev_release_def bifrost_release_def dev_inv_def)
next
  case (step_ioctl a io now cmd r)
  then show ?thesis using assms(2) bifrost_ioctl_inv by blast
next
  case (step_ioctl_error a io now cmd e)
  then show ?thesis using assms(2) bifrost_ioctl_inv by blast
next
  case (step_finish w io up_down t q)
  then show ?thesis using assms(2) by (auto simp: finish_dma_buffer_def dev_inv_def Let_def split: if_splits)
next
  case (step_dma_irq now mp junk i)
  then show ?thesis using assms(2) dma_msi_handler_inv by blast
next
  case (step_irq mp junk vec)
  then show ?thesis using assms(2) by (simp add: default_msi_handler_def dev_inv_def)
next
  case (step_fvd prog ok now)
  then show ?thesis using assms(2) dev_isr_inv by blast
next
  case (step_work alloc now)
  then show ?thesis using assms(2) dev_work_inv by blast
qed

lemma dev_reach_inv: "dev_reach hw mach d \<Longrightarrow> dev_inv d"
proof (induction rule: dev_reach.induct)
  case (reach_pci d irq0 r d')
  then show ?case
    using bifrost_dma_init_result [OF refl refl refl refl refl, where d = d and mach = mach and hw = hw and ?irq0.0 = irq0]
      initial_ctl(1) [OF refl refl refl]
    by (auto simp: dev_inv_def)
next
  case (reach_membus d)
  then show ?case by (simp add: dev_inv_def)
next
  case (reach_next d d')
  then show ?case using dev_step_inv by blast
qed

end
