(* ===== verification/BifrostAccessProps.thy ===== *)
theory BifrostAccessProps
  imports BifrostAccess
begin

text \<open>
  The properties of register access from user space: confinement to the permitted
  registers, the atomic modification, the repeated accesses and their sizes, and the
  addresses behind the offsets on the memory bus.
\<close>

section \<open>A device for the witnesses\<close>

definition no_stats :: bifrost_stats where
  "no_stats = \<lparr>enabled = False, ioctls = 0, read_buf = 0, write_buf = 0, read_b = 0, write_b = 0,
     write_speed_avg = 0, write_speed_last = 0, read_speed_avg = 0, read_speed_last = 0\<rparr>"

definition blank_device :: "bool \<Rightarrow> bifrost_device" where
  "blank_device mb = \<lparr>regb = [], regb_dma = 0, membus = mb, handles = [], works = [],
     bstats = no_stats, dctl = None, tickets = 0, bus = [], live = [], signalled = [],
     saved_size = 0, saved_virt = None\<rparr>"

text \<open>A device on PCI whose six banks have 64 KiB, on a machine that is none of the platforms.\<close>

definition pci_device :: bifrost_device where
  "pci_device = snd (setup_io_regions_pci (\<lambda>_. 0x10000) (\<lambda>_. True) (blank_device False))"

definition membus_device :: bifrost_device where
  "membus_device = snd (setup_io_regions_membus (\<lambda>_. True) (blank_device True))"

definition demo_bio :: bio where
  "demo_bio = \<lparr>copy_in = True, copy_out = True, copy_in2 = True, kmalloc_ok = True, req_alloc = True,
     dma_alloc = Some 0xF000, map_single = 0x1F000, completion = 7, user_words = [5, 6, 7],
     user_half = [1, 2], left_out = 0\<rparr>"

abbreviation no_machine :: machine where "no_machine \<equiv> \<lambda>_. False"

lemma no_machine_fvd [simp]: "\<not> platform_fvd no_machine"
  by (simp add: platform_fvd_def platform_rocky_def platform_evander_def platform_eoco_def platform_ec702_def)

lemma less_6: "n < 6 \<longleftrightarrow> n \<in> {0, 1, 2, 3, 4, 5 :: nat}"
  by auto

lemma regb_pci_device:
  "n < 6 \<Longrightarrow> regb pci_device ! n = \<lparr>bar = n, enabled_bar = True, size_bar = 0x10000, io16 = False\<rparr>"
  by (simp add: pci_device_def setup_io_regions_pci_def map_device_memory_pci_def init_device_memory_pci_def Let_def)

lemma pci_device_allowed [simp]:
  "allowed no_machine pci_device b access off \<longleftrightarrow>
     b < 6 \<and> access AND (if b = 0 then 5 else 7) = access \<and> off < 0x10000"
proof (cases "b < 6")
  case True
  then have b: "unat b < 6" by (simp add: word_less_nat_alt)
  have z: "b = 0 \<longleftrightarrow> unat b = 0" by (simp add: unat_eq_zero)
  have r: "user_space_bar_access ! unat b = (if b = 0 then 5 else 7)"
    unfolding z using b by (auto simp: less_6 user_space_bar_access_def)
  have "\<not> membus pci_device" by (simp add: pci_device_def setup_io_regions_pci_def blank_device_def Let_def)
  then show ?thesis using True r by (simp add: allowed_def user_rights_def regb_pci_device [OF b])
qed (simp add: allowed_def)

section \<open>Confinement\<close>

text \<open>C23: User space is confined to its registers: whatever a register command is given, and
  whatever fails on the way, it changes nothing of the device but its command counter and
  the accesses the hardware sees, and every one of those accesses is the read of a register
  that the platform's table lets user space read, or the write of one it may write, in an
  enabled bank and at an offset below the size of the bank.\<close>

theorem register_commands_confined:
  assumes "register_command cmd"
  shows "\<exists>new. snd (bifrost_ioctl hw mach io now a cmd d) = (counted d)\<lparr>bus := bus d @ new\<rparr>
           \<and> (\<forall>x\<in>set new. \<exists>(b :: u32) off. b < 6 \<and> enabled_bar (regb d ! unat b) \<and> off < size_bar (regb d ! unat b)
                \<and> (RD_ACCESS AND user_rights mach d (unat b) = RD_ACCESS \<and> x = rd_access (regb d ! unat b) off
                   \<or> (\<exists>v. WR_ACCESS AND user_rights mach d (unat b) = WR_ACCESS
                          \<and> x = wr_access (regb d ! unat b) off v)))"
proof -
  have "extends mach (counted d) (snd (bifrost_ioctl hw mach io now a cmd d))"
    using assms by (cases cmd) (simp_all add: bifrost_ioctl_def counted_def [symmetric] ioctl_register_extends)
  then obtain new where "snd (bifrost_ioctl hw mach io now a cmd d) = (counted d)\<lparr>bus := bus d @ new\<rparr>"
      "\<forall>x\<in>set new. covered mach d x"
    by (auto simp: extends_def)
  moreover have "\<exists>(b :: u32) off. b < 6 \<and> enabled_bar (regb d ! unat b) \<and> off < size_bar (regb d ! unat b)
                \<and> (RD_ACCESS AND user_rights mach d (unat b) = RD_ACCESS \<and> x = rd_access (regb d ! unat b) off
                   \<or> (\<exists>v. WR_ACCESS AND user_rights mach d (unat b) = WR_ACCESS
                          \<and> x = wr_access (regb d ! unat b) off v))" if "covered mach d x" for x
    using that unfolding covered_def allowed_def by blast
  ultimately show ?thesis by (intro exI [of _ new]) simp
qed

theorem register_commands_confined_witness:
  "\<exists>new. bus (snd (bifrost_ioctl (\<lambda>_. 0) no_machine demo_bio 0 0 (WRITE_REGB 0 4 9) pci_device)) = [] @ new
     \<and> (\<forall>x\<in>set new. x \<noteq> Wr32 0 4 9)"
proof -
  have b: "bus pci_device = []" by (simp add: pci_device_def setup_io_regions_pci_def blank_device_def Let_def)
  have rights: "WR_ACCESS AND user_rights no_machine pci_device 0 \<noteq> WR_ACCESS"
    by (simp add: user_rights_def WR_ACCESS_def pci_device_def setup_io_regions_pci_def blank_device_def
        Let_def user_space_bar_access_def)
  obtain new where new: "snd (bifrost_ioctl (\<lambda>_. 0) no_machine demo_bio 0 0 (WRITE_REGB 0 4 9) pci_device)
        = (counted pci_device)\<lparr>bus := bus pci_device @ new\<rparr>"
      "\<forall>x\<in>set new. \<exists>(b :: u32) off. b < 6 \<and> enabled_bar (regb pci_device ! unat b) \<and> off < size_bar (regb pci_device ! unat b)
                \<and> (RD_ACCESS AND user_rights no_machine pci_device (unat b) = RD_ACCESS \<and> x = rd_access (regb pci_device ! unat b) off
                   \<or> (\<exists>v. WR_ACCESS AND user_rights no_machine pci_device (unat b) = WR_ACCESS
                          \<and> x = wr_access (regb pci_device ! unat b) off v))"
    using register_commands_confined [where cmd = "WRITE_REGB 0 4 9" and hw = "\<lambda>_. 0" and mach = no_machine
        and io = demo_bio and now = 0 and a = 0 and d = pci_device] by auto
  have "x \<noteq> Wr32 0 4 9" if x: "x \<in> set new" for x
  proof
    assume w: "x = Wr32 0 4 9"
    obtain b :: u32 and off where bo: "b < 6" "RD_ACCESS AND user_rights no_machine pci_device (unat b) = RD_ACCESS
          \<and> x = rd_access (regb pci_device ! unat b) off
        \<or> (\<exists>v. WR_ACCESS AND user_rights no_machine pci_device (unat b) = WR_ACCESS
             \<and> x = wr_access (regb pci_device ! unat b) off v)"
      using new(2) x by blast
    have "unat b < 6" using bo(1) by (simp add: word_less_nat_alt)
    then show False
      using bo(2) w rights by (auto simp: rd_access_def wr_access_def regb_pci_device)
  qed
  then show ?thesis using new(1) b by auto
qed

section \<open>Modifying a register\<close>

text \<open>MODIFY_REGB is one read followed by one write of the same register with the bits in
  \<open>clear\<close> cleared and then the bits in \<open>set\<close> set (a bit in both is set), and it returns the
  value it wrote; it needs both rights, and without them, or outside the bank, the hardware
  is not touched and the first reason, in the order bank number, mapping, rights, offset, is
  the error.\<close>

theorem MODIFY_REGB_correct:
  assumes "copy_in io" and "copy_out io"
  shows "bifrost_ioctl hw mach io now a (MODIFY_REGB b off clear setb) d =
     (if \<not> b < 6 then (Fail EINVAL, counted d)
      else if \<not> enabled_bar (bank_of d b) then (Fail EFAULT, counted d)
      else if (RD_ACCESS OR WR_ACCESS) AND user_rights mach d (unat b) \<noteq> RD_ACCESS OR WR_ACCESS
        then (Fail EACCES, counted d)
      else if \<not> off < size_bar (bank_of d b) then (Fail EFAULT, counted d)
      else let v = (reg_value hw (bank_of d b) off (bus d) AND NOT clear) OR setb
           in (Done (0, Words [v]), (counted d)\<lparr>bus := bus d @
                 [rd_access (bank_of d b) off, wr_access (bank_of d b) off v]\<rparr>))"
proof -
  have run: "bifrost_ioctl hw mach io now a (MODIFY_REGB b off clear setb) d
      = ioctl_modify hw mach io b off clear setb (counted d)"
    by (simp add: bifrost_ioctl_def counted_def)
  show ?thesis
  proof (cases "allowed mach d b (RD_ACCESS OR WR_ACCESS) off")
    case True
    then have "allowed mach (counted d) b (RD_ACCESS OR WR_ACCESS) off" by simp
    from do_modify_regb_allowed [OF this] True assms show ?thesis
      by (simp add: run ioctl_modify_def Let_def) (simp add: allowed_def)
  next
    case False
    then have c: "check_bar_access mach (counted d) b (RD_ACCESS OR WR_ACCESS) off \<noteq> Done ()"
      by (simp add: check_bar_access_iff)
    have u: "user_rights mach (counted d) n = user_rights mach d n" for n by (simp add: user_rights_def)
    show ?thesis
      using c assms False
      by (auto simp: run ioctl_modify_def do_modify_regb_def check_bar_access_def allowed_def u Let_def
          user_rights_def fail_as_def not_less not_le)
  qed
qed

theorem MODIFY_REGB_correct_witness:
  "fst (bifrost_ioctl (\<lambda>_. 0xFF) no_machine demo_bio 0 0 (MODIFY_REGB 1 8 0x0F 0x101) pci_device)
     = Done (0, Words [0x1F1])"
proof -
  have io: "copy_in demo_bio" "copy_out demo_bio" by (simp_all add: demo_bio_def)
  have "allowed no_machine pci_device 1 (RD_ACCESS OR WR_ACCESS) 8"
    by (simp add: RD_ACCESS_def WR_ACCESS_def)
  then have "(1 :: u32) < 6" "enabled_bar (bank_of pci_device 1)"
      "(RD_ACCESS OR WR_ACCESS) AND user_rights no_machine pci_device (unat (1 :: u32)) = RD_ACCESS OR WR_ACCESS"
      "8 < size_bar (bank_of pci_device 1)"
    unfolding allowed_def by blast+
  moreover have "reg_value (\<lambda>_. 0xFF) (bank_of pci_device 1) 8 (bus pci_device) = 0xFF"
    by (simp add: reg_value_def mem_rd_def regb_pci_device read_device_memory_def)
  ultimately show ?thesis
    using MODIFY_REGB_correct [OF io, where hw = "\<lambda>_. 0xFF" and mach = no_machine and now = 0 and a = 0
        and b = 1 and off = 8 and clear = "0x0F" and setb = "0x101" and d = pci_device]
    by (simp add: Let_def)
qed

section \<open>Ranges and repeats\<close>

text \<open>C24: READ_RANGE_REGB reads the registers at \<open>off\<close>, \<open>off + 4\<close>, \<open>off + 8\<close> and so on, once each and in that
  order, READ_REPEAT_REGB the register at \<open>off\<close> again and again, and the values are returned
  in the order of the reads, for every count below 2^30. From 2^30 on the size of the buffer,
  four times the count, wraps around in 32 bits: the buffer has count mod 2^30 words and the
  next register that may be read is stored behind its end.\<close>

theorem READ_RANGE_count:
  assumes "copy_in io" and "copy_out io" and "kmalloc_ok io"
    and "(cmd, incr) = (READ_RANGE_REGB b off cnt, 4) \<or> (cmd, incr) = (READ_REPEAT_REGB b off cnt, 0)"
    and "\<forall>k<unat cnt. k \<le> unat cnt mod 2 ^ 30 \<longrightarrow> allowed mach d b RD_ACCESS (off + of_nat k * incr)"
  shows "if unat cnt < 2 ^ 30
         then bifrost_ioctl hw mach io now a cmd d =
           (Done (0, Words (reg_values hw (bank_of d b) (offsets off incr 0 (unat cnt)) (bus d))),
            (counted d)\<lparr>bus := bus d @ map (rd_access (bank_of d b)) (offsets off incr 0 (unat cnt))\<rparr>)
         else fst (bifrost_ioctl hw mach io now a cmd d) = Crash Out_of_bounds"
proof -
  have run: "bifrost_ioctl hw mach io now a cmd d = ioctl_read_range hw mach io incr b off cnt (counted d)"
    using assms(4) by (auto simp: bifrost_ioctl_def counted_def)
  show ?thesis
  proof (cases "unat cnt < 2 ^ 30")
    case True
    then have m: "unat cnt mod 2 ^ 30 = unat cnt" by simp
    have al: "\<forall>o'\<in>set (offsets off incr 0 (unat cnt)). allowed mach (counted d) b RD_ACCESS o'"
      using assms(5) m by (auto simp: offsets_def)
    have sz: "unat (0 :: u32) + unat cnt \<le> unat (4 * cnt) div 4" using m words_of_bytes [of cnt] by simp
    show ?thesis
      using True read_regs_done [OF al sz, of hw "[]"] assms(1-3) by (simp add: run ioctl_read_range_def)
  next
    case False
    let ?k = "unat cnt mod 2 ^ 30"
    have k: "?k < unat cnt"
      using False mod_less_divisor [of "2 ^ 30" "unat cnt"] by (meson less_le_trans not_less zero_less_numeral zero_less_power)
    have al: "\<forall>o'\<in>set (offsets off incr 0 (Suc ?k)). allowed mach (counted d) b RD_ACCESS o'"
      using assms(5) k by (auto simp: offsets_def less_Suc_eq_le)
    have sz: "unat (0 :: u32) + ?k = unat (4 * cnt) div 4" using words_of_bytes [of cnt] by simp
    have "fst (read_regs hw mach b off incr (4 * cnt) (unat cnt) 0 [] (counted d)) = Crash Out_of_bounds"
      by (rule read_regs_crash [OF al sz k])
    then show ?thesis
      using False assms(1-3) by (auto simp: run ioctl_read_range_def fail_as_def split: prod.splits)
  qed
qed

theorem READ_RANGE_count_witness:
  "fst (bifrost_ioctl (\<lambda>tr. of_nat (length tr)) no_machine demo_bio 0 0 (READ_RANGE_REGB 2 0x10 3) pci_device)
       = Done (0, Words [1, 2, 3])
   \<and> fst (bifrost_ioctl (\<lambda>tr. 0) no_machine demo_bio 0 0 (READ_REPEAT_REGB 2 0x10 0x40000001) pci_device)
       = Crash Out_of_bounds"
proof (rule conjI)
  have io: "copy_in demo_bio" "copy_out demo_bio" "kmalloc_ok demo_bio" by (simp_all add: demo_bio_def)
  have al: "\<forall>k<unat (3 :: u32). k \<le> unat (3 :: u32) mod 2 ^ 30 \<longrightarrow>
      allowed no_machine pci_device 2 RD_ACCESS (0x10 + of_nat k * 4)"
  proof (intro allI impI)
    fix k assume "k < unat (3 :: u32)"
    then have "k = 0 \<or> k = 1 \<or> k = 2" by auto
    then show "allowed no_machine pci_device 2 RD_ACCESS (0x10 + of_nat k * 4)"
      by (auto simp: RD_ACCESS_def)
  qed
  have b: "bus pci_device = []" by (simp add: pci_device_def setup_io_regions_pci_def blank_device_def Let_def)
  have v: "reg_values (\<lambda>tr. of_nat (length tr)) (bank_of pci_device 2) (offsets 0x10 4 0 3) [] = [1, 2, 3]"
  proof -
    have o: "offsets 0x10 4 0 3 = [0x10, 0x14, 0x18]" by (simp add: offsets_def upt_rec)
    show ?thesis by (simp add: o reg_value_def mem_rd_def regb_pci_device read_device_memory_def)
  qed
  show "fst (bifrost_ioctl (\<lambda>tr. of_nat (length tr)) no_machine demo_bio 0 0 (READ_RANGE_REGB 2 0x10 3) pci_device)
       = Done (0, Words [1, 2, 3])"
    using READ_RANGE_count [OF io _ al, where cmd = "READ_RANGE_REGB 2 0x10 3" and hw = "\<lambda>tr. of_nat (length tr)"
        and now = 0 and a = 0] v b by simp
  have al': "\<forall>k<unat (0x40000001 :: u32). k \<le> unat (0x40000001 :: u32) mod 2 ^ 30 \<longrightarrow>
      allowed no_machine pci_device 2 RD_ACCESS (0x10 + of_nat k * 0)"
    by (simp add: RD_ACCESS_def)
  show "fst (bifrost_ioctl (\<lambda>tr. 0) no_machine demo_bio 0 0 (READ_REPEAT_REGB 2 0x10 0x40000001) pci_device)
       = Crash Out_of_bounds"
    using READ_RANGE_count [OF io _ al', where cmd = "READ_REPEAT_REGB 2 0x10 0x40000001" and hw = "\<lambda>tr. 0"
        and now = 0 and a = 0] by simp
qed

text \<open>WRITE_REPEAT_REGB writes the words of the user's buffer to the one register in their order,
  also when the buffer could not be read completely: a failed copy from user space is
  forgotten as soon as one word is written, the rest of the buffer is written as zeroes, and
  the command reports success. Counts from 2^30 on read behind the end of the buffer.\<close>

theorem WRITE_REPEAT_count:
  assumes "copy_in io" and "kmalloc_ok io" and "allowed mach d b WR_ACCESS off" and "0 < cnt"
    and "length (user_words io) = unat cnt mod 2 ^ 30"
  shows "if unat cnt < 2 ^ 30
         then bifrost_ioctl hw mach io now a (WRITE_REPEAT_REGB b off cnt) d =
           (Done (0, No_reply), (counted d)\<lparr>bus := bus d @ map (wr_access (bank_of d b) off) (user_words io)\<rparr>)
         else fst (bifrost_ioctl hw mach io now a (WRITE_REPEAT_REGB b off cnt) d) = Crash Out_of_bounds"
proof -
  have run: "bifrost_ioctl hw mach io now a (WRITE_REPEAT_REGB b off cnt) d
      = ioctl_write_repeat mach io b off cnt (counted d)"
    by (simp add: bifrost_ioctl_def counted_def)
  have al: "allowed mach (counted d) b WR_ACCESS off" using assms(3) by simp
  have nz: "cnt \<noteq> 0" using assms(4) by auto
  show ?thesis
  proof (cases "unat cnt < 2 ^ 30")
    case True
    then have m: "unat cnt mod 2 ^ 30 = unat cnt" by simp
    have sz: "unat (0 :: u32) + unat cnt \<le> unat (4 * cnt) div 4" using m words_of_bytes [of cnt] by simp
    have l: "unat (0 :: u32) + unat cnt \<le> length (user_words io)" using m assms(5) by simp
    show ?thesis
      using True write_regs_done [OF al sz l] assms(1,2,5) m nz by (simp add: run ioctl_write_repeat_def)
  next
    case False
    let ?k = "unat cnt mod 2 ^ 30"
    have k: "?k < unat cnt"
      using False mod_less_divisor [of "2 ^ 30" "unat cnt"] by (meson less_le_trans not_less zero_less_numeral zero_less_power)
    have sz: "unat (0 :: u32) + ?k = unat (4 * cnt) div 4" using words_of_bytes [of cnt] by simp
    have "fst (write_regs mach b off (4 * cnt) (unat cnt) 0 (user_words io) (counted d)) = Crash Out_of_bounds"
      by (rule write_regs_crash [OF al sz k])
    then show ?thesis
      using False assms(1,2) by (auto simp: run ioctl_write_repeat_def fail_as_def split: prod.splits)
  qed
qed

theorem WRITE_REPEAT_count_witness:
  "bifrost_ioctl (\<lambda>_. 0) no_machine (demo_bio\<lparr>copy_in2 := False, user_words := [5, 0]\<rparr>) 0 0 (WRITE_REPEAT_REGB 1 4 2) pci_device
     = (Done (0, No_reply), (counted pci_device)\<lparr>bus := [Wr32 1 4 5, Wr32 1 4 0]\<rparr>)"
proof -
  let ?io = "demo_bio\<lparr>copy_in2 := False, user_words := [5, 0]\<rparr>"
  have io: "copy_in ?io" "kmalloc_ok ?io" "length (user_words ?io) = unat (2 :: u32) mod 2 ^ 30"
    by (simp_all add: demo_bio_def)
  have al: "allowed no_machine pci_device 1 WR_ACCESS 4" by (simp add: WR_ACCESS_def)
  have b: "bus pci_device = []" by (simp add: pci_device_def setup_io_regions_pci_def blank_device_def Let_def)
  show ?thesis
    using WRITE_REPEAT_count [OF io(1,2) al _ io(3), where hw = "\<lambda>_. 0" and now = 0 and a = 0] b
    by (simp add: wr_access_def regb_pci_device)
qed

section \<open>The memory bus\<close>

text \<open>On the memory bus an offset counts registers, not bytes: the access goes to twice the offset.
  The check compares the offset itself with the 4096 bytes of the bank, so it lets user
  space read and write up to 4096 bytes behind the mapping: an access that is let through
  ends inside the mapping exactly for offsets below 0x800.\<close>

theorem membus_offset_beyond_mapping:
  assumes "membus d" and "\<not> platform_fvd mach" and "b < 2" and "off < 0x1000"
    and "iomap (unat b)"
  shows "\<exists>v d' x n. do_read_regb hw mach b off (snd (setup_io_regions_membus iomap d)) = (Done v, d')
           \<and> bus d' = bus d @ [x] \<and> access_span x = Some (unat b, n, 2)
           \<and> (n + 2 \<le> unat SZ_4K \<longleftrightarrow> off < 0x800)"
proof -
  let ?d = "snd (setup_io_regions_membus iomap d)"
  have b: "unat b = 0 \<or> unat b = 1" using assms(3) by (auto simp: word_less_nat_alt)
  have bank: "regb ?d ! unat b = \<lparr>bar = unat b, enabled_bar = True, size_bar = SZ_4K, io16 = True\<rparr>"
    using b assms(5)
    by (auto simp: setup_io_regions_membus_def map_device_memory_membus_def init_device_memory_membus_def
        SZ_4K_def Let_def)
  have mb: "membus ?d" "bus ?d = bus d"
    using assms(1) by (simp_all add: setup_io_regions_membus_def Let_def)
  have "b < 6" using assms(3) by (rule less_trans) simp
  then have al: "allowed mach ?d b RD_ACCESS off"
    using b bank mb assms(2,4)
    by (auto simp: allowed_def user_rights_def user_space_membus_access_def RD_ACCESS_def SZ_4K_def)
  have "unat off < 4096" using assms(4) by (simp add: word_less_nat_alt)
  then have "unat (push_bit 1 off) = 2 * unat off"
    by (simp add: push_bit_eq_mult unat_word_ariths mult.commute)
  then have "access_span (rd_access (regb ?d ! unat b) off) = Some (unat b, 2 * unat off, 2)"
    by (simp add: bank rd_access_def)
  moreover have "2 * unat off + 2 \<le> unat SZ_4K \<longleftrightarrow> off < 0x800"
    by (auto simp: SZ_4K_def word_less_nat_alt)
  ultimately show ?thesis
    using do_read_regb_allowed [OF al, of hw] mb by auto
qed

theorem membus_offset_beyond_mapping_witness:
  "\<exists>v d' x n. do_read_regb (\<lambda>_. 0) no_machine 1 0xFFF membus_device = (Done v, d')
     \<and> bus d' = [] @ [x] \<and> access_span x = Some (1, n, 2) \<and> \<not> n + 2 \<le> 4096"
proof -
  have "membus (blank_device True)" "bus (blank_device True) = []" by (simp_all add: blank_device_def)
  with membus_offset_beyond_mapping [where d = "blank_device True" and mach = no_machine and b = 1
      and off = "0xFFF" and iomap = "\<lambda>_. True" and hw = "\<lambda>_. 0"]
  show ?thesis by (auto simp: membus_device_def SZ_4K_def)
qed

end
