(* ===== verification/BifrostProps.thy ===== *)
theory BifrostProps
  imports BifrostSystem BifrostAccessProps
begin

text \<open>
  Properties of the bifrost driver as a whole: the setup of the DMA controller, the
  invariant of its runs, which events reach which reader and in which order, and transfers
  from the system call to the event that reports them.
\<close>

section \<open>Setting up the controller\<close>

text \<open>The setup of the DMA controller reads the number of channels from the capability register
  and the running ones from the status register, and yields a controller without transfers
  on which every channel is found by its own interrupt number, counted up from the first
  one, and is idle exactly when the hardware does not report it as running.\<close>

theorem bifrost_dma_init_channels:
  "\<exists>ctl mem cap status. bifrost_dma_init hw mach True irq0 d = (Done (), d\<lparr>regb_dma := dma_bank mach,
        bus := bus d @ [rd_access mem VALHALLA_ADDR_DMA_CAPABILITY, rd_access mem VALHALLA_ADDR_DMA_STATUS],
        dctl := Some ctl\<rparr>)
     \<and> mem = regb d ! dma_bank mach
     \<and> cap = reg_value hw mem VALHALLA_ADDR_DMA_CAPABILITY (bus d)
     \<and> status = reg_value hw mem VALHALLA_ADDR_DMA_STATUS (bus d @ [rd_access mem VALHALLA_ADDR_DMA_CAPABILITY])
     \<and> dma_inv ctl \<and> queue ctl = [] \<and> in_flight ctl = {#} \<and> num_ch ctl = cap AND 0xF
     \<and> (\<forall>c. c < unat (cap AND 0xF) \<longrightarrow> lookup_chan ctl (irq0 + int c) = Some c
           \<and> (bit (idle_bitmap ctl) c \<longleftrightarrow> \<not> bit status c))"
proof -
  let ?mem = "regb d ! dma_bank mach"
  let ?cap = "reg_value hw ?mem VALHALLA_ADDR_DMA_CAPABILITY (bus d)"
  let ?status = "reg_value hw ?mem VALHALLA_ADDR_DMA_STATUS (bus d @ [rd_access ?mem VALHALLA_ADDR_DMA_CAPABILITY])"
  let ?n = "?cap AND 0xF"
  let ?ctl = "fold (\<lambda>c. enable_dma_ch c (irq0 + int c)) [0..<unat ?n]
      (alloc_dma_ctl (uint ?n) (NOT ?status AND (push_bit (unat ?n) 1 - 1)))"
  note i = initial_ctl [where n = ?n and cap = ?cap and status = ?status and ctl = ?ctl, OF refl refl refl]
  have "lookup_chan ?ctl (irq0 + int c) = Some c" if "c < unat ?n" for c
    using lookup_chan_irq [OF i(1), of c] i(4,5) that by simp
  then show ?thesis
    using bifrost_dma_init_result [OF refl refl refl refl refl, where d = d and mach = mach and hw = hw and ?irq0.0 = irq0]
      i by (intro exI [of _ ?ctl] exI [of _ ?mem] exI [of _ ?cap] exI [of _ ?status]) simp
qed

theorem bifrost_dma_init_channels_witness:
  "\<exists>ctl. dctl (snd (bifrost_dma_init (\<lambda>_. 2) no_machine True 100 pci_device)) = Some ctl
     \<and> num_ch ctl = 2 \<and> lookup_chan ctl 101 = Some 1 \<and> bit (idle_bitmap ctl) 0 \<and> \<not> bit (idle_bitmap ctl) 1"
proof -
  have b: "regb pci_device ! dma_bank no_machine = \<lparr>bar = 0, enabled_bar = True, size_bar = 0x10000, io16 = False\<rparr>"
    by (simp add: dma_bank_def platform_rocky_def platform_evander_def platform_eoco_def platform_ec702_def regb_pci_device)
  have v: "reg_value (\<lambda>_. 2) \<lparr>bar = 0, enabled_bar = True, size_bar = 0x10000, io16 = False\<rparr> off tr = 2" for off tr
    by (simp add: reg_value_def mem_rd_def read_device_memory_def)
  obtain ctl where c: "dctl (snd (bifrost_dma_init (\<lambda>_. 2) no_machine True 100 pci_device)) = Some ctl" "num_ch ctl = 2"
      "\<forall>c. c < 2 \<longrightarrow> lookup_chan ctl (100 + int c) = Some c \<and> (bit (idle_bitmap ctl) c \<longleftrightarrow> \<not> bit (2 :: u32) c)"
    using bifrost_dma_init_channels [where hw = "\<lambda>_. 2" and mach = no_machine and ?irq0.0 = 100 and d = pci_device]
    unfolding b by (auto simp: v)
  have "lookup_chan ctl 101 = Some 1" "bit (idle_bitmap ctl) 0" "\<not> bit (idle_bitmap ctl) 1"
    using c(3) [rule_format, of 1] c(3) [rule_format, of 0] by (simp_all add: bit_2)
  then show ?thesis using c by blast
qed

text \<open>A channel that the hardware reports as running during the setup is lost: no run of
  submissions and interrupts ever starts a transfer on it or makes it idle.\<close>

theorem running_channel_is_lost:
  assumes "dma_run ctl0 subs fin ctl hw" and "dma_inv ctl0" and "c < 32"
    and "busy ctl0 c = None" and "\<not> bit (idle_bitmap ctl0) c"
  shows "c \<notin> fst ` set hw \<and> busy ctl c = None \<and> \<not> bit (idle_bitmap ctl) c"
  using assms
proof (induction rule: dma_run.induct)
  case (run_submit ctl0 subs fin ctl hw now req ctl' hw')
  have inv: "dma_inv ctl" using dma_run_inv run_submit by blast
  have IH: "c \<notin> fst ` set hw \<and> busy ctl c = None \<and> \<not> bit (idle_bitmap ctl) c" using run_submit by blast
  from inv run_submit.hyps(2) show ?case
  proof (cases rule: start_dma_xfer_cases)
    case (started k)
    have "k < length (ch ctl)" "length (ch ctl) = 32" using inv started(1) by (auto simp: dma_inv_def)
    moreover have "k \<noteq> c" using started(3) IH by auto
    ultimately show ?thesis using started IH assms(3) by (auto simp: bit_take_chan)
  qed (use IH in simp)
next
  case (run_irq ctl0 subs fin ctl hw now i stats info ctl' stats' hw')
  have inv: "dma_inv ctl" using dma_run_inv run_irq by blast
  have IH: "c \<notin> fst ` set hw \<and> busy ctl c = None \<and> \<not> bit (idle_bitmap ctl) c" using run_irq by blast
  from run_irq.hyps(2) show ?case
  proof (cases rule: dma_done_cases)
    case (finished k req)
    have k: "k < length (ch ctl)" "length (ch ctl) = 32"
      using inv lookup_chan_Some(1) [OF finished(1)] by (auto simp: dma_inv_def)
    have "k \<noteq> c" using finished(2) IH by auto
    then show ?thesis
      using finished(3) IH k assms(3)
      by (cases "queue ctl") (auto simp: next_xfer_def free_chan_def bit_free_chan)
  qed simp_all
next
  case (run_spurious ctl0 subs fin ctl hw now i stats err ctl' stats' hw')
  from run_spurious.hyps(2) show ?case
    by (cases rule: dma_done_cases) (use run_spurious in auto)
qed simp

theorem running_channel_is_lost_witness:
  "\<exists>ctl hw. dma_run demo_ctl [demo_req 1] [] ctl hw \<and> 0 \<notin> fst ` set hw \<and> hw \<noteq> []"
proof -
  obtain ctl1 hw1 where s1: "start_dma_xfer log_start 5 (demo_req 1) demo_ctl [] = (ctl1, hw1)" by fastforce
  have "dma_run demo_ctl ([] @ [demo_req 1]) [] ctl1 hw1" by (rule run_submit [OF run_start s1])
  then have r: "dma_run demo_ctl [demo_req 1] [] ctl1 hw1" by simp
  have i: "idle_bitmap demo_ctl = 2" "busy demo_ctl 0 = None"
    by (simp_all add: demo_ctl_def enable_dma_ch_def alloc_dma_ctl_def busy_def MAX_DMA_CHANNELS_def)
  have "hw1 \<noteq> []"
    using demo_ctl_inv(1) s1 by (cases rule: start_dma_xfer_cases) (simp_all add: i)
  moreover have "0 \<notin> fst ` set hw1"
    using running_channel_is_lost [OF r demo_ctl_inv(1), of 0] i by (simp add: bit_2)
  ultimately show ?thesis using r by blast
qed

section \<open>Every run\<close>

text \<open>C26: In every state the driver can reach by opening and closing files, by any command of an open
  file, by interrupts of the FPGA and the DMA engine and by the work queue, in any order,
  each open file has a handle of its own with at most 20 queued events and a counter that
  agrees with the queue, no DMA channel is both idle and in use, and requests wait only
  while no channel is idle.\<close>

theorem reachable_driver_states:
  assumes "dev_reach hw mach d"
  shows "distinct (map h_addr (handles d))
       \<and> (\<forall>h\<in>set (handles d). length (event_list h) \<le> 20 \<and> unat (event_list_count h) = length (event_list h))
       \<and> (\<forall>ctl. dctl d = Some ctl \<longrightarrow>
            (\<forall>c<32. bit (idle_bitmap ctl) c \<longrightarrow> busy ctl c = None)
            \<and> (queue ctl \<noteq> [] \<longrightarrow> idle_bitmap ctl = 0)
            \<and> (\<forall>c<32. busy ctl c \<noteq> None \<longrightarrow> lookup_chan ctl (irq (ch ctl ! c)) = Some c))"
proof -
  have inv: "dev_inv d" by (rule dev_reach_inv [OF assms])
  have "(\<forall>c<32. bit (idle_bitmap ctl) c \<longrightarrow> busy ctl c = None) \<and> (queue ctl \<noteq> [] \<longrightarrow> idle_bitmap ctl = 0)
      \<and> (\<forall>c<32. busy ctl c \<noteq> None \<longrightarrow> lookup_chan ctl (irq (ch ctl ! c)) = Some c)" if "dctl d = Some ctl" for ctl
  proof -
    have i: "dma_inv ctl" using inv that by (simp add: dev_inv_def)
    then show ?thesis using lookup_chan_irq [OF i] unfolding dma_inv_def by blast
  qed
  then show ?thesis using inv by (auto simp: dev_inv_def handle_ok_def BIFROST_EVENT_BUFFER_SIZE_def)
qed

text \<open>A run on the memory bus: two files are opened.\<close>

lemma demo_run:
  "\<exists>d. dev_reach (\<lambda>_. 0) no_machine d \<and> map h_addr (handles d) = [0xB0, 0xA0]"
proof -
  define d0 where "d0 = blank_device True"
  define d1 where "d1 = d0\<lparr>handles := [new_handle 0xA0]\<rparr>"
  define d2 where "d2 = d1\<lparr>handles := [new_handle 0xB0, new_handle 0xA0]\<rparr>"
  have h: "h_addr (new_handle a) = a" for a by (simp add: new_handle_def)
  have o: "dev_open (Some a) d = (Done a, d\<lparr>handles := new_handle a # handles d\<rparr>)" for a d
    by (simp add: dev_open_def bifrost_open_def)
  have r0: "dev_reach (\<lambda>_. 0) no_machine d0" by (rule reach_membus) (simp_all add: d0_def blank_device_def)
  have h0: "handles d0 = []" by (simp add: d0_def blank_device_def)
  have s1: "dev_open (Some 0xA0) d0 = (Done 0xA0, d1)" by (simp add: o d1_def h0)
  have s2: "dev_open (Some 0xB0) d1 = (Done 0xB0, d2)" by (simp add: o d2_def d1_def)
  have r1: "dev_reach (\<lambda>_. 0) no_machine d1"
    by (rule reach_next [OF r0 step_open [OF _ s1]]) (simp add: h0)
  have "dev_reach (\<lambda>_. 0) no_machine d2"
    by (rule reach_next [OF r1 step_open [OF _ s2]]) (simp add: d1_def h)
  moreover have "map h_addr (handles d2) = [0xB0, 0xA0]" by (simp add: d2_def h)
  ultimately show ?thesis by (intro exI [of _ d2] conjI)
qed

theorem reachable_driver_states_witness:
  "\<exists>d :: bifrost_device. map h_addr (handles d) = [0xB0, 0xA0] \<and> (\<forall>h\<in>set (handles d). length (event_list h) \<le> 20)"
proof -
  obtain d where d: "dev_reach (\<lambda>_. 0) no_machine d" "map h_addr (handles d) = [0xB0, 0xA0]"
    using demo_run by (elim exE conjE)
  show ?thesis using reachable_driver_states [OF d(1)] d(2) by (intro exI [of _ d]) simp
qed

section \<open>Events\<close>

text \<open>A handle wants an event; written out, without the order of the checks.\<close>

lemma enqueue_on_this_handle_iff:
  "enqueue_on_this_handle h e \<longleftrightarrow> ev_type e AND event_enable_mask h \<noteq> 0
     \<and> (ev_type e = BIFROST_EVENT_TYPE_IRQ \<longrightarrow> irq_forwarding_mask h AND irq_source e \<noteq> 0)
     \<and> (ev_type e = BIFROST_EVENT_TYPE_DMA_DONE \<longrightarrow> h_addr h = dma_cookie e)"
  by (auto simp: enqueue_on_this_handle_def BIFROST_EVENT_TYPE_IRQ_def BIFROST_EVENT_TYPE_DMA_DONE_def)

lemma received_update [simp]:
  "enqueue_on_this_handle h (e\<lparr>received := now\<rparr>) = enqueue_on_this_handle h e"
  by (simp add: enqueue_on_this_handle_def irq_source_def dma_cookie_def)

text \<open>An event reaches exactly the readers it is meant for: for every open file, its copy with
  the time of receipt is appended to the queue when the type is enabled, an interrupt's
  source is forwarded to it, a DMA completion carries its own handle as cookie, the copy can
  be allocated and fewer than 20 events wait; otherwise the queue stays as it was. No mask,
  no address and no order of the open files changes.\<close>

theorem bifrost_create_event_targets:
  assumes "\<forall>h\<in>set hs. handle_ok h"
  shows "length (bifrost_create_event alloc now e hs) = length hs
     \<and> (\<forall>i<length hs. let h = hs ! i; h' = bifrost_create_event alloc now e hs ! i in
          h_addr h' = h_addr h \<and> event_enable_mask h' = event_enable_mask h
          \<and> irq_forwarding_mask h' = irq_forwarding_mask h \<and> handle_ok h'
          \<and> event_list h' = event_list h @
              (if ev_type e AND event_enable_mask h \<noteq> 0
                  \<and> (ev_type e = BIFROST_EVENT_TYPE_IRQ \<longrightarrow> irq_forwarding_mask h AND irq_source e \<noteq> 0)
                  \<and> (ev_type e = BIFROST_EVENT_TYPE_DMA_DONE \<longrightarrow> h_addr h = dma_cookie e)
                  \<and> alloc (h_addr h) \<and> length (event_list h) < 20
               then [e\<lparr>received := now\<rparr>] else []))"
proof -
  let ?e = "e\<lparr>received := now\<rparr>"
  have "handle_ok (post_event a ?e h) \<and> event_list (post_event a ?e h) = event_list h @
      (if enqueue_on_this_handle h e \<and> a \<and> length (event_list h) < 20 then [?e] else [])"
    if "h \<in> set hs" for a h
    using post_event_items [of h a ?e] assms that by (simp add: BIFROST_EVENT_BUFFER_SIZE_def)
  then show ?thesis
    by (auto simp: bifrost_create_event_def Let_def enqueue_on_this_handle_iff)
qed

theorem bifrost_create_event_targets_witness:
  "let h = (new_handle 0xA0)\<lparr>event_enable_mask := 8\<rparr>;
       e = \<lparr>ev_type = 8, ev_data = [1, 0, 0, 0, 0xA0, 0], received = 0, forwarded = 0\<rparr>;
       hs = bifrost_create_event (\<lambda>_. True) 5 e [h, h\<lparr>h_addr := 0xB0\<rparr>]
   in map event_list hs = [[e\<lparr>received := 5\<rparr>], []]"
proof -
  let ?h = "(new_handle 0xA0)\<lparr>event_enable_mask := 8\<rparr>"
  let ?e = "\<lparr>ev_type = 8, ev_data = [1, 0, 0, 0, 0xA0, 0], received = 0, forwarded = 0\<rparr>"
  let ?hs = "[?h, ?h\<lparr>h_addr := 0xB0\<rparr>]"
  have "\<forall>h\<in>set ?hs. handle_ok h" by (simp add: new_handle_def handle_ok_def)
  from bifrost_create_event_targets [OF this, where alloc = "\<lambda>_. True" and now = 5 and e = ?e]
  have "length (bifrost_create_event (\<lambda>_. True) 5 ?e ?hs) = 2"
      "event_list (bifrost_create_event (\<lambda>_. True) 5 ?e ?hs ! 0) = [?e\<lparr>received := 5\<rparr>]"
      "event_list (bifrost_create_event (\<lambda>_. True) 5 ?e ?hs ! 1) = []"
    by (simp_all add: Let_def new_handle_def dma_cookie_def BIFROST_EVENT_TYPE_IRQ_def BIFROST_EVENT_TYPE_DMA_DONE_def)
  moreover have "map event_list xs = [event_list (xs ! 0), event_list (xs ! 1)]" if "length xs = 2" for xs :: "user_handle list"
    using that by (cases xs; cases "tl xs") auto
  ultimately show ?thesis by (simp add: Let_def)
qed

text \<open>The DEQUEUE_EVENT commands of one open file, \<open>n\<close> of them: the events they deliver until one
  of them fails, and the device after it.\<close>

fun dequeue_calls :: "hardware \<Rightarrow> machine \<Rightarrow> bio \<Rightarrow> int \<Rightarrow> u32 \<Rightarrow> nat \<Rightarrow> bifrost_device
    \<Rightarrow> event list \<times> bifrost_device" where
  "dequeue_calls hw mach io now a 0 d = ([], d)"
| "dequeue_calls hw mach io now a (Suc n) d =
     (case bifrost_ioctl hw mach io now a DEQUEUE_EVENT d of
        (Done (_, Event e), d') \<Rightarrow> (let (es, d'') = dequeue_calls hw mach io now a n d' in (e # es, d''))
      | (_, d') \<Rightarrow> ([], d'))"

lemma find_update_handle:
  "find_handle a (update_handle a f hs) = map_option f (find_handle a hs)"
  if "\<And>h. h_addr h = a \<Longrightarrow> h_addr (f h) = a"
  using that by (induction hs) (auto simp: find_handle_def update_handle_def)

lemma dequeue_event_addr: "dequeue_event h = Some (e, h') \<Longrightarrow> h_addr h' = h_addr h"
  by (auto simp: dequeue_event_def split: list.splits)

lemma dequeue_calls_events:
  assumes "find_handle a (handles d) = Some h" and "copy_out io"
  shows "fst (dequeue_calls hw mach io now a n d)
     = map (\<lambda>e. e\<lparr>forwarded := now\<rparr>) (fst (event_queue.get_n n h))"
  using assms
proof (induction n arbitrary: d h)
  case (Suc n)
  have f: "find_handle a (handles (counted d)) = Some h" using Suc.prems by (simp add: counted_def)
  have run: "bifrost_ioctl hw mach io now a DEQUEUE_EVENT d = ioctl_dequeue io now a (counted d)"
    by (simp add: bifrost_ioctl_def counted_def)
  have a: "h_addr h = a" using f by (auto simp: find_handle_def find_Some_iff)
  show ?case
  proof (cases "dequeue_event h")
    case None
    then show ?thesis using f by (simp add: run ioctl_dequeue_def)
  next
    case (Some p)
    obtain e h' where p: "p = (e, h')" by (cases p)
    let ?d = "on_handle a (\<lambda>_. h') (counted d)"
    have "h_addr h' = a" using Some p a dequeue_event_addr by simp
    then have "find_handle a (handles ?d) = Some h'"
      using f find_update_handle [of a "\<lambda>_. h'" "handles (counted d)"] by (simp add: on_handle_def)
    from Suc.IH [OF this Suc.prems(2)] show ?thesis
      using f Some p Suc.prems(2) by (auto simp: run ioctl_dequeue_def split: prod.splits)
  qed
qed simp

lemma fold_post_event:
  assumes "handle_ok h"
  shows "event_list (fold (\<lambda>e h. post_event True (e\<lparr>received := now\<rparr>) h) es h)
       = take 20 (event_list h @ map (\<lambda>e. e\<lparr>received := now\<rparr>) (filter (enqueue_on_this_handle h) es))
     \<and> handle_ok (fold (\<lambda>e h. post_event True (e\<lparr>received := now\<rparr>) h) es h)"
  using assms
proof (induction es arbitrary: h)
  case Nil
  then show ?case by (simp add: handle_ok_def BIFROST_EVENT_BUFFER_SIZE_def)
next
  case (Cons e es)
  let ?h = "post_event True (e\<lparr>received := now\<rparr>) h"
  have ok: "handle_ok ?h" by (rule post_event_items(1) [OF Cons.prems])
  have l: "event_list ?h = (if enqueue_on_this_handle h e \<and> length (event_list h) < 20
      then event_list h @ [e\<lparr>received := now\<rparr>] else event_list h)"
    using post_event_items(2) [OF Cons.prems, of True "e\<lparr>received := now\<rparr>"] by (simp add: BIFROST_EVENT_BUFFER_SIZE_def)
  have s: "enqueue_on_this_handle ?h = enqueue_on_this_handle h"
    by (simp add: fun_eq_iff enqueue_on_this_handle_def)
  have "length (event_list h) \<le> 20" using Cons.prems by (simp add: handle_ok_def BIFROST_EVENT_BUFFER_SIZE_def)
  then show ?case
    using Cons.IH [OF ok] l s by (auto simp: take_Cons')
qed

lemma dev_work_fold:
  assumes "works d = es" and "find_handle a (handles d) = Some h"
  shows "let d' = (dev_work (\<lambda>_. True) now ^^ length es) d in
     works d' = [] \<and> find_handle a (handles d')
       = Some (fold (\<lambda>e h. post_event True (e\<lparr>received := now\<rparr>) h) es h)"
  using assms
proof (induction es arbitrary: d h)
  case (Cons e es)
  let ?d = "dev_work (\<lambda>_. True) now d"
  have w: "works ?d = es" "handles ?d = bifrost_create_event (\<lambda>_. True) now e (handles d)"
    using Cons.prems(1) by (simp_all add: dev_work_def work_create_event_def)
  have "find_handle a (map (post_event True e') hs) = map_option (post_event True e') (find_handle a hs)" for e' hs
    by (induction hs) (simp_all add: find_handle_def)
  then have "find_handle a (handles ?d) = Some (post_event True (e\<lparr>received := now\<rparr>) h)"
    using Cons.prems(2) by (simp add: w bifrost_create_event_def Let_def)
  from Cons.IH [OF w(1) this] show ?case
    by (simp add: funpow_swap1)
qed simp

text \<open>C28: From the interrupt to the reader events keep their order, and a burst that a slow reader
  does not fetch loses its end, never its beginning: after the work queue has handled the
  events it holds, the DEQUEUE_EVENT commands of a file deliver, oldest first, the first 20 of
  those events that the file wants, stamped with the times of receipt and delivery.\<close>

theorem events_in_order:
  assumes "find_handle a (handles d) = Some h" and "handle_ok h" and "event_list h = []" and "copy_out io"
  shows "fst (dequeue_calls hw mach io t2 a n ((dev_work (\<lambda>_. True) t1 ^^ length (works d)) d))
       = map (\<lambda>e. e\<lparr>received := t1, forwarded := t2\<rparr>) (take n (take 20 (filter (enqueue_on_this_handle h) (works d))))"
proof -
  let ?d = "(dev_work (\<lambda>_. True) t1 ^^ length (works d)) d"
  let ?h = "fold (\<lambda>e h. post_event True (e\<lparr>received := t1\<rparr>) h) (works d) h"
  have f: "find_handle a (handles ?d) = Some ?h"
    using dev_work_fold [OF refl assms(1), of t1] by (simp add: Let_def)
  have q: "event_list ?h = take 20 (map (\<lambda>e. e\<lparr>received := t1\<rparr>) (filter (enqueue_on_this_handle h) (works d)))" "handle_ok ?h"
    using fold_post_event [OF assms(2)] assms(3) by simp_all
  have "fst (event_queue.get_n n ?h) = take n (event_list ?h)"
    using event_queue.get_n_items [OF q(2)] by simp
  then show ?thesis
    using dequeue_calls_events [OF f assms(4)] q(1) by (simp add: take_map)
qed

theorem events_in_order_witness:
  "let e = \<lparr>ev_type = 1, ev_data = [4, 0, 0, 0, 0, 0], received = 0, forwarded = 0\<rparr>;
       h = (new_handle 0xA0)\<lparr>event_enable_mask := 1, irq_forwarding_mask := 4\<rparr>;
       d = (blank_device False)\<lparr>handles := [h], works := [set_word 1 7 e, set_word 0 2 e, set_word 1 9 e]\<rparr>
   in fst (dequeue_calls (\<lambda>_. 0) no_machine demo_bio 6 0xA0 5 ((dev_work (\<lambda>_. True) 5 ^^ 3) d))
        = map (\<lambda>e. e\<lparr>received := 5, forwarded := 6\<rparr>) [set_word 1 7 e, set_word 1 9 e]"
proof -
  let ?e = "\<lparr>ev_type = 1, ev_data = [4, 0, 0, 0, 0, 0], received = 0, forwarded = 0\<rparr>"
  let ?h = "(new_handle 0xA0)\<lparr>event_enable_mask := 1, irq_forwarding_mask := 4\<rparr>"
  let ?d = "(blank_device False)\<lparr>handles := [?h], works := [set_word 1 7 ?e, set_word 0 2 ?e, set_word 1 9 ?e]\<rparr>"
  have h: "find_handle 0xA0 (handles ?d) = Some ?h" "handle_ok ?h" "event_list ?h = []" "copy_out demo_bio"
    by (simp_all add: find_handle_def new_handle_def handle_ok_def demo_bio_def)
  have w: "works ?d = [set_word 1 7 ?e, set_word 0 2 ?e, set_word 1 9 ?e]" by simp
  have f: "filter (enqueue_on_this_handle ?h) (works ?d) = [set_word 1 7 ?e, set_word 1 9 ?e]"
    by (simp add: enqueue_on_this_handle_def new_handle_def BIFROST_EVENT_TYPE_IRQ_def irq_source_def)
  show ?thesis
    using events_in_order [OF h, where n = 5 and hw = "\<lambda>_. 0" and mach = no_machine and ?t1.0 = 5 and ?t2.0 = 6]
    unfolding f Let_def by (simp del: funpow.simps add: numeral_3_eq_3)
qed

section \<open>A transfer from its start to its report\<close>

text \<open>The six register writes that start a channel.\<close>

definition start_writes :: "device_memory \<Rightarrow> nat \<Rightarrow> xfer \<Rightarrow> access list" where
  "start_writes mem c x = (case x of (s, t, l, r) \<Rightarrow>
     [wr_access mem VALHALLA_ADDR_DMA_CHAN (of_nat c), wr_access mem VALHALLA_ADDR_DMA_SRC_ADDR s,
      wr_access mem VALHALLA_ADDR_DMA_DEST_ADDR t, wr_access mem VALHALLA_ADDR_DMA_DIR_UP_STRM r,
      wr_access mem VALHALLA_ADDR_DMA_LEN_BYTES l, wr_access mem VALHALLA_ADDR_DMA_START 1])"

lemma run_mem_wr: "run_state (mem_wr mem off v) tr = ((), tr @ [wr_access mem off v])"
  using bank.wr_law [of mem off v tr] by (cases "run_state (mem_wr mem off v) tr") simp

lemma dev_start_xfer_writes:
  "kick_off_xfer (dev_start_xfer mem) c req tr = tr @ start_writes mem c (params req)"
  by (simp add: kick_off_xfer_def dev_start_xfer_def bifrost_dma_chan_start_def run_mem_wr start_writes_def params_def)

lemma dev_start_dma_idle:
  assumes ctl: "dctl d = Some ctl" and inv: "dma_inv ctl" and idle: "idle_bitmap ctl \<noteq> 0"
  obtains c ctl' where "c < unat (num_ch ctl)"
    and "dev_start_dma now req d = (Done (), d\<lparr>dctl := Some ctl', bus := bus d @ start_writes (regb d ! regb_dma d) c (params req)\<rparr>)"
    and "dma_inv ctl'" and "lookup_chan ctl' (irq (ch ctl ! c)) = Some c"
    and "busy ctl' c = Some (req\<lparr>ts := now\<rparr>)" and "queue ctl' = []"
proof -
  obtain ctl' tr' where run: "start_dma_xfer (dev_start_xfer (regb d ! regb_dma d)) now req ctl (bus d) = (ctl', tr')"
    by fastforce
  have inv': "dma_inv ctl'" by (rule start_dma_xfer_inv [OF inv run])
  from inv run show thesis
  proof (cases rule: start_dma_xfer_cases)
    case (started c)
    have c: "c < length (ch ctl)" using inv started(1) by (auto simp: dma_inv_def)
    have "num_ch ctl' = num_ch ctl" "irq (ch ctl' ! c) = irq (ch ctl ! c)" using started(6) c by simp_all
    then have "lookup_chan ctl' (irq (ch ctl ! c)) = Some c"
      using lookup_chan_irq [OF inv', of c] started(1) by simp
    then show thesis
      using started c run ctl inv' dev_start_xfer_writes
      by (intro that [of c ctl']) (simp_all add: dev_start_dma_def)
  qed (use idle in simp)
qed

lemma dma_msi_handler_last:
  assumes "dctl d = Some ctl" and "lookup_chan ctl i = Some c" and "busy ctl c = Some req" and "queue ctl = []"
    and "\<not> enabled (bstats d)"
  shows "dma_msi_handler now True junk i d =
     (if \<exists>w\<in>set_option (pwork req). w \<notin> set (live d) then (Crash Use_after_free, d)
      else (Done (), d\<lparr>dctl := Some (free_chan c (set_in_progress c None ctl)),
        signalled := (case pwork req of None \<Rightarrow> signalled d | Some w \<Rightarrow> w # signalled d),
        works := works d @ [\<lparr>ev_type = BIFROST_EVENT_TYPE_DMA_DONE,
           ev_data = junk[0 := ticket req, 2 := word_of_int (now - ts req),
             3 := word_of_int ((now - ts req) div 2 ^ 32), 4 := cookie req, 5 := 0],
           received = 0, forwarded = 0\<rparr>]\<rparr>))"
  using assms
  by (auto simp: dma_msi_handler_def dma_done_def get_xfer_time_ns_def busy_def next_xfer_def bifrost_create_event_in_atomic_def)

lemma sint_ticket: "0 \<le> sint ((x :: u32) AND 0x7fffffff)" "word_of_int (sint ((x :: u32) AND 0x7fffffff)) = x AND 0x7fffffff"
proof -
  have "(0x7fffffff :: u32) = mask 31" by (simp add: mask_eq_exp_minus_1)
  then have "\<not> bit (x AND 0x7fffffff) 31" by (simp add: bit_and_iff bit_mask_iff)
  then show "0 \<le> sint (x AND 0x7fffffff)" by (simp add: sint_uint signed_take_bit_nonnegative_iff bit_uint_iff)
  show "word_of_int (sint (x AND 0x7fffffff)) = x AND 0x7fffffff" by simp
qed

text \<open>The request of a transfer of the file \<open>a\<close>.\<close>

definition request_of :: "u32 \<Rightarrow> u32 \<Rightarrow> int \<Rightarrow> dma_transfer \<Rightarrow> nat option \<Rightarrow> dma_req" where
  "request_of counter a up_down x w =
     \<lparr>src = (if up_down = BIFROST_DMA_DIRECTION_DOWN then system x else device x),
      dst = (if up_down = BIFROST_DMA_DIRECTION_DOWN then device x else system x),
      len = xsize x,
      dir = (if up_down = BIFROST_DMA_DIRECTION_DOWN then VALHALLA_ADDR_DMA_DIR_UP_STRM_DOWN
             else VALHALLA_ADDR_DMA_DIR_UP_STRM_UP),
      ticket = (counter + 1) AND 0x7fffffff, cookie = a, ts = 0, pwork = w\<rparr>"

lemma prepare_dma_buffer_done:
  assumes "xsize x \<noteq> 0" and "dma_alloc io \<noteq> None" and "copy_in2 io" and "map_single io \<noteq> 0"
    and "up_down = BIFROST_DMA_DIRECTION_DOWN \<or> up_down = BIFROST_DMA_DIRECTION_UP"
  shows "\<exists>sz v. prepare_dma_buffer io up_down x d
      = (Done (x\<lparr>system := map_single io\<rparr>), d\<lparr>saved_size := sz, saved_virt := v\<rparr>)"
proof (cases "xsize x > saved_size d")
  case True
  then show ?thesis
    using assms by (intro exI [of _ "xsize x"] exI [of _ "dma_alloc io"]) (auto simp: prepare_dma_buffer_def Let_def)
next
  case False
  then show ?thesis
    using assms by (intro exI [of _ "saved_size d"] exI [of _ "saved_virt d"]) (auto simp: prepare_dma_buffer_def Let_def)
qed

lemma START_DMA_start:
  assumes "\<not> membus d" and "copy_in io" and "req_alloc io"
    and "up_down = BIFROST_DMA_DIRECTION_DOWN \<or> up_down = BIFROST_DMA_DIRECTION_UP"
  shows "bifrost_ioctl hw mach io now a (START_DMA False up_down x) d =
     (case dev_start_dma now (request_of (tickets d) a up_down x None) ((counted d)\<lparr>tickets := tickets d + 1\<rparr>) of
        (Crash f, d') \<Rightarrow> (Crash f, d') | (Fail e, d') \<Rightarrow> (Fail e, d')
      | (Done _, d') \<Rightarrow> (Done (sint (ticket (request_of (tickets d) a up_down x None)), No_reply), d'))"
    and "xsize x \<noteq> 0 \<Longrightarrow> dma_alloc io \<noteq> None \<Longrightarrow> copy_in2 io \<Longrightarrow> map_single io \<noteq> 0 \<Longrightarrow>
     \<exists>sz v. bifrost_ioctl hw mach io now a (START_DMA True up_down x) d =
     (case dev_start_dma now (request_of (tickets d) a up_down (x\<lparr>system := map_single io\<rparr>) (Some (completion io)))
          ((counted d)\<lparr>tickets := tickets d + 1, saved_size := sz, saved_virt := v, live := completion io # live d\<rparr>) of
        (Crash f, d') \<Rightarrow> (Crash f, d') | (Fail e, d') \<Rightarrow> (Fail e, d')
      | (Done _, d') \<Rightarrow> (Done (sint (ticket (request_of (tickets d) a up_down (x\<lparr>system := map_single io\<rparr>) (Some (completion io)))), Blocked (completion io)), d'))"
proof -
  let ?r0 = "\<lparr>src = 0, dst = 0, len = 0, dir = 0, ticket = (tickets d + 1) AND 0x7fffffff, cookie = a, ts = 0, pwork = None\<rparr>"
  let ?d = "(counted d)\<lparr>tickets := tickets d + 1\<rparr>"
  have dirs: "BIFROST_DMA_DIRECTION_UP \<noteq> BIFROST_DMA_DIRECTION_DOWN"
    by (simp add: BIFROST_DMA_DIRECTION_UP_def BIFROST_DMA_DIRECTION_DOWN_def)
  have rq: "dma_req_for up_down y (?r0\<lparr>pwork := w\<rparr>) = Some (request_of (tickets d) a up_down y w)" for y w
    using assms(4) dirs by (auto simp: dma_req_for_def request_of_def)
  have al: "alloc_dma_req (tickets (counted d)) a = (?r0, tickets d + 1)"
    by (simp add: alloc_dma_req_def get_ticket_def counted_def Let_def)
  have run: "bifrost_ioctl hw mach io now a (START_DMA user up_down x) d
      = do_dma_start_xfer io now x up_down a user (counted d)" for user
    using assms(1,2) by (simp add: bifrost_ioctl_def counted_def bifrost_do_xfer_def)
  show "bifrost_ioctl hw mach io now a (START_DMA False up_down x) d =
     (case dev_start_dma now (request_of (tickets d) a up_down x None) ((counted d)\<lparr>tickets := tickets d + 1\<rparr>) of
        (Crash f, d') \<Rightarrow> (Crash f, d') | (Fail e, d') \<Rightarrow> (Fail e, d')
      | (Done _, d') \<Rightarrow> (Done (sint (ticket (request_of (tickets d) a up_down x None)), No_reply), d'))"
    using rq [of x None] assms(3) by (simp add: run do_dma_start_xfer_def al)
  assume p: "xsize x \<noteq> 0" "dma_alloc io \<noteq> None" "copy_in2 io" "map_single io \<noteq> 0"
  obtain sz v where pr: "prepare_dma_buffer io up_down x ?d
      = (Done (x\<lparr>system := map_single io\<rparr>), ?d\<lparr>saved_size := sz, saved_virt := v\<rparr>)"
    using prepare_dma_buffer_done p assms(4) by blast
  have lv: "live (counted d) = live d" by (simp add: counted_def)
  show "\<exists>sz v. bifrost_ioctl hw mach io now a (START_DMA True up_down x) d =
     (case dev_start_dma now (request_of (tickets d) a up_down (x\<lparr>system := map_single io\<rparr>) (Some (completion io)))
          ((counted d)\<lparr>tickets := tickets d + 1, saved_size := sz, saved_virt := v, live := completion io # live d\<rparr>) of
        (Crash f, d') \<Rightarrow> (Crash f, d') | (Fail e, d') \<Rightarrow> (Fail e, d')
      | (Done _, d') \<Rightarrow> (Done (sint (ticket (request_of (tickets d) a up_down (x\<lparr>system := map_single io\<rparr>) (Some (completion io)))), Blocked (completion io)), d'))"
    using rq [of "x\<lparr>system := map_single io\<rparr>" "Some (completion io)"] assms(3) pr
    by (intro exI [of _ sz] exI [of _ v]) (simp add: run do_dma_start_xfer_def al lv)
qed

text \<open>C29: A transfer of physical memory is started by the call and reported to its starter: with an
  idle channel, the command returns a non-negative ticket after having programmed one
  channel with source, destination, direction and length, the start bit last; the interrupt
  of that channel then posts one event that carries the ticket and, as cookie, the file that
  started the transfer, and leaves the channel idle again.\<close>

theorem START_DMA_to_event:
  assumes "dctl d = Some ctl" and "dma_inv ctl" and "idle_bitmap ctl \<noteq> 0" and "\<not> membus d"
    and "\<not> enabled (bstats d)" and "copy_in io" and "req_alloc io" and "length junk = 6"
    and up: "up_down = BIFROST_DMA_DIRECTION_DOWN \<or> up_down = BIFROST_DMA_DIRECTION_UP"
  shows "\<exists>t c d1 d2 e ctl2.
     bifrost_ioctl hw mach io now a (START_DMA False up_down x) d = (Done (t, No_reply), d1)
     \<and> 0 \<le> t \<and> c < unat (num_ch ctl)
     \<and> bus d1 = bus d @ start_writes (regb d ! regb_dma d) c
         (if up_down = BIFROST_DMA_DIRECTION_DOWN then (system x, device x, xsize x, 0)
          else (device x, system x, xsize x, 1))
     \<and> dma_msi_handler t' True junk (irq (ch ctl ! c)) d1 = (Done (), d2)
     \<and> works d2 = works d @ [e] \<and> ev_type e = BIFROST_EVENT_TYPE_DMA_DONE
     \<and> ev_data e ! 0 = word_of_int t \<and> dma_cookie e = a
     \<and> dctl d2 = Some ctl2 \<and> bit (idle_bitmap ctl2) c \<and> busy ctl2 c = None"
proof -
  let ?r = "request_of (tickets d) a up_down x None"
  let ?d = "(counted d)\<lparr>tickets := tickets d + 1\<rparr>"
  have dd: "dctl ?d = Some ctl" "bus ?d = bus d" "regb ?d = regb d" "regb_dma ?d = regb_dma d" "works ?d = works d"
      "enabled (bstats ?d) = enabled (bstats d)"
    using assms(1) by (simp_all add: counted_def)
  obtain c ctl' where c: "c < unat (num_ch ctl)"
    and start: "dev_start_dma now ?r ?d
      = (Done (), ?d\<lparr>dctl := Some ctl', bus := bus d @ start_writes (regb d ! regb_dma d) c (params ?r)\<rparr>)"
    and ctl': "dma_inv ctl'" "lookup_chan ctl' (irq (ch ctl ! c)) = Some c" "busy ctl' c = Some (?r\<lparr>ts := now\<rparr>)"
      "queue ctl' = []"
    using dev_start_dma_idle [OF dd(1) assms(2,3), of now ?r] unfolding dd by blast
  let ?d1 = "?d\<lparr>dctl := Some ctl', bus := bus d @ start_writes (regb d ! regb_dma d) c (params ?r)\<rparr>"
  have call: "bifrost_ioctl hw mach io now a (START_DMA False up_down x) d = (Done (sint (ticket ?r), No_reply), ?d1)"
    unfolding START_DMA_start(1) [OF assms(4,6,7) up] start by simp
  have f1: "dctl ?d1 = Some ctl'" "works ?d1 = works d" "enabled (bstats ?d1) = enabled (bstats d)"
    using dd(5,6) by simp_all
  let ?e = "\<lparr>ev_type = BIFROST_EVENT_TYPE_DMA_DONE,
      ev_data = junk[0 := ticket (?r\<lparr>ts := now\<rparr>), 2 := word_of_int (t' - ts (?r\<lparr>ts := now\<rparr>)),
        3 := word_of_int ((t' - ts (?r\<lparr>ts := now\<rparr>)) div 2 ^ 32), 4 := cookie (?r\<lparr>ts := now\<rparr>), 5 := 0],
      received = 0, forwarded = 0\<rparr>"
  let ?ctl2 = "free_chan c (set_in_progress c None ctl')"
  have "pwork (?r\<lparr>ts := now\<rparr>) = None" by (simp add: request_of_def)
  then have int: "dma_msi_handler t' True junk (irq (ch ctl ! c)) ?d1
      = (Done (), ?d1\<lparr>dctl := Some ?ctl2, signalled := signalled ?d1, works := works d @ [?e]\<rparr>)"
    using dma_msi_handler_last [OF f1(1) ctl'(2,3,4), of t' junk] assms(5) f1(2,3) by simp
  have tk: "0 \<le> sint (ticket ?r)" "word_of_int (sint (ticket ?r)) = ticket ?r" "cookie ?r = a"
    using sint_ticket by (simp_all add: request_of_def)
  have p: "params ?r = (if up_down = BIFROST_DMA_DIRECTION_DOWN then (system x, device x, xsize x, 0)
      else (device x, system x, xsize x, 1))"
    by (simp add: params_def request_of_def VALHALLA_ADDR_DMA_DIR_UP_STRM_DOWN_def VALHALLA_ADDR_DMA_DIR_UP_STRM_UP_def)
  have cl: "c < length (ch ctl')" "c < 32"
    using lookup_chan_Some(1) [OF ctl'(2)] ctl'(1) by (auto simp: dma_inv_def)
  have fin: "bit (idle_bitmap ?ctl2) c" "busy ?ctl2 c = None"
    using cl by (simp_all add: free_chan_def bit_free_chan)
  have ev: "ev_data ?e ! 0 = ticket ?r" "dma_cookie ?e = a"
    using assms(8) tk(3) by (simp_all add: dma_cookie_def)
  show ?thesis
    using call c int tk p fin ev by (intro exI conjI) auto
qed

lemma demo_ctl_idle: "idle_bitmap demo_ctl \<noteq> 0" "num_ch demo_ctl = 2"
  by (simp_all add: demo_ctl_def enable_dma_ch_def alloc_dma_ctl_def MAX_DMA_CHANNELS_def)

text \<open>The device of the witnesses with the two-channel controller.\<close>

definition dma_device :: bifrost_device where
  "dma_device = pci_device\<lparr>dctl := Some demo_ctl, regb_dma := 2\<rparr>"

lemma dma_device_fields [simp]:
  "dctl dma_device = Some demo_ctl" "\<not> membus dma_device" "\<not> enabled (bstats dma_device)"
  "works dma_device = []" "live dma_device = []" "signalled dma_device = []"
  by (simp_all add: dma_device_def pci_device_def setup_io_regions_pci_def blank_device_def no_stats_def Let_def)

lemma demo_bio_ok [simp]:
  "copy_in demo_bio" "copy_out demo_bio" "copy_in2 demo_bio" "req_alloc demo_bio" "kmalloc_ok demo_bio"
  "completion demo_bio = 7" "dma_alloc demo_bio \<noteq> None" "map_single demo_bio \<noteq> 0"
  by (simp_all add: demo_bio_def)

theorem START_DMA_to_event_witness:
  "\<exists>t c d1 d2 e. bifrost_ioctl (\<lambda>_. 0) no_machine demo_bio 5 0xA0
       (START_DMA False 1 \<lparr>system = 0x1000, device = 0, xsize = 64\<rparr>) dma_device = (Done (t, No_reply), d1)
     \<and> dma_msi_handler 9 True [0, 0, 0, 0, 0, 0] (irq (ch demo_ctl ! c)) d1 = (Done (), d2)
     \<and> works d2 = [e] \<and> dma_cookie e = 0xA0"
proof -
  have "(1 :: int) = BIFROST_DMA_DIRECTION_DOWN \<or> 1 = BIFROST_DMA_DIRECTION_UP" "length [0, 0, 0, 0, 0, 0 :: u32] = 6"
    by (simp_all add: BIFROST_DMA_DIRECTION_DOWN_def)
  from START_DMA_to_event [OF dma_device_fields(1) demo_ctl_inv(1) demo_ctl_idle(1) dma_device_fields(2,3)
      demo_bio_ok(1,4) this(2,1), where hw = "\<lambda>_. 0" and mach = no_machine and now = 5 and a = "0xA0" and t' = 9
      and x = "\<lparr>system = 0x1000, device = 0, xsize = 64\<rparr>"]
  show ?thesis by (elim exE conjE) (intro exI conjI, assumption+, simp, assumption)
qed

text \<open>C33: A transfer from or to a user buffer blocks the caller, who waits for the completion on its
  own stack. When the interrupt comes first the caller is released and gets its ticket. When
  the second it waits at most passes first, it gets ETIMEDOUT, but the request stays on the
  channel with the address of the dead completion, and the interrupt that finishes the
  transfer later writes to it.\<close>

theorem user_transfer_races:
  assumes "dctl d = Some ctl" and "dma_inv ctl" and "idle_bitmap ctl \<noteq> 0" and "\<not> membus d"
    and "\<not> enabled (bstats d)" and "copy_in io" and "req_alloc io"
    and up: "up_down = BIFROST_DMA_DIRECTION_DOWN \<or> up_down = BIFROST_DMA_DIRECTION_UP"
    and buf: "xsize x \<noteq> 0" "dma_alloc io \<noteq> None" "copy_in2 io" "map_single io \<noteq> 0" "copy_out io"
    and fresh: "completion io \<notin> set (live d)" "completion io \<notin> set (signalled d)"
  shows "\<exists>t c d1. bifrost_ioctl hw mach io now a (START_DMA True up_down x) d
             = (Done (t, Blocked (completion io)), d1)
     \<and> c < unat (num_ch ctl)
     \<and> (\<exists>d2 d3. dma_msi_handler t' True junk (irq (ch ctl ! c)) d1 = (Done (), d2)
           \<and> finish_dma_buffer io up_down (completion io) t d2 = (Done t, d3))
     \<and> (\<exists>d2. finish_dma_buffer io up_down (completion io) t d1 = (Fail ETIMEDOUT, d2)
           \<and> fst (dma_msi_handler t' True junk (irq (ch ctl ! c)) d2) = Crash Use_after_free)"
proof -
  let ?w = "completion io"
  let ?r = "request_of (tickets d) a up_down (x\<lparr>system := map_single io\<rparr>) (Some ?w)"
  obtain sz v where call0: "bifrost_ioctl hw mach io now a (START_DMA True up_down x) d =
     (case dev_start_dma now ?r
          ((counted d)\<lparr>tickets := tickets d + 1, saved_size := sz, saved_virt := v, live := ?w # live d\<rparr>) of
        (Crash f, d') \<Rightarrow> (Crash f, d') | (Fail e, d') \<Rightarrow> (Fail e, d')
      | (Done _, d') \<Rightarrow> (Done (sint (ticket ?r), Blocked ?w), d'))"
    using START_DMA_start(2) [OF assms(4,6,7) up buf(1-4)] by blast
  let ?d = "(counted d)\<lparr>tickets := tickets d + 1, saved_size := sz, saved_virt := v, live := ?w # live d\<rparr>"
  have dd: "dctl ?d = Some ctl" using assms(1) by (simp add: counted_def)
  obtain c ctl' where c: "c < unat (num_ch ctl)"
    and start: "dev_start_dma now ?r ?d
      = (Done (), ?d\<lparr>dctl := Some ctl', bus := bus ?d @ start_writes (regb ?d ! regb_dma ?d) c (params ?r)\<rparr>)"
    and ctl': "dma_inv ctl'" "lookup_chan ctl' (irq (ch ctl ! c)) = Some c" "busy ctl' c = Some (?r\<lparr>ts := now\<rparr>)"
      "queue ctl' = []"
    using dev_start_dma_idle [OF dd assms(2,3), of now ?r] by blast
  let ?d1 = "?d\<lparr>dctl := Some ctl', bus := bus ?d @ start_writes (regb ?d ! regb_dma ?d) c (params ?r)\<rparr>"
  have call: "bifrost_ioctl hw mach io now a (START_DMA True up_down x) d = (Done (sint (ticket ?r), Blocked ?w), ?d1)"
    unfolding call0 start by simp
  have f1: "dctl ?d1 = Some ctl'" "live ?d1 = ?w # live d" "signalled ?d1 = signalled d" "\<not> enabled (bstats ?d1)"
    using assms(5) by (simp_all add: counted_def)
  have pw: "pwork (?r\<lparr>ts := now\<rparr>) = Some ?w" by (simp add: request_of_def)
  obtain d2 where int: "dma_msi_handler t' True junk (irq (ch ctl ! c)) ?d1 = (Done (), d2)" "signalled d2 = ?w # signalled d"
    using dma_msi_handler_last [OF f1(1) ctl'(2,3,4) f1(4), of t' junk] f1(2,3) pw by simp
  have first: "\<exists>d3. finish_dma_buffer io up_down ?w t d2 = (Done t, d3)" for t
    using int(2) buf(5) by (simp add: finish_dma_buffer_def Let_def)
  let ?d2 = "?d1\<lparr>live := removeAll ?w (live ?d1)\<rparr>"
  have late: "finish_dma_buffer io up_down ?w t ?d1 = (Fail ETIMEDOUT, ?d2)" for t
    using f1(3) fresh(2) by (simp add: finish_dma_buffer_def Let_def)
  have "dctl ?d2 = Some ctl'" "\<not> enabled (bstats ?d2)" "?w \<notin> set (live ?d2)"
    using f1 by simp_all
  then have dead: "fst (dma_msi_handler t' True junk (irq (ch ctl ! c)) ?d2) = Crash Use_after_free"
    using dma_msi_handler_last [OF _ ctl'(2,3,4), of ?d2 t' junk] pw by simp
  show ?thesis
    using call c int(1) first late dead by blast
qed

theorem user_transfer_races_witness:
  "\<exists>t c d1 d2. bifrost_ioctl (\<lambda>_. 0) no_machine demo_bio 5 0xA0
       (START_DMA True 0 \<lparr>system = 0x1000, device = 0, xsize = 64\<rparr>) dma_device = (Done (t, Blocked 7), d1)
     \<and> finish_dma_buffer demo_bio 0 7 t d1 = (Fail ETIMEDOUT, d2)
     \<and> fst (dma_msi_handler 9 True [0, 0, 0, 0, 0, 0] (irq (ch demo_ctl ! c)) d2) = Crash Use_after_free"
  using user_transfer_races [where d = dma_device and ctl = demo_ctl and hw = "\<lambda>_. 0" and mach = no_machine
      and io = demo_bio and now = 5 and a = "0xA0" and up_down = 0 and junk = "[0, 0, 0, 0, 0, 0]" and t' = 9
      and x = "\<lparr>system = 0x1000, device = 0, xsize = 64\<rparr>"]
    demo_ctl_inv(1) demo_ctl_idle(1)
  by (auto simp: BIFROST_DMA_DIRECTION_UP_def)

end
