(* ===== verification/BifrostIrqProps.thy ===== *)
theory BifrostIrqProps
  imports BifrostIrq
begin

text \<open>
  What the interrupt services of the memory bus post, and how the SDRAM address and the
  data reach the FPGA.
\<close>

section \<open>HostIntr 1\<close>

lemma ev_type_set_time [simp]: "ev_type (set_time now e) = ev_type e"
  by (simp add: set_time_def)

lemma ev_data_set_time [simp]:
  "ev_data (set_time now e)
     = (ev_data e)[3 := word_of_int (now div 1000000000), 4 := word_of_int (now mod 1000000000)]"
  by (simp add: set_time_def)

lemma ev_type_irq_event [simp]: "ev_type (irq_event s e) = BIFROST_EVENT_TYPE_IRQ"
  by (simp add: irq_event_def)

lemma ev_data_irq_event [simp]: "ev_data (irq_event s e) = (ev_data e)[0 := s]"
  by (simp add: irq_event_def)

lemma ev_data_zero_event [simp]: "ev_data zero_event = [0, 0, 0, 0, 0, 0]"
  by (simp add: zero_event_def numeral_eq_Suc)

text \<open>What a block of the service does: nothing without its bit; with it, it posts its one
  event, which keeps the words of the union it does not set.\<close>

definition irq1_block :: "u32 \<Rightarrow> u32 \<Rightarrow> bool \<Rightarrow> u32 \<Rightarrow> event \<Rightarrow> event isr \<Rightarrow> bool" where
  "irq1_block bits source ok hit e prog \<longleftrightarrow>
     (\<forall>tr ws. \<exists>e' tr'. run_state prog (tr, ws)
          = (e', (tr', ws @ (if hit AND bits \<noteq> 0 \<and> ok then [e'] else [])))
        \<and> (hit AND bits = 0 \<longrightarrow> e' = e)
        \<and> (hit AND bits \<noteq> 0 \<longrightarrow> irq_source e' = source \<and> ev_type e' = BIFROST_EVENT_TYPE_IRQ)
        \<and> length (ev_data e') = 6)"

lemma irq1_blocks:
  assumes "length (ev_data e) = 6"
  shows "irq1_block 0x10 0x40 ok hit e (irq1_execute ok hit e)"
    and "irq1_block 0x20 0x02 ok hit e (irq1_bob ok hit e)"
    and "irq1_block 0x100 0x04 ok hit e (irq1_jpegls hw ok now hit e)"
    and "irq1_block 0x200 0x08 ok hit e (irq1_dio hw ok hit e)"
    and "irq1_block 0x400 0x10 ok hit e (irq1_cable hw ok hit e)"
  using assms
  by (auto simp: irq1_block_def irq1_execute_def irq1_bob_def irq1_jpegls_def irq1_dio_def
      irq1_cable_def irq_source_def Let_def)

definition irq1_sources :: "(nat \<Rightarrow> bool) \<Rightarrow> u32 \<Rightarrow> u32 list" where
  "irq1_sources ok hit =
     (if hit AND 0x10 \<noteq> 0 \<and> ok 0 then [0x40] else [])
     @ (if hit AND 0x20 \<noteq> 0 \<and> ok 1 then [0x02] else [])
     @ (if hit AND 0x100 \<noteq> 0 \<and> ok 2 then [0x04] else [])
     @ (if hit AND 0x200 \<noteq> 0 \<and> ok 3 then [0x08] else [])
     @ (if hit AND 0x400 \<noteq> 0 \<and> ok 4 then [0x10] else [])"

text \<open>C22: The service of HostIntr 1 posts one interrupt event for each cause that is both pending in
  the vector register and enabled in the mask register, in the fixed order execute, BOB,
  JPEGLS, digital IO, cable, with the source number of that cause and nothing else; an
  event for which there is no memory is dropped without disturbing the others.\<close>

theorem FVDIRQ1Service_events:
  "\<exists>tr' es. run_state (FVDIRQ1Service hw ok now) (tr, ws) = ((), (tr', ws @ es))
     \<and> (\<forall>e\<in>set es. ev_type e = BIFROST_EVENT_TYPE_IRQ)
     \<and> map irq_source es = irq1_sources ok
         ((ucast (ucast (hw (tr @ [Rd16 0 0x70])) :: u16) AND
           ucast (ucast (hw (tr @ [Rd16 0 0x70, Rd16 0 0x6E])) :: u16)))"
proof -
  let ?hit = "(ucast (ucast (hw (tr @ [Rd16 0 0x70])) :: u16) AND
           ucast (ucast (hw (tr @ [Rd16 0 0x70, Rd16 0 0x6E])) :: u16)) :: u32"
  let ?t0 = "tr @ [Rd16 0 0x70, Rd16 0 0x6E]"
  have z: "length (ev_data zero_event) = 6" by simp
  obtain e1 t1 where 1: "run_state (irq1_execute (ok 0) ?hit zero_event) (?t0, ws)
        = (e1, (t1, ws @ (if ?hit AND 0x10 \<noteq> 0 \<and> ok 0 then [e1] else [])))"
      "?hit AND 0x10 \<noteq> 0 \<longrightarrow> irq_source e1 = 0x40 \<and> ev_type e1 = BIFROST_EVENT_TYPE_IRQ" "length (ev_data e1) = 6"
    using irq1_blocks(1) [OF z] unfolding irq1_block_def by blast
  let ?w1 = "ws @ (if ?hit AND 0x10 \<noteq> 0 \<and> ok 0 then [e1] else [])"
  obtain e2 t2 where 2: "run_state (irq1_bob (ok 1) ?hit e1) (t1, ?w1)
        = (e2, (t2, ?w1 @ (if ?hit AND 0x20 \<noteq> 0 \<and> ok 1 then [e2] else [])))"
      "?hit AND 0x20 \<noteq> 0 \<longrightarrow> irq_source e2 = 0x02 \<and> ev_type e2 = BIFROST_EVENT_TYPE_IRQ" "length (ev_data e2) = 6"
    using irq1_blocks(2) [OF 1(3)] unfolding irq1_block_def by blast
  let ?w2 = "?w1 @ (if ?hit AND 0x20 \<noteq> 0 \<and> ok 1 then [e2] else [])"
  obtain e3 t3 where 3: "run_state (irq1_jpegls hw (ok 2) now ?hit e2) (t2, ?w2)
        = (e3, (t3, ?w2 @ (if ?hit AND 0x100 \<noteq> 0 \<and> ok 2 then [e3] else [])))"
      "?hit AND 0x100 \<noteq> 0 \<longrightarrow> irq_source e3 = 0x04 \<and> ev_type e3 = BIFROST_EVENT_TYPE_IRQ" "length (ev_data e3) = 6"
    using irq1_blocks(3) [OF 2(3)] unfolding irq1_block_def by blast
  let ?w3 = "?w2 @ (if ?hit AND 0x100 \<noteq> 0 \<and> ok 2 then [e3] else [])"
  obtain e4 t4 where 4: "run_state (irq1_dio hw (ok 3) ?hit e3) (t3, ?w3)
        = (e4, (t4, ?w3 @ (if ?hit AND 0x200 \<noteq> 0 \<and> ok 3 then [e4] else [])))"
      "?hit AND 0x200 \<noteq> 0 \<longrightarrow> irq_source e4 = 0x08 \<and> ev_type e4 = BIFROST_EVENT_TYPE_IRQ" "length (ev_data e4) = 6"
    using irq1_blocks(4) [OF 3(3)] unfolding irq1_block_def by blast
  let ?w4 = "?w3 @ (if ?hit AND 0x200 \<noteq> 0 \<and> ok 3 then [e4] else [])"
  obtain e5 t5 where 5: "run_state (irq1_cable hw (ok 4) ?hit e4) (t4, ?w4)
        = (e5, (t5, ?w4 @ (if ?hit AND 0x400 \<noteq> 0 \<and> ok 4 then [e5] else [])))"
      "?hit AND 0x400 \<noteq> 0 \<longrightarrow> irq_source e5 = 0x10 \<and> ev_type e5 = BIFROST_EVENT_TYPE_IRQ" "length (ev_data e5) = 6"
    using irq1_blocks(5) [OF 4(3)] unfolding irq1_block_def by blast
  let ?es = "(if ?hit AND 0x10 \<noteq> 0 \<and> ok 0 then [e1] else [])
    @ (if ?hit AND 0x20 \<noteq> 0 \<and> ok 1 then [e2] else [])
    @ (if ?hit AND 0x100 \<noteq> 0 \<and> ok 2 then [e3] else [])
    @ (if ?hit AND 0x200 \<noteq> 0 \<and> ok 3 then [e4] else [])
    @ (if ?hit AND 0x400 \<noteq> 0 \<and> ok 4 then [e5] else [])"
  have "run_state (FVDIRQ1Service hw ok now) (tr, ws) = ((), (t5, ws @ ?es))"
    using 1(1) 2(1) 3(1) 4(1) 5(1) by (simp add: FVDIRQ1Service_def Let_def del: if_split)
  moreover have "\<forall>e\<in>set ?es. ev_type e = BIFROST_EVENT_TYPE_IRQ"
    using 1(2) 2(2) 3(2) 4(2) 5(2) by auto
  moreover have "map irq_source ?es = irq1_sources ok ?hit"
    using 1(2) 2(2) 3(2) 4(2) 5(2) by (simp add: irq1_sources_def)
  ultimately show ?thesis by blast
qed

theorem FVDIRQ1Service_events_witness:
  "\<exists>tr' es. run_state (FVDIRQ1Service (\<lambda>_. 0x30) (\<lambda>k. k \<noteq> 0) 5) ([], []) = ((), (tr', es))
     \<and> map irq_source es = [0x02] \<and> (\<forall>e\<in>set es. ev_type e = 1)"
  using FVDIRQ1Service_events [where hw = "\<lambda>_. 0x30" and ok = "\<lambda>k. k \<noteq> 0" and now = 5 and tr = "[]" and ws = "[]"]
  by (auto simp: irq1_sources_def BIFROST_EVENT_TYPE_IRQ_def)

section \<open>HostIntr 2\<close>

lemma bit_0xF: "bit (0xF :: u32) n \<longleftrightarrow> n < 4"
proof -
  have m: "(0xF :: u32) = mask 4" by (simp add: mask_eq_exp_minus_1)
  show ?thesis unfolding m by (auto simp: bit_mask_iff possible_bit_word)
qed

lemma and_0x100: "(x :: u32) AND 0x100 \<noteq> 0 \<longleftrightarrow> bit x 8"
  using bit_iff_and_push_bit_not_eq_0 [of x 8] by (simp add: push_bit_of_1)

lemma and_0x1: "(x :: u32) AND 0x1 \<noteq> 0 \<longleftrightarrow> bit x 0"
  using bit_iff_and_push_bit_not_eq_0 [of x 0] by simp

lemma bit_flag: "bit (if P then 2 ^ k else 0 :: u32) n \<longleftrightarrow> P \<and> n = k \<and> k < 32"
  by (auto simp: bit_exp_iff possible_bit_word)

lemma ec501_frame_no_bit:
  assumes "n < 32"
  shows "bit (ec501_frame_no bufNo hd1 hd2 hd3 hd5 frameCnt) n \<longleftrightarrow>
     (if n < 4 then bit bufNo n
      else if n = 4 then bit hd5 0 else if n = 5 then bit hd5 8
      else if n = 6 then bit hd1 0 else if n = 7 then bit hd1 8
      else if n < 12 then bit hd2 n
      else if n < 16 then bit hd3 (n - 4)
      else bit frameCnt (n - 16))"
proof -
  have flags: "ec501_frame_no bufNo hd1 hd2 hd3 hd5 frameCnt =
     (bufNo AND 0xF)
     OR (if bit hd5 0 then 2 ^ 4 else 0) OR (if bit hd5 8 then 2 ^ 5 else 0)
     OR (if bit hd1 0 then 2 ^ 6 else 0) OR (if bit hd1 8 then 2 ^ 7 else 0)
     OR (hd2 AND push_bit 8 0xF)
     OR push_bit 12 (drop_bit 8 hd3 AND 0xF)
     OR push_bit 16 frameCnt"
    by (simp only: ec501_frame_no_def and_0x100 and_0x1) simp
  have eq: "bit (ec501_frame_no bufNo hd1 hd2 hd3 hd5 frameCnt) n \<longleftrightarrow>
      bit bufNo n \<and> n < 4 \<or> bit hd5 0 \<and> n = 4 \<or> bit hd5 8 \<and> n = 5 \<or> bit hd1 0 \<and> n = 6 \<or> bit hd1 8 \<and> n = 7
      \<or> bit hd2 n \<and> 8 \<le> n \<and> n - 8 < 4 \<or> 12 \<le> n \<and> bit hd3 (8 + (n - 12)) \<and> n - 12 < 4
      \<or> 16 \<le> n \<and> bit frameCnt (n - 16)"
    unfolding flags
    by (simp only: bit_or_iff bit_and_iff bit_flag bit_push_bit_iff bit_drop_bit_eq bit_0xF
        comp_apply possible_bit_word) (use assms in simp)
  consider "n < 4" | "n = 4" | "n = 5" | "n = 6" | "n = 7" | "8 \<le> n" "n < 12" | "12 \<le> n" "n < 16" | "16 \<le> n"
    by linarith
  then show ?thesis
  proof cases
    case 7
    then have "8 + (n - 12) = n - 4" by simp
    with 7 show ?thesis unfolding eq by auto
  qed (unfold eq, auto)
qed

text \<open>The frame number word the EC501 interrupt delivers packs its sources bit by bit: the buffer
  number in bits 0 to 3, the line and trigger states in bits 4 to 7, in bits 8 to 11 the
  bits 8 to 11 of the second header word (which are also the low bits of the first line
  stamp), in bits 12 to 15 the bits 8 to 11 of the third one, and the frame counter above.\<close>

theorem FVDIRQ2Service_ec501_layout:
  assumes cam: "(ucast (ucast (hw (tr @ [Rd16 0 0x46])) :: u16) :: u32) \<in> {0x19, 0x1F}" and n: "n < 32"
  shows "\<exists>tr' e bufNo hd1 hd2 hd3 hd4 hd5 frameCnt.
     run_state (FVDIRQ2Service hw (\<lambda>_. True) now) (tr, ws) = ((), (tr', ws @ [e]))
     \<and> tr' = tr @ map (Rd16 0) [0x46, 0x172, 0x29C, 0x29E, 0x2A0, 0x2A2, 0x2A4, 0x2A6]
     \<and> [bufNo, hd1, hd2, hd3, hd4, hd5, frameCnt]
         = map (\<lambda>k. ucast (ucast (hw (tr @ map (Rd16 0) (take (k + 2)
               [0x46, 0x172, 0x29C, 0x29E, 0x2A0, 0x2A2, 0x2A4, 0x2A6]))) :: u16)) [0..<7]
     \<and> irq_source e = 0x20
     \<and> bit (ev_data e ! 1) n =
         (if n < 4 then bit bufNo n
          else if n = 4 then bit hd5 0 else if n = 5 then bit hd5 8
          else if n = 6 then bit hd1 0 else if n = 7 then bit hd1 8
          else if n < 12 then bit hd2 n
          else if n < 16 then bit hd3 (n - 4)
          else bit frameCnt (n - 16))
     \<and> ev_data e ! 2 = ec501_line_stamps hd2 hd3 hd4"
proof -
  let ?A = "[0x46, 0x172, 0x29C, 0x29E, 0x2A0, 0x2A2, 0x2A4, 0x2A6] :: u32 list"
  let ?v = "\<lambda>k. ucast (ucast (hw (tr @ map (Rd16 0) (take (k + 2) ?A))) :: u16) :: u32"
  let ?e = "set_time now (irq_event 0x20 (set_word 2 (ec501_line_stamps (?v 2) (?v 3) (?v 4))
      (set_word 1 (ec501_frame_no (?v 0) (?v 1) (?v 2) (?v 3) (?v 5) (?v 6)) zero_event)))"
  have idx: "[0..<7] = [0, 1, 2, 3, 4, 5, 6 :: nat]" by (simp add: upt_rec)
  have "run_state (FVDIRQ2Service hw (\<lambda>_. True) now) (tr, ws)
      = ((), (tr @ map (Rd16 0) ?A, ws @ [?e]))"
    using cam by (auto simp: FVDIRQ2Service_def)
  moreover have "map ?v [0..<7] = [?v 0, ?v 1, ?v 2, ?v 3, ?v 4, ?v 5, ?v 6]" by (simp add: idx)
  moreover have "irq_source ?e = 0x20" "ev_data ?e ! 2 = ec501_line_stamps (?v 2) (?v 3) (?v 4)"
      "ev_data ?e ! 1 = ec501_frame_no (?v 0) (?v 1) (?v 2) (?v 3) (?v 5) (?v 6)"
    by (simp_all add: irq_source_def)
  ultimately show ?thesis using ec501_frame_no_bit [OF n] by (intro exI conjI) auto
qed

theorem FVDIRQ2Service_ec501_layout_witness:
  "\<exists>tr' e. run_state (FVDIRQ2Service (\<lambda>_. 0x19) (\<lambda>_. True) 5) ([], []) = ((), (tr', [e]))
     \<and> bit (ev_data e ! 1) 19 \<and> \<not> bit (ev_data e ! 1) 9"
proof -
  have cam: "(ucast (ucast ((\<lambda>_. 0x19 :: u32) ([] @ [Rd16 0 0x46])) :: u16) :: u32) \<in> {0x19, 0x1F}" by simp
  have "\<exists>tr' e. run_state (FVDIRQ2Service (\<lambda>_. 0x19) (\<lambda>_. True) 5) ([], []) = ((), (tr', [] @ [e]))
      \<and> bit (ev_data e ! 1) 19"
    using FVDIRQ2Service_ec501_layout [where hw = "\<lambda>_. 0x19" and tr = "[]" and n = 19 and now = 5 and ws = "[]", OF cam]
    by (auto simp: upt_rec)
  moreover have "\<exists>tr' e. run_state (FVDIRQ2Service (\<lambda>_. 0x19) (\<lambda>_. True) 5) ([], []) = ((), (tr', [] @ [e]))
      \<and> \<not> bit (ev_data e ! 1) 9"
    using FVDIRQ2Service_ec501_layout [where hw = "\<lambda>_. 0x19" and tr = "[]" and n = 9 and now = 5 and ws = "[]", OF cam]
    by (auto simp: upt_rec)
  ultimately show ?thesis by auto
qed

section \<open>The SDRAM and the DMA engine\<close>

lemma run_iowrite16_rep: "run_state (iowrite16_rep b ws) tr = ((), tr @ map (Wr16 b 0) ws)"
  by (induction ws arbitrary: tr) simp_all

lemma run_ioread16_rep:
  "run_state (ioread16_rep hw b n) tr =
     (map (\<lambda>k. ucast (hw (tr @ replicate (Suc k) (Rd16 b 0)))) [0..<n], tr @ replicate n (Rd16 b 0))"
proof (induction n arbitrary: tr)
  case (Suc n)
  have "map (\<lambda>k. ucast (hw (tr @ replicate (Suc k) (Rd16 b 0))) :: u16) [0..<Suc n]
      = ucast (hw (tr @ [Rd16 b 0])) # map (\<lambda>k. ucast (hw ((tr @ [Rd16 b 0]) @ replicate (Suc k) (Rd16 b 0)))) [0..<n]"
    by (simp add: upt_conv_Cons map_Suc_upt [symmetric] del: upt_Suc)
  with Suc [of "tr @ [Rd16 b 0]"] show ?case by (simp del: upt_Suc)
qed simp

text \<open>What the FPGA has in its SDRAM address registers: the last words written to register 0
  (low) and register 1 (high, with the write-enable in bit 15).\<close>

fun last_written :: "u32 \<Rightarrow> u16 \<Rightarrow> bus \<Rightarrow> u16" where
  "last_written a v [] = v"
| "last_written a v (x # xs) =
     last_written a (case x of Wr16 b a' w \<Rightarrow> if b = 0 \<and> a' = a then w else v | _ \<Rightarrow> v) xs"

definition sdram_address :: "bus \<Rightarrow> u32" where
  "sdram_address tr = push_bit 16 (ucast (last_written 2 0 tr) AND 0x7FFF) OR ucast (last_written 0 0 tr)"

definition sdram_write_enabled :: "bus \<Rightarrow> bool" where
  "sdram_write_enabled tr = bit (last_written 2 0 tr) 15"

lemma last_written_append:
  "last_written a v (xs @ ys) = last_written a (last_written a v xs) ys"
  by (induction xs arbitrary: v) simp_all

lemma last_written_burst: "last_written a v (map (Wr16 1 0) ws) = v" "last_written a v (replicate n (Rd16 b c)) = v"
  by (induction ws arbitrary: v, simp_all) (induction n, simp_all)

lemma bit_0xFFFE: "bit (0xFFFE :: u32) n \<longleftrightarrow> 0 < n \<and> n < 16"
proof -
  have m: "(0xFFFE :: u32) = mask 16 AND NOT 1" by (simp add: mask_eq_exp_minus_1)
  show ?thesis unfolding m by (auto simp: bit_mask_iff bit_and_iff bit_not_iff bit_1_iff possible_bit_word)
qed

lemma bit_0x7FFF: "bit (0x7FFF :: u32) n \<longleftrightarrow> n < 15"
proof -
  have m: "(0x7FFF :: u32) = mask 15" by (simp add: mask_eq_exp_minus_1)
  show ?thesis unfolding m by (auto simp: bit_mask_iff possible_bit_word)
qed

lemma bit_0x8000: "bit (0x8000 :: u32) n \<longleftrightarrow> n = 15"
proof -
  have m: "(0x8000 :: u32) = 2 ^ 15" by simp
  show ?thesis unfolding m by (auto simp only: bit_exp_iff possible_bit_word) simp
qed

lemma bit_ucast_u16: "bit (ucast (x :: u32) :: u16) n \<longleftrightarrow> n < 16 \<and> bit x n"
  by (simp add: bit_ucast_iff)

lemma bit_ucast_u32: "bit (ucast (x :: u16) :: u32) n \<longleftrightarrow> n < 16 \<and> bit x n"
  by (auto simp: bit_ucast_iff dest: bit_imp_le_length)

lemma sdram_split:
  assumes "addr < 0x80000000" and w: "w = 0 \<or> w = FPGA_WR_BIT"
  shows "push_bit 16 (ucast (ucast (FPGA_ADDR_HI addr OR w) :: u16) AND 0x7FFF) OR ucast (ucast (FPGA_ADDR_LO addr) :: u16)
       = (addr AND NOT 1 :: u32)"
proof (rule bit_word_eqI)
  fix n :: nat assume n: "n < LENGTH(32)"
  have "unat addr < 2 ^ 31" using assms(1) by (simp add: word_less_nat_alt)
  then have "\<not> bit (unat addr) 31" by (simp add: bit_iff_odd)
  then have top: "\<not> bit addr 31" by (auto simp: bit_unsigned_iff possible_bit_def)
  have t: "n < 31" if "bit addr n" using that top n by (cases "n = 31") auto
  have w': "\<not> bit w (n - 16)" if "n - 16 < 15"
    using w that bit_0x8000 [of "n - 16"] by (auto simp: FPGA_WR_BIT_def)
  have "bit (push_bit 16 (ucast (ucast (FPGA_ADDR_HI addr OR w) :: u16) AND 0x7FFF) OR ucast (ucast (FPGA_ADDR_LO addr) :: u16) :: u32) n
      \<longleftrightarrow> 16 \<le> n \<and> n - 16 < 15 \<and> (bit addr (16 + (n - 16)) \<or> bit w (n - 16)) \<or> n < 16 \<and> 0 < n \<and> bit addr n"
    unfolding FPGA_ADDR_HI_def FPGA_ADDR_LO_def FPGA_WR_BIT_def
    by (simp only: bit_or_iff bit_and_iff bit_not_iff bit_push_bit_iff bit_drop_bit_eq comp_apply
        bit_ucast_u16 bit_ucast_u32 bit_0x7FFF bit_0xFFFE bit_0x8000 possible_bit_word) (use n in auto)
  also have "\<dots> \<longleftrightarrow> bit (addr AND NOT 1) n"
    using n t w' by (cases "n < 16") (auto simp: bit_and_iff bit_not_iff bit_1_iff)
  finally show "bit (push_bit 16 (ucast (ucast (FPGA_ADDR_HI addr OR w) :: u16) AND 0x7FFF) OR ucast (ucast (FPGA_ADDR_LO addr) :: u16) :: u32) n
      \<longleftrightarrow> bit (addr AND NOT 1) n" .
qed

text \<open>A write to the SDRAM over the memory bus programs the FPGA with the even byte address and
  the write-enable bit, after having cleared that bit so that the write is triggered, then
  waits and sends the halfwords of the source in order; the read does the same with the
  opposite polarity and stores the halfwords it receives. Bit 0 of the address and an odd
  last byte are ignored; nothing else is accessed. Addresses are below 2 GiB, the high
  address register has 15 bits.\<close>

theorem SDRAM_sequences:
  assumes "addr < 0x80000000"
  shows "(\<exists>pre. snd (run_state (WriteSDRAM source addr sz) tr)
              = tr @ pre @ map (Wr16 1 0) (take (unat (drop_bit 1 sz)) source)
            \<and> sdram_address (tr @ pre) = addr AND NOT 1 \<and> sdram_write_enabled (tr @ pre)
            \<and> \<not> sdram_write_enabled (tr @ take 1 pre) \<and> last pre = Delay_us 30)
       \<and> (\<exists>pre. snd (run_state (ReadSDRAM hw addr sz) tr)
              = tr @ pre @ replicate (unat (drop_bit 1 sz)) (Rd16 1 0)
            \<and> sdram_address (tr @ pre) = addr AND NOT 1 \<and> \<not> sdram_write_enabled (tr @ pre)
            \<and> sdram_write_enabled (tr @ take 1 pre) \<and> last pre = Delay_us 30
            \<and> fst (run_state (ReadSDRAM hw addr sz) tr)
                = map (\<lambda>k. ucast (hw (tr @ pre @ replicate (Suc k) (Rd16 1 0)))) [0..<unat (drop_bit 1 sz)])"
proof -
  let ?w = "[Wr16 0 2 (ucast FPGA_RD_BIT), Wr16 0 0 (ucast (FPGA_ADDR_LO addr)),
      Wr16 0 2 (ucast (FPGA_ADDR_HI addr OR FPGA_WR_BIT)), Delay_us 30]"
  let ?r = "[Wr16 0 2 (ucast FPGA_WR_BIT), Wr16 0 0 (ucast (FPGA_ADDR_LO addr)),
      Wr16 0 2 (ucast (FPGA_ADDR_HI addr)), Delay_us 30]"
  have wr: "snd (run_state (WriteSDRAM source addr sz) tr)
      = tr @ ?w @ map (Wr16 1 0) (take (unat (drop_bit 1 sz)) source)"
    by (simp add: WriteSDRAM_def fpgawrite_def membus_write_device_memory_def run_iowrite16_rep FPGA_MEM_TIME_def)
  have rd: "run_state (ReadSDRAM hw addr sz) tr
      = (map (\<lambda>k. ucast (hw (tr @ ?r @ replicate (Suc k) (Rd16 1 0)))) [0..<unat (drop_bit 1 sz)],
         tr @ ?r @ replicate (unat (drop_bit 1 sz)) (Rd16 1 0))"
    by (simp add: ReadSDRAM_def fpgaread_def membus_write_device_memory_def run_ioread16_rep FPGA_MEM_TIME_def)
  have wa: "sdram_address (tr @ ?w) = addr AND NOT 1"
    using sdram_split [OF assms, of FPGA_WR_BIT] by (simp add: sdram_address_def last_written_append)
  have ra: "sdram_address (tr @ ?r) = addr AND NOT 1"
    using sdram_split [OF assms, of 0] by (simp add: sdram_address_def last_written_append)
  have en: "sdram_write_enabled (tr @ ?w)" "\<not> sdram_write_enabled (tr @ take 1 ?w)"
      "\<not> sdram_write_enabled (tr @ ?r)" "sdram_write_enabled (tr @ take 1 ?r)"
    by (auto simp: sdram_write_enabled_def last_written_append bit_ucast_u16 bit_or_iff bit_and_iff
        bit_not_iff bit_0x8000 FPGA_ADDR_HI_def FPGA_WR_BIT_def FPGA_RD_BIT_def)
  show ?thesis
    using wr rd wa ra en by (intro conjI exI [of _ ?w] exI [of _ ?r]) auto
qed

theorem SDRAM_sequences_witness:
  "\<exists>pre. snd (run_state (WriteSDRAM [1, 2, 3] 0x12345678 4) []) = pre @ [Wr16 1 0 1, Wr16 1 0 2]
     \<and> sdram_address pre = 0x12345678"
  using SDRAM_sequences [where addr = "0x12345678" and source = "[1, 2, 3]" and sz = 4 and tr = "[]"] by auto

end
