(* ===== verification/BifrostLoadProps.thy ===== *)
theory BifrostLoadProps
  imports BifrostLoad BifrostSystem
begin

text \<open>
  Loading of the bifrost module: the interrupts that are attached and detached, the PCI Express
  configuration, and what a probe holds when it succeeds and what it leaves when it fails.
\<close>

section \<open>The interrupt table\<close>

definition line :: "msi_action \<Rightarrow> bif_resource multiset" where
  "line m = (if msi_irq m = NO_IRQ then {#} else {#Irq_line (msi_irq m)#})"

definition attached :: "msi_action list \<Rightarrow> bif_resource multiset" where
  "attached ms = sum_list (map line ms)"

definition all_off :: "msi_action list \<Rightarrow> bool" where
  "all_off ms \<longleftrightarrow> (\<forall>m\<in>set ms. msi_irq m = NO_IRQ)"

definition irq_of :: "'s bif_kernel \<Rightarrow> nat \<Rightarrow> u32" where
  "irq_of k n = word_of_int (pci_irq k + int n)"

definition irqs_fit :: "'s bif_kernel \<Rightarrow> bool" where
  "irqs_fit k \<longleftrightarrow> 0 \<le> pci_irq k \<and> pci_irq k < 0xFFFFFF00"

lemma irq_of_ne [simp]:
  assumes "irqs_fit k" and "n < 32"
  shows "irq_of k n \<noteq> NO_IRQ"
proof
  assume h: "irq_of k n = NO_IRQ"
  have u: "uint (word_of_int x :: u32) = x" if "0 \<le> x" "x < 2 ^ 32" for x
    using that by (simp add: uint_word_of_int take_bit_int_eq_self)
  have "uint (irq_of k n) = pci_irq k + int n"
    unfolding irq_of_def using assms by (intro u) (simp_all add: irqs_fit_def)
  moreover have "uint NO_IRQ = 0xFFFFFFFF" by (simp add: NO_IRQ_def uint_word_ariths)
  ultimately show False unfolding h using assms by (simp add: irqs_fit_def)
qed

lemma attached_simps [simp]:
  "attached [] = {#}" "attached (m # ms) = line m + attached ms" "attached (ms @ ms') = attached ms + attached ms'"
  by (simp_all add: attached_def)

lemma attached_off: "all_off ms \<Longrightarrow> attached ms = {#}"
  by (induction ms) (auto simp: all_off_def line_def)

lemma attached_update:
  assumes "n < length ms" and "line (ms ! n) = {#}"
  shows "attached (ms[n := m]) = attached ms + line m"
proof -
  have "attached (take n ms @ ms ! n # drop (Suc n) ms) = attached (take n ms) + attached (drop (Suc n) ms)"
    using assms(2) by simp
  then have "attached ms = attached (take n ms) + attached (drop (Suc n) ms)"
    using assms(1) by (simp only: id_take_nth_drop [symmetric])
  then show ?thesis using assms(1) by (simp add: upd_conv_take_nth_drop)
qed

text \<open>A vector gets its interrupt when it has a handler and the kernel grants it.\<close>

definition granted :: "'s bif_kernel \<Rightarrow> msi_action list \<Rightarrow> nat \<Rightarrow> bool" where
  "granted k ms n \<longleftrightarrow> msi_handler (ms ! n) \<noteq> None \<and> request_irq k (irq_of k n)"

definition attached_upto :: "'s bif_kernel \<Rightarrow> nat \<Rightarrow> msi_action list \<Rightarrow> msi_action list \<Rightarrow> bool" where
  "attached_upto k j ms0 ms \<longleftrightarrow> length ms = length ms0 \<and> (\<forall>i<length ms.
     msi_handler (ms ! i) = msi_handler (ms0 ! i)
     \<and> msi_irq (ms ! i) = (if i < j \<and> granted k ms0 i then irq_of k i else NO_IRQ))"

lemma attach_fold:
  assumes "all_off (msi st)" and "length (msi st) = 32" and "irqs_fit k"
  shows "j \<le> 32 \<Longrightarrow> \<exists>ms. fold (attach_msi k (pci_irq k)) [0..<j] st = st\<lparr>held := held st + attached ms, msi := ms\<rparr>
     \<and> attached_upto k j (msi st) ms"
proof (induction j)
  case 0
  then show ?case
    using assms(1) attached_off [OF assms(1)]
    by (intro exI [of _ "msi st"]) (auto simp: attached_upto_def all_off_def)
next
  case (Suc j)
  then obtain ms where IH: "fold (attach_msi k (pci_irq k)) [0..<j] st = st\<lparr>held := held st + attached ms, msi := ms\<rparr>"
      "attached_upto k j (msi st) ms" by auto
  have j: "j < length ms" "msi_irq (ms ! j) = NO_IRQ" "msi_handler (ms ! j) = msi_handler (msi st ! j)"
    using IH(2) Suc.prems assms(2) by (simp_all add: attached_upto_def)
  let ?m = "(ms ! j)\<lparr>msi_vec := j, msi_irq := irq_of k j, msi_data := True\<rparr>"
  let ?off = "?m\<lparr>msi_irq := NO_IRQ\<rparr>"
  have ne: "irq_of k j \<noteq> NO_IRQ" using assms(3) Suc.prems by simp
  have lines: "line (ms ! j) = {#}" "line ?m = {#Irq_line (irq_of k j)#}" "line ?off = {#}"
    using j(2) ne by (simp_all add: line_def)
  note att = attached_update [OF j(1) lines(1)]
  have req: "request_msi k j (pci_irq k) (st\<lparr>held := held st + attached ms, msi := ms\<rparr>) =
      (if request_irq k (irq_of k j) then (True, st\<lparr>held := held st + attached (ms[j := ?m]), msi := ms[j := ?m]\<rparr>)
       else (False, st\<lparr>held := held st + attached ms, msi := ms[j := ?m]\<rparr>))"
    by (simp add: request_msi_def Let_def irq_of_def [symmetric] acquire_def att lines(2) del: of_int_add)
  have step: "attach_msi k (pci_irq k) j (st\<lparr>held := held st + attached ms, msi := ms\<rparr>) =
      (if msi_handler (ms ! j) = None then st\<lparr>held := held st + attached ms, msi := ms\<rparr>
       else if request_irq k (irq_of k j) then st\<lparr>held := held st + attached (ms[j := ?m]), msi := ms[j := ?m]\<rparr>
       else st\<lparr>held := held st + attached (ms[j := ?off]), msi := ms[j := ?off]\<rparr>)"
    using j by (simp add: attach_msi_def req att line_def)
  have upto: "attached_upto k (Suc j) (msi st) (if msi_handler (ms ! j) = None then ms
       else if request_irq k (irq_of k j) then ms[j := ?m] else ms[j := ?off])"
    using IH(2) j by (auto simp: attached_upto_def granted_def nth_list_update less_Suc_eq)
  show ?case
    using step upto IH(1) by (cases "msi_handler (ms ! j) = None"; cases "request_irq k (irq_of k j)") auto
qed

definition msi_off :: "msi_action \<Rightarrow> msi_action" where
  "msi_off m = m\<lparr>msi_irq := NO_IRQ\<rparr>"

lemma msi_off_id: "msi_irq m = NO_IRQ \<Longrightarrow> msi_off m = m"
  by (simp add: msi_off_def)

lemma detach_fold:
  "j \<le> length (msi st) \<Longrightarrow> fold detach_msi [0..<j] st =
     st\<lparr>held := held st - attached (take j (msi st)), msi := map msi_off (take j (msi st)) @ drop j (msi st)\<rparr>"
proof (induction j)
  case 0
  then show ?case by (simp add: attached_def)
next
  case (Suc j)
  let ?ms = "map msi_off (take j (msi st)) @ drop j (msi st)"
  have m: "?ms ! j = msi st ! j" using Suc.prems by (simp add: nth_append)
  have upd: "?ms[j := x] = map msi_off (take j (msi st)) @ x # drop (Suc j) (msi st)" for x
    using Suc.prems by (simp add: list_update_append Cons_nth_drop_Suc [symmetric])
  have tk: "take (Suc j) (msi st) = take j (msi st) @ [msi st ! j]" using Suc.prems by (simp add: take_Suc_conv_app_nth)
  have off: "(msi st ! j)\<lparr>msi_irq := NO_IRQ\<rparr> = msi_off (msi st ! j)" by (simp add: msi_off_def)
  show ?case
  proof (cases "msi_irq (msi st ! j) = NO_IRQ")
    case True
    then have "map msi_off (take (Suc j) (msi st)) @ drop (Suc j) (msi st) = ?ms"
      using Suc.prems by (simp add: tk msi_off_id Cons_nth_drop_Suc)
    moreover have "attached (take (Suc j) (msi st)) = attached (take j (msi st))" using True by (simp add: tk line_def)
    ultimately show ?thesis using Suc True m by (simp add: detach_msi_def Let_def)
  next
    case False
    then have "attached (take (Suc j) (msi st)) = attached (take j (msi st)) + {#Irq_line (msi_irq (msi st ! j))#}"
      by (simp add: tk line_def)
    moreover have "map msi_off (take (Suc j) (msi st)) @ drop (Suc j) (msi st) = ?ms[j := msi_off (msi st ! j)]"
      using Suc.prems by (simp add: tk upd)
    ultimately show ?thesis using Suc False m off by (simp add: detach_msi_def Let_def release_def)
  qed
qed

lemma detach_result:
  assumes "length (msi st) = 32"
  shows "bifrost_detach_msis st = st\<lparr>held := held st - attached (msi st), msi := map msi_off (msi st)\<rparr>"
  using detach_fold [of 32 st] assms by (simp add: bifrost_detach_msis_def)

lemma all_off_map [simp]: "all_off (map msi_off ms)"
  by (simp add: all_off_def msi_off_def)

text \<open>The table that is used: on the FVD platforms its start is replaced.\<close>

definition used_table :: "'s bif_kernel \<Rightarrow> 's load_state \<Rightarrow> msi_action list" where
  "used_table k st = (if platform_fvd (k_mach k)
     then take (msi_interrupts st) msi_fvd_table @ drop (msi_interrupts st) (msi st) else msi st)"

definition msi_ready :: "'s load_state \<Rightarrow> bool" where
  "msi_ready st \<longleftrightarrow> all_off (msi st) \<and> length (msi st) = 32 \<and> msi_interrupts st \<le> 32"

lemma fvd_table: "length msi_fvd_table = 32" "all_off msi_fvd_table"
  by (simp_all add: msi_fvd_table_def all_off_def MSI_ENABLE_def MSI_DISABLED_def)

lemma used_table_ready:
  assumes "msi_ready st"
  shows "all_off (used_table k st) \<and> length (used_table k st) = 32"
  using assms fvd_table by (auto simp: used_table_def msi_ready_def all_off_def dest: in_set_takeD in_set_dropD)

lemma attach_result:
  assumes "msi_ready st" and "irqs_fit k"
  shows "\<exists>ms. bifrost_attach_msis_to_irq k (pci_irq k) st = st\<lparr>held := held st + attached ms, msi := ms\<rparr>
     \<and> attached_upto k (msi_interrupts st) (used_table k st) ms \<and> length ms = 32"
proof -
  let ?st = "st\<lparr>msi := used_table k st\<rparr>"
  have t: "all_off (msi ?st)" "length (msi ?st) = 32" using used_table_ready [OF assms(1), of k] by simp_all
  have "bifrost_attach_msis_to_irq k (pci_irq k) st = fold (attach_msi k (pci_irq k)) [0..<msi_interrupts ?st] ?st"
    by (simp add: bifrost_attach_msis_to_irq_def used_table_def Let_def)
  moreover have "msi_interrupts ?st \<le> 32" using assms(1) by (simp add: msi_ready_def)
  ultimately show ?thesis
    using attach_fold [OF t assms(2), of "msi_interrupts ?st"] t(2) by (auto simp: attached_upto_def)
qed

section \<open>The FPGA interrupts\<close>

definition is_fvd :: "bif_resource \<Rightarrow> bool" where
  "is_fvd r \<longleftrightarrow> r = Fvd_device \<or> (\<exists>n. r = Fvd_gpio n \<or> r = Fvd_irq n)"

definition fvd_free :: "bif_resource multiset \<Rightarrow> bool" where
  "fvd_free H \<longleftrightarrow> (\<forall>r\<in>#H. \<not> is_fvd r)"

lemma fvd_free_simps [simp]:
  "fvd_free {#}" "fvd_free (add_mset r H) \<longleftrightarrow> \<not> is_fvd r \<and> fvd_free H" "fvd_free (H + G) \<longleftrightarrow> fvd_free H \<and> fvd_free G"
  by (auto simp: fvd_free_def)

lemma fvd_free_kinds [simp]:
  "\<not> is_fvd Pci_driver" "\<not> is_fvd Pci_device" "\<not> is_fvd Msi" "\<not> is_fvd Regions" "\<not> is_fvd (Bar_map n)"
  "\<not> is_fvd (Irq_line i)" "\<not> is_fvd Dma_memory" "\<not> is_fvd Sysfs_group" "\<not> is_fvd Bdev" "\<not> is_fvd Work_pool"
  "\<not> is_fvd Work_queue" "\<not> is_fvd Chrdev_region" "\<not> is_fvd Cdev" "\<not> is_fvd Class" "\<not> is_fvd Device_node"
  "\<not> is_fvd Dma_buffer"
  by (simp_all add: is_fvd_def)

lemma fvd_free_attached [simp]: "fvd_free (attached ms)"
  by (induction ms) (auto simp: line_def)

lemma fvd_free_maps [simp]: "fvd_free (bar_maps d)"
  by (auto simp: fvd_free_def bar_maps_def is_fvd_def)

lemma fvd_remove:
  assumes "fvd_free H" and "X \<subseteq># fvd_managed"
  shows "H + add_mset Fvd_device X - {#Fvd_device#} - fvd_managed = H"
proof (rule multiset_eqI)
  fix r
  have "r \<in># fvd_managed \<Longrightarrow> r \<notin># H" using assms(1) by (auto simp: fvd_free_def fvd_managed_def is_fvd_def)
  then have "count fvd_managed r = 0 \<or> count H r = 0" by (meson not_in_iff)
  moreover have "count X r \<le> count fvd_managed r" using assms(2) by (simp add: mset_subset_eq_count)
  ultimately show "count (H + add_mset Fvd_device X - {#Fvd_device#} - fvd_managed) r = count H r" by auto
qed

lemma fvd_exit_result:
  assumes "held st = H + add_mset Fvd_device X" and "fvd_free H" and "X \<subseteq># fvd_managed"
  shows "bifrost_fvd_exit st = (Done (), st\<lparr>held := H\<rparr>)"
  using assms(1) fvd_remove [OF assms(2,3)] by (simp add: bifrost_fvd_exit_def)

definition pin :: "nat \<Rightarrow> bif_resource multiset" where
  "pin n = {#Fvd_gpio n, Fvd_irq n#}"

lemma fvd_managed_pins: "fvd_managed = pin 0 + pin 1 + pin 2"
  by (simp add: fvd_managed_def pin_def numeral_3_eq_3 numeral_2_eq_2)

definition got :: "'s bif_kernel \<Rightarrow> nat \<Rightarrow> bif_resource multiset" where
  "got k n = (if gpio_request k n then {#Fvd_gpio n#} else {#})
     + (if fpga_request_irq k n = None then {#Fvd_irq n#} else {#})"

lemma got_sub: "got k n \<subseteq># pin n"
  by (simp add: got_def pin_def)

lemma fvd_line_result: "fvd_line k n st = (fpga_request_irq k n, st\<lparr>held := held st + got k n\<rparr>)"
  by (cases "fpga_request_irq k n") (simp_all add: fvd_line_def acquire_def got_def)

text \<open>With valid pins the platform device comes with what was requested of it, or everything is given
  back.\<close>

lemma fvd_init_result:
  assumes free: "fvd_free (held st)" and run: "bifrost_fvd_init k st = (r, st')" and pins: "\<forall>n<3. gpio_is_valid k n"
  shows "\<exists>H. st' = st\<lparr>held := H\<rparr> \<and> (r = Done () \<longrightarrow> (\<exists>X. H = held st + add_mset Fvd_device X \<and> X \<subseteq># fvd_managed))
     \<and> (\<forall>e. r = Fail e \<longrightarrow> H = held st)"
proof (cases "platform_device_alloc k")
  case False
  then show ?thesis using run by (intro exI [of _ "held st"]) (auto simp: bifrost_fvd_init_def)
next
  case True
  have "got k 0 + got k 1 + got k 2 \<subseteq># fvd_managed"
    unfolding fvd_managed_pins by (intro subset_mset.add_mono got_sub)
  then have sub: "got k 0 \<subseteq># fvd_managed" "got k 0 + got k 1 \<subseteq># fvd_managed" "got k 0 + got k 1 + got k 2 \<subseteq># fvd_managed"
    by (auto elim: subset_mset.order_trans [rotated])
  have gone: "bifrost_fvd_exit (st\<lparr>held := add_mset Fvd_device (held st) + X\<rparr>) = (Done (), st\<lparr>held := held st\<rparr>)"
    if "X \<subseteq># fvd_managed" for X
    using fvd_exit_result [OF _ free that, of "st\<lparr>held := add_mset Fvd_device (held st) + X\<rparr>"] by simp
  have valid: "gpio_is_valid k 0" "gpio_is_valid k 1" "gpio_is_valid k 2" using pins by simp_all
  have eq: "bifrost_fvd_init k st =
     (case fpga_request_irq k 0 of
        Some e \<Rightarrow> (Fail e, st)
      | None \<Rightarrow>
          case fpga_request_irq k 1 of
            Some e \<Rightarrow> (Fail e, st)
          | None \<Rightarrow>
              case fpga_request_irq k 2 of
                Some e \<Rightarrow> (Fail e, st)
              | None \<Rightarrow> (Done (), st\<lparr>held := add_mset Fvd_device (held st) + (got k 0 + got k 1 + got k 2)\<rparr>))"
    using True valid gone [OF sub(1)] gone [OF sub(2)] gone [OF sub(3)]
    by (simp add: bifrost_fvd_init_def Let_def fvd_line_result acquire_def add.assoc split: option.splits)
  then show ?thesis using run sub(3) by (auto split: option.splits)
qed

section \<open>The probe\<close>

text \<open>The setup of the DMA controller leaves the banks as they are.\<close>

definition kept :: "bifrost_device \<Rightarrow> bifrost_device \<Rightarrow> bool" where
  "kept d d' \<longleftrightarrow> membus d' = membus d \<and> handles d' = handles d
     \<and> (\<forall>ctl. dctl d' = Some ctl \<longrightarrow> dctl d = Some ctl \<or> dma_inv ctl)"

definition banks_kept :: "bifrost_device \<Rightarrow> bifrost_device \<Rightarrow> bool" where
  "banks_kept d d' \<longleftrightarrow> map enabled_bar (regb d') = map enabled_bar (regb d) \<and> kept d d'"

lemma kept_refl [simp]: "kept d d"
  by (simp add: kept_def)

lemma kept_trans: "kept d d1 \<Longrightarrow> kept d1 d2 \<Longrightarrow> kept d d2"
  by (auto simp: kept_def)

lemma kept_banks: "banks_kept d d' \<Longrightarrow> kept d d'"
  by (simp add: banks_kept_def)

lemma banks_kept_maps: "banks_kept d d' \<Longrightarrow> bar_maps d' = bar_maps d"
proof -
  assume h: "banks_kept d d'"
  then have l: "length (regb d') = length (regb d)" unfolding banks_kept_def by (metis length_map)
  have "enabled_bar (regb d' ! n) = enabled_bar (regb d ! n)" if "n < length (regb d)" for n
  proof -
    have "map enabled_bar (regb d') ! n = map enabled_bar (regb d) ! n" using h by (simp add: banks_kept_def)
    then show ?thesis using that l by simp
  qed
  then have "filter (\<lambda>n. enabled_bar (regb d' ! n)) [0..<length (regb d)] = filter (\<lambda>n. enabled_bar (regb d ! n)) [0..<length (regb d)]"
    by (intro filter_cong) auto
  then show ?thesis by (simp only: bar_maps_def l)
qed

lemma banks_kept_refl [simp]: "banks_kept d d"
  by (simp add: banks_kept_def)

lemma patch_bar0_banks [simp]: "banks_kept d (patch_bar0 d)" "dctl (patch_bar0 d) = dctl d"
  by (cases "regb d"; simp add: banks_kept_def kept_def patch_bar0_def)+

lemma bifrost_dma_init_banks:
  assumes "bifrost_dma_init hw mach kz i d = (r, d')"
  shows "banks_kept d d' \<and> (r = (if kz then Done () else Fail ENOMEM)) \<and> (dctl d' = None \<longleftrightarrow> \<not> kz)"
proof (cases kz)
  case True
  then show ?thesis
    using assms bifrost_dma_init_result [OF refl refl refl refl refl, where d = d and mach = mach and hw = hw and ?irq0.0 = i]
      initial_ctl(1) [OF refl refl refl]
    by (auto simp: banks_kept_def kept_def)
next
  case False
  then show ?thesis
    using assms by (auto simp: bifrost_dma_init_def on_bus_def Let_def banks_kept_def kept_def split: prod.splits)
qed

lemma dma_init_result:
  "\<exists>d. dma_init k st = (if kzalloc_ctl k then (Done (), acquire Dma_memory (st\<lparr>dev := d\<rparr>)) else (Fail ENOMEM, st\<lparr>dev := d\<rparr>))
     \<and> banks_kept (dev st) d \<and> (dctl d = None \<longleftrightarrow> \<not> kzalloc_ctl k)"
proof -
  obtain r d where "bifrost_dma_init (k_hw k) (k_mach k) (kzalloc_ctl k) (pci_irq k) (dev st) = (r, d)"
    by (cases "bifrost_dma_init (k_hw k) (k_mach k) (kzalloc_ctl k) (pci_irq k) (dev st)")
  then show ?thesis using bifrost_dma_init_banks [of "k_hw k" "k_mach k" "kzalloc_ctl k" "pci_irq k" "dev st" r d]
    by (intro exI [of _ d]) (simp add: dma_init_def)
qed

text \<open>What the FPGA interrupts hold on a platform that has them.\<close>

definition fvd_part :: "'s bif_kernel \<Rightarrow> bif_resource multiset \<Rightarrow> bool" where
  "fvd_part k F \<longleftrightarrow> (if platform_fvd (k_mach k) then \<exists>X. F = add_mset Fvd_device X \<and> X \<subseteq># fvd_managed else F = {#})"

definition fvd_ok :: "'s bif_kernel \<Rightarrow> bif_resource multiset \<Rightarrow> bool" where
  "fvd_ok k H \<longleftrightarrow> (platform_fvd (k_mach k) \<longrightarrow> (\<forall>n<3. gpio_is_valid k n) \<and> fvd_free H)"

text \<open>What the end of the initialisation leaves: what is held, the device and the table of interrupts.\<close>

definition post_outcome ::
    "'s bif_kernel \<Rightarrow> 's load_state \<Rightarrow> unit res \<Rightarrow> bif_resource multiset \<Rightarrow> bifrost_device \<Rightarrow> msi_action list \<Rightarrow> bool" where
  "post_outcome k st r H d ms \<longleftrightarrow> banks_kept (dev st) d \<and> (dctl d = None \<longleftrightarrow> \<not> kzalloc_ctl k) \<and> length ms = 32
     \<and> (case r of
          Done _ \<Rightarrow> (\<exists>F. H = held st + attached ms + {#Dma_memory#} + F \<and> fvd_part k F)
            \<and> attached_upto k (msi_interrupts st) (used_table k st) ms \<and> kzalloc_ctl k
        | Fail e \<Rightarrow> e = EPERM \<and> H = held st \<and> all_off ms \<and> (platform_fvd (k_mach k) \<or> \<not> kzalloc_ctl k)
        | Crash _ \<Rightarrow> platform_fvd (k_mach k))"

text \<open>The initialisation up to the FPGA interrupts.\<close>

lemma post_init_start:
  assumes ready: "msi_ready st" "irqs_fit k"
  obtains ms d where "attached_upto k (msi_interrupts st) (used_table k st) ms" "length ms = 32" "banks_kept (dev st) d"
    "dctl d = None \<longleftrightarrow> \<not> kzalloc_ctl k"
    "bifrost_pci_probe_post_init k st =
       (if \<not> kzalloc_ctl k then (Fail EPERM, st\<lparr>held := held st, dev := d, msi := map msi_off ms\<rparr>)
        else let st2 = st\<lparr>held := add_mset Dma_memory (held st + attached ms), msi := ms, dev := d\<rparr>
          in if \<not> platform_fvd (k_mach k) then (Done (), st2)
             else case bifrost_fvd_init k st2 of
                (Done _, st) \<Rightarrow> (Done (), st)
              | (Fail e, st) \<Rightarrow> (case bifrost_dma_cleanup st of (Done _, st) \<Rightarrow> (Fail EPERM, bifrost_detach_msis st) | q \<Rightarrow> q)
              | q \<Rightarrow> q)"
proof -
  obtain ms where at: "bifrost_attach_msis_to_irq k (pci_irq k) st = st\<lparr>held := held st + attached ms, msi := ms\<rparr>"
      "attached_upto k (msi_interrupts st) (used_table k st) ms" "length ms = 32"
    using attach_result [OF ready] by blast
  let ?st1 = "st\<lparr>held := held st + attached ms, msi := ms\<rparr>"
  from dma_init_result [of k ?st1] obtain d where
    "dma_init k ?st1 = (if kzalloc_ctl k then (Done (), acquire Dma_memory (?st1\<lparr>dev := d\<rparr>)) else (Fail ENOMEM, ?st1\<lparr>dev := d\<rparr>))
     \<and> banks_kept (dev ?st1) d \<and> (dctl d = None \<longleftrightarrow> \<not> kzalloc_ctl k)" ..
  moreover have "acquire Dma_memory (?st1\<lparr>dev := d\<rparr>) = st\<lparr>held := add_mset Dma_memory (held st + attached ms), msi := ms, dev := d\<rparr>"
    by (cases st) (simp add: acquire_def)
  ultimately have d: "dma_init k ?st1 = (if kzalloc_ctl k
      then (Done (), st\<lparr>held := add_mset Dma_memory (held st + attached ms), msi := ms, dev := d\<rparr>) else (Fail ENOMEM, ?st1\<lparr>dev := d\<rparr>))"
      "banks_kept (dev st) d" "dctl d = None \<longleftrightarrow> \<not> kzalloc_ctl k" by simp_all
  show thesis
    by (rule that [of ms d]; cases "kzalloc_ctl k")
      (use at d in \<open>simp_all add: bifrost_pci_probe_post_init_def detach_result Let_def\<close>)
qed

text \<open>The last step of it, on the FVD platforms: the FPGA interrupts, and the unwinding when they fail.\<close>

lemma post_init_fvd:
  fixes st ms d
  defines "st2 \<equiv> st\<lparr>held := add_mset Dma_memory (held st + attached ms), msi := ms, dev := d\<rparr>"
  assumes at: "attached_upto k (msi_interrupts st) (used_table k st) ms" "length ms = 32"
    and d: "banks_kept (dev st) d" "dctl d \<noteq> None" and fvd: "kzalloc_ctl k" "platform_fvd (k_mach k)"
    and ok: "fvd_free (held st2)" "\<forall>n<3. gpio_is_valid k n"
    and run: "(case bifrost_fvd_init k st2 of
        (Done _, st) \<Rightarrow> (Done (), st)
      | (Fail e, st) \<Rightarrow> (case bifrost_dma_cleanup st of (Done _, st) \<Rightarrow> (Fail EPERM, bifrost_detach_msis st) | q \<Rightarrow> q)
      | q \<Rightarrow> q) = (r, st')"
  shows "\<exists>H d ms. st' = st\<lparr>held := H, dev := d, msi := ms\<rparr> \<and> post_outcome k st r H d ms"
proof -
  obtain r2 st3 where f: "bifrost_fvd_init k st2 = (r2, st3)" by (cases "bifrost_fvd_init k st2")
  from fvd_init_result [OF ok(1) f ok(2)] obtain H where H: "st3 = st2\<lparr>held := H\<rparr>"
      "r2 = Done () \<Longrightarrow> \<exists>X. H = held st2 + add_mset Fvd_device X \<and> X \<subseteq># fvd_managed" "\<And>e. r2 = Fail e \<Longrightarrow> H = held st2" by blast
  show ?thesis
  proof (cases r2)
    case (Done u)
    then obtain X where X: "H = held st2 + add_mset Fvd_device X" "X \<subseteq># fvd_managed" using H(2) by auto
    have "post_outcome k st (Done ()) H d ms" using at d fvd X by (auto simp: post_outcome_def fvd_part_def st2_def)
    moreover have "r = Done ()" "st' = st\<lparr>held := H, dev := d, msi := ms\<rparr>"
      using run f Done H(1) by (auto simp: st2_def)
    ultimately show ?thesis by blast
  next
    case (Fail e)
    then have "bifrost_dma_cleanup st3 = (Done (), st\<lparr>held := held st + attached ms, msi := ms, dev := d\<rparr>)"
      using H(1,3) d(2) by (cases "dctl d") (simp_all add: bifrost_dma_cleanup_def release_def st2_def)
    then have "st' = st\<lparr>held := held st, dev := d, msi := map msi_off ms\<rparr>" "r = Fail EPERM"
      using run f Fail at(2) by (auto simp: detach_result)
    moreover have "post_outcome k st (Fail EPERM) (held st) d (map msi_off ms)"
      using at d fvd by (simp add: post_outcome_def)
    ultimately show ?thesis by blast
  next
    case (Crash c)
    have "post_outcome k st (Crash c) H d ms" using at d fvd by (simp add: post_outcome_def)
    moreover have "r = Crash c" "st' = st\<lparr>held := H, dev := d, msi := ms\<rparr>"
      using run f Crash H(1) by (auto simp: st2_def)
    ultimately show ?thesis by blast
  qed
qed

lemma post_init_result:
  assumes ready: "msi_ready st" "irqs_fit k" and ok: "fvd_ok k (held st)"
    and run: "bifrost_pci_probe_post_init k st = (r, st')"
  shows "\<exists>H d ms. st' = st\<lparr>held := H, dev := d, msi := ms\<rparr> \<and> post_outcome k st r H d ms"
proof -
  from post_init_start [OF ready] obtain ms d where
    at: "attached_upto k (msi_interrupts st) (used_table k st) ms" "length ms = 32" and d: "banks_kept (dev st) d" "dctl d = None \<longleftrightarrow> \<not> kzalloc_ctl k"
    and eq: "bifrost_pci_probe_post_init k st =
       (if \<not> kzalloc_ctl k then (Fail EPERM, st\<lparr>held := held st, dev := d, msi := map msi_off ms\<rparr>)
        else let st2 = st\<lparr>held := add_mset Dma_memory (held st + attached ms), msi := ms, dev := d\<rparr>
          in if \<not> platform_fvd (k_mach k) then (Done (), st2)
             else case bifrost_fvd_init k st2 of
                (Done _, st) \<Rightarrow> (Done (), st)
              | (Fail e, st) \<Rightarrow> (case bifrost_dma_cleanup st of (Done _, st) \<Rightarrow> (Fail EPERM, bifrost_detach_msis st) | q \<Rightarrow> q)
              | q \<Rightarrow> q)" .
  consider "\<not> kzalloc_ctl k" | "kzalloc_ctl k" "\<not> platform_fvd (k_mach k)" | "kzalloc_ctl k" "platform_fvd (k_mach k)" by blast
  then show ?thesis
  proof cases
    case 1
    then have "st' = st\<lparr>held := held st, dev := d, msi := map msi_off ms\<rparr>" "r = Fail EPERM" using run eq by auto
    moreover have "post_outcome k st (Fail EPERM) (held st) d (map msi_off ms)" using at d 1 by (simp add: post_outcome_def)
    ultimately show ?thesis by blast
  next
    case 2
    then have "r = Done ()" "st' = st\<lparr>held := add_mset Dma_memory (held st + attached ms), dev := d, msi := ms\<rparr>"
      using run eq by (auto simp: Let_def)
    moreover have "post_outcome k st (Done ()) (add_mset Dma_memory (held st + attached ms)) d ms"
      using at d 2 by (simp add: post_outcome_def fvd_part_def)
    ultimately show ?thesis by blast
  next
    case 3
    then have "dctl d \<noteq> None" "fvd_free (add_mset Dma_memory (held st + attached ms))" "\<forall>n<3. gpio_is_valid k n"
      using d(2) ok by (simp_all add: fvd_ok_def)
    with post_init_fvd [OF at d(1) _ 3] show ?thesis using run eq 3 by (simp add: Let_def)
  qed
qed

text \<open>What the unwinding of the probe gives back.\<close>

lemma err_post_init_result:
  assumes "held st = B + {#Pci_device, Regions#} + bar_maps (dev st) + X"
  shows "err_pci_post_init st = st\<lparr>held := B + X, dev := remove_io_regions (dev st), pdev := False\<rparr>"
  using assms
  by (simp add: err_pci_post_init_def err_pci_iomap_regb_def err_pci_request_def remove_regions_def release_def)

lemma err_iomap_result:
  assumes "held st = B + {#Pci_device, Regions#} + X"
  shows "err_pci_iomap_regb st = st\<lparr>held := B + X, pdev := False\<rparr>"
  using assms by (simp add: err_pci_iomap_regb_def err_pci_request_def release_def)

definition nbars :: "'s bif_kernel \<Rightarrow> 's load_state \<Rightarrow> nat" where
  "nbars k st = fst (setup_io_regions_pci (resource_len k) (iomap k) (dev st))"

lemma remove_io_regions_fields [simp]:
  "dctl (remove_io_regions d) = dctl d" "membus (remove_io_regions d) = membus d" "saved_virt (remove_io_regions d) = saved_virt d"
  "kept d0 (remove_io_regions d) \<longleftrightarrow> kept d0 d"
  by (simp_all add: remove_io_regions_def kept_def)

lemma setup_pci_fields [simp]:
  "kept d (snd (setup_io_regions_pci sizes im d))" "dctl (snd (setup_io_regions_pci sizes im d)) = dctl d"
  "kept d (snd (setup_io_regions_membus im d))"
  by (simp_all add: setup_io_regions_pci_def setup_io_regions_membus_def kept_def Let_def)

lemma upd_order:
  "s\<lparr>msi := m, held := H, dev := d, pdev := p\<rparr> = s\<lparr>held := H, dev := d, msi := m, pdev := p\<rparr>"
  by (cases s) simp

lemma upd_order3: "s\<lparr>dev := d, held := H\<rparr> = s\<lparr>held := H, dev := d\<rparr>"
  by (cases s) simp

lemma upd_order2:
  "s\<lparr>dev := d, msi := m, held := H, pdev := p\<rparr> = s\<lparr>held := H, dev := d, msi := m, pdev := p\<rparr>"
  by (cases s) simp

text \<open>What the probe leaves once the regions are claimed.\<close>

definition regions_outcome ::
    "'s bif_kernel \<Rightarrow> bif_resource multiset \<Rightarrow> 's load_state \<Rightarrow> unit res \<Rightarrow> bif_resource multiset \<Rightarrow> bifrost_device
      \<Rightarrow> msi_action list \<Rightarrow> bool" where
  "regions_outcome k B st r H d ms \<longleftrightarrow> length ms = 32 \<and> kept (dev st) d
     \<and> (case r of
          Done _ \<Rightarrow> (\<exists>F. H = B + {#Pci_device, Regions, Dma_memory, Sysfs_group#} + bar_maps d + attached ms + F \<and> fvd_part k F)
            \<and> dctl d \<noteq> None \<and> 2 \<le> nbars k st \<and> kzalloc_ctl k \<and> sysfs_create_group k
        | Fail _ \<Rightarrow>
            (if nbars k st < 2 then H = B + bar_maps d
             else if sysfs_create_group k \<or> \<not> kzalloc_ctl k then H = B
             else \<not> platform_fvd (k_mach k) \<longrightarrow> H = B + {#Dma_memory#} + attached ms)
            \<and> (platform_fvd (k_mach k) \<or> \<not> (2 \<le> nbars k st \<and> kzalloc_ctl k \<and> sysfs_create_group k))
        | Crash _ \<Rightarrow> platform_fvd (k_mach k))"

text \<open>With two banks the initialisation runs on, and its end decides.\<close>

lemma probe_regions_start:
  assumes ready: "msi_ready st" "irqs_fit k" and B: "held st = B + {#Pci_device, Regions#}" and ok: "fvd_ok k B" and nb: "2 \<le> nbars k st"
  obtains st2 r2 H d ms where "post_outcome k st2 r2 H d ms" "held st2 = B + {#Pci_device, Regions#} + bar_maps d" "kept (dev st) d"
    "probe_regions k st = (case r2 of
        Done _ \<Rightarrow> if sysfs_create_group k then (Done (), st\<lparr>held := add_mset Sysfs_group H, dev := d, msi := ms, pdev := True\<rparr>)
          else (Fail ENODEV, err_pci_post_init (st\<lparr>held := H, dev := d, msi := ms\<rparr>))
      | Fail e \<Rightarrow> (Fail ENODEV, err_pci_post_init (st\<lparr>held := H, dev := d, msi := ms\<rparr>))
      | Crash f \<Rightarrow> (Crash f, st\<lparr>held := H, dev := d, msi := ms\<rparr>))"
proof -
  let ?r = "setup_io_regions_pci (resource_len k) (iomap k) (dev st)"
  let ?st1 = "setup_regions ?r st"
  define st2 where "st2 = (if platform_fvd (k_mach k) then ?st1\<lparr>dev := patch_bar0 (dev ?st1)\<rparr> else ?st1)"
  have st1: "?st1 = st\<lparr>dev := snd ?r, held := B + {#Pci_device, Regions#} + bar_maps (snd ?r)\<rparr>"
    by (simp add: setup_regions_def B)
  have st2: "held st2 = B + {#Pci_device, Regions#} + bar_maps (dev st2)" "banks_kept (snd ?r) (dev st2)" "msi_ready st2"
      "st2\<lparr>held := H, dev := d, msi := ms\<rparr> = st\<lparr>held := H, dev := d, msi := ms\<rparr>" for H d ms
    using banks_kept_maps [OF patch_bar0_banks(1)] ready(1) by (auto simp: st2_def st1 msi_ready_def)
  obtain r2 st3 where p: "bifrost_pci_probe_post_init k st2 = (r2, st3)" by (cases "bifrost_pci_probe_post_init k st2")
  have "fvd_ok k (held st2)" using ok st2(1) by (simp add: fvd_ok_def)
  from post_init_result [OF st2(3) ready(2) this p] obtain H d ms where
    h: "st3 = st\<lparr>held := H, dev := d, msi := ms\<rparr>" "post_outcome k st2 r2 H d ms" using st2(4) by auto
  then have b: "banks_kept (dev st2) d" by (simp add: post_outcome_def)
  have "kept (dev st) d" using kept_trans [OF kept_trans [OF setup_pci_fields(1) kept_banks [OF st2(2)]] kept_banks [OF b]] .
  moreover have "held st2 = B + {#Pci_device, Regions#} + bar_maps d" using st2(1) banks_kept_maps [OF b] by simp
  moreover have "(acquire Sysfs_group st3)\<lparr>pdev := True\<rparr> = st\<lparr>held := add_mset Sysfs_group H, dev := d, msi := ms, pdev := True\<rparr>"
    using h(1) by (simp add: acquire_def upd_order upd_order2)
  ultimately show thesis
    using h nb p by (intro that [of st2 r2 H d ms])
      (auto simp: probe_regions_def Let_def nbars_def st2_def [symmetric] split: res.splits)
qed

lemma probe_regions_few:
  assumes "msi_ready st" and B: "held st = B + {#Pci_device, Regions#}" and nb: "nbars k st < 2" and run: "probe_regions k st = (r, st')"
  shows "\<exists>H d ms pd. st' = st\<lparr>held := H, dev := d, msi := ms, pdev := pd\<rparr> \<and> regions_outcome k B st r H d ms"
proof -
  let ?r = "setup_io_regions_pci (resource_len k) (iomap k) (dev st)"
  have st1: "setup_regions ?r st = st\<lparr>held := B + {#Pci_device, Regions#} + bar_maps (snd ?r), dev := snd ?r\<rparr>"
    by (simp add: setup_regions_def B upd_order3)
  then have "err_pci_iomap_regb (setup_regions ?r st) = st\<lparr>held := B + bar_maps (snd ?r), dev := snd ?r, msi := msi st, pdev := False\<rparr>"
    using err_iomap_result [of "setup_regions ?r st" B "bar_maps (snd ?r)"] by (cases st) simp
  then have "r = Fail ENODEV" "st' = st\<lparr>held := B + bar_maps (snd ?r), dev := snd ?r, msi := msi st, pdev := False\<rparr>"
    using run nb by (auto simp: probe_regions_def Let_def nbars_def)
  moreover have "regions_outcome k B st (Fail ENODEV) (B + bar_maps (snd ?r)) (snd ?r) (msi st)"
    using nb assms(1) by (simp add: regions_outcome_def msi_ready_def)
  ultimately show ?thesis by blast
qed

lemma probe_regions_result:
  assumes ready: "msi_ready st" "irqs_fit k" and B: "held st = B + {#Pci_device, Regions#}" and ok: "fvd_ok k B" and run: "probe_regions k st = (r, st')"
  shows "\<exists>H d ms pd. st' = st\<lparr>held := H, dev := d, msi := ms, pdev := pd\<rparr> \<and> regions_outcome k B st r H d ms"
proof (cases "nbars k st < 2")
  case True
  then show ?thesis by (rule probe_regions_few [OF ready(1) B _ run])
next
  case nb: False
  then have two: "2 \<le> nbars k st" by simp
  from probe_regions_start [OF ready B ok two] obtain st2 r2 H d ms where
    o: "post_outcome k st2 r2 H d ms" "held st2 = B + {#Pci_device, Regions#} + bar_maps d" "kept (dev st) d" and
    eq: "probe_regions k st = (case r2 of
        Done _ \<Rightarrow> if sysfs_create_group k then (Done (), st\<lparr>held := add_mset Sysfs_group H, dev := d, msi := ms, pdev := True\<rparr>)
          else (Fail ENODEV, err_pci_post_init (st\<lparr>held := H, dev := d, msi := ms\<rparr>))
      | Fail e \<Rightarrow> (Fail ENODEV, err_pci_post_init (st\<lparr>held := H, dev := d, msi := ms\<rparr>))
      | Crash f \<Rightarrow> (Crash f, st\<lparr>held := H, dev := d, msi := ms\<rparr>))" .
  have err: "err_pci_post_init (st\<lparr>held := H, dev := d, msi := ms\<rparr>) = st\<lparr>held := B + X, dev := remove_io_regions d, msi := ms, pdev := False\<rparr>"
    if "H = B + {#Pci_device, Regions#} + bar_maps d + X" for X
    using err_post_init_result [of "st\<lparr>held := H, dev := d, msi := ms\<rparr>" B X] that by (simp add: upd_order)
  show ?thesis
  proof (cases r2)
    case (Done u)
    then obtain F where F: "H = B + {#Pci_device, Regions#} + bar_maps d + ({#Dma_memory#} + attached ms + F)" "fvd_part k F"
        "kzalloc_ctl k" "dctl d \<noteq> None" "length ms = 32"
      using o(1,2) by (auto simp: post_outcome_def)
    let ?d = "if sysfs_create_group k then d else remove_io_regions d"
    let ?H = "if sysfs_create_group k then add_mset Sysfs_group H else B + ({#Dma_memory#} + attached ms + F)"
    have "st' = st\<lparr>held := ?H, dev := ?d, msi := ms, pdev := sysfs_create_group k\<rparr>"
      using run eq Done err [OF F(1)] by (auto split: if_splits)
    moreover have "regions_outcome k B st r ?H ?d ms"
      using run eq Done F o(3) two by (auto simp: regions_outcome_def fvd_part_def split: if_splits)
    ultimately show ?thesis by blast
  next
    case (Fail e)
    then have H: "H = B + {#Pci_device, Regions#} + bar_maps d + {#}" "platform_fvd (k_mach k) \<or> \<not> kzalloc_ctl k" "length ms = 32"
      using o(1,2) by (auto simp: post_outcome_def)
    have "st' = st\<lparr>held := B, dev := remove_io_regions d, msi := ms, pdev := False\<rparr>" "r = Fail ENODEV"
      using run eq Fail err [OF H(1)] by auto
    moreover have "regions_outcome k B st (Fail ENODEV) B (remove_io_regions d) ms"
      using H(2,3) o(3) two by (auto simp: regions_outcome_def)
    ultimately show ?thesis by blast
  next
    case (Crash c)
    then have "st' = st\<lparr>held := H, dev := d, msi := ms, pdev := pdev st\<rparr>" "r = Crash c" using run eq by (cases st; auto)+
    moreover have "regions_outcome k B st (Crash c) H d ms"
      using Crash o(1,3) by (simp add: regions_outcome_def post_outcome_def)
    ultimately show ?thesis by blast
  qed
qed

text \<open>The steps of the probe before the regions are claimed.\<close>

definition config_ok :: "'s bif_kernel \<Rightarrow> 's \<Rightarrow> bool" where
  "config_ok k c = (case pcie_set_mps k 128 c of
     (Done _, c) \<Rightarrow> (case pcie_set_ext_tag k c of (Done _, _) \<Rightarrow> True | _ \<Rightarrow> False)
   | _ \<Rightarrow> False)"

lemma probe_config:
  "\<exists>c. bifrost_pci_probe k st =
     (if \<not> pci_enable_device k then (Fail ENODEV, st)
      else if \<not> pcie_set_readrq k \<or> \<not> config_ok k (cfg st) then (Fail ENODEV, (acquire Pci_device st)\<lparr>cfg := c\<rparr>)
      else probe_interrupts k ((acquire Pci_device st)\<lparr>cfg := c\<rparr>))"
proof (cases "pcie_set_readrq k")
  case False
  have "(acquire Pci_device st)\<lparr>cfg := cfg st\<rparr> = acquire Pci_device st" by (cases st) (simp add: acquire_def)
  then show ?thesis using False by (intro exI [of _ "cfg st"]) (simp add: bifrost_pci_probe_def Let_def)
next
  case True
  have c: "cfg (acquire Pci_device st) = cfg st" by (simp add: acquire_def)
  obtain r1 c1 where m: "pcie_set_mps k 128 (cfg st) = (r1, c1)" by (cases "pcie_set_mps k 128 (cfg st)")
  obtain r2 c2 where t: "pcie_set_ext_tag k c1 = (r2, c2)" by (cases "pcie_set_ext_tag k c1")
  show ?thesis
  proof (cases "\<exists>u. r1 = Done u")
    case d: True
    then show ?thesis using True m t c
      by (intro exI [of _ c2]) (cases r2; auto simp: bifrost_pci_probe_def Let_def config_ok_def)
  next
    case False
    then show ?thesis using True m c
      by (intro exI [of _ c1]) (cases r1; auto simp: bifrost_pci_probe_def Let_def config_ok_def)
  qed
qed

text \<open>What a probe adds to what is held, for each way it can go.\<close>

definition probe_succeeds :: "'s bif_kernel \<Rightarrow> 's load_state \<Rightarrow> bool" where
  "probe_succeeds k st \<longleftrightarrow> pci_enable_device k \<and> pcie_set_readrq k \<and> config_ok k (cfg st) \<and> pci_enable_msi k
     \<and> pci_request_regions k \<and> nbars k st \<ge> 2 \<and> kzalloc_ctl k \<and> sysfs_create_group k"

lemma probe_interrupts_result:
  assumes ready: "msi_ready st" "irqs_fit k" and ok: "fvd_ok k (held st)" and run: "probe_interrupts k st = (r, st')"
    and B: "held st = add_mset Pci_device B"
  shows "length (msi st') = 32 \<and> kept (dev st) (dev st') \<and> bound st' = bound st \<and> cdev_initialized st' = cdev_initialized st
     \<and> (r = Done () \<longrightarrow> (\<exists>F. held st' = B + {#Pci_device, Regions, Dma_memory, Sysfs_group, Msi#} + bar_maps (dev st') + attached (msi st') + F
          \<and> fvd_part k F) \<and> dctl (dev st') \<noteq> None
          \<and> pci_enable_msi k \<and> pci_request_regions k \<and> 2 \<le> nbars k st \<and> kzalloc_ctl k \<and> sysfs_create_group k)
     \<and> (\<not> platform_fvd (k_mach k) \<and> pci_enable_msi k \<and> pci_request_regions k \<and> 2 \<le> nbars k st \<and> kzalloc_ctl k
          \<and> sysfs_create_group k \<longrightarrow> r = Done ())
     \<and> ((\<exists>e. r = Fail e) \<longrightarrow>
          (if \<not> pci_enable_msi k then held st' = held st \<and> dctl (dev st') = dctl (dev st)
           else if \<not> pci_request_regions k then held st' = B + {#Msi#} \<and> dctl (dev st') = dctl (dev st)
           else if nbars k st < 2 then held st' = B + {#Msi#} + bar_maps (dev st')
           else if sysfs_create_group k \<or> \<not> kzalloc_ctl k then held st' = B + {#Msi#}
           else \<not> platform_fvd (k_mach k) \<longrightarrow> held st' = B + {#Dma_memory, Msi#} + attached (msi st')))
     \<and> (\<not> platform_fvd (k_mach k) \<longrightarrow> (\<forall>c. r \<noteq> Crash c))"
proof -
  define st1 where "st1 = (if platform_fvd (k_mach k) then st\<lparr>msi_interrupts := 1\<rparr> else st)"
  have st1: "held st1 = add_mset Pci_device B" "dev st1 = dev st" "msi st1 = msi st" "bound st1 = bound st"
      "cdev_initialized st1 = cdev_initialized st" "msi_interrupts st1 \<le> 32"
    using B ready(1) by (auto simp: st1_def msi_ready_def)
  show ?thesis
  proof (cases "pci_enable_msi k \<and> pci_request_regions k")
    case False
    then show ?thesis using run B st1 ready(1)
      by (auto simp: probe_interrupts_def Let_def st1_def [symmetric] acquire_def err_pci_request_def release_def msi_ready_def
          split: if_splits)
  next
    case True
    let ?st2 = "acquire Regions (acquire Msi st1)"
    have p: "probe_regions k ?st2 = (r, st')"
      using run True by (simp add: probe_interrupts_def Let_def st1_def)
    have h: "held ?st2 = (B + {#Msi#}) + {#Pci_device, Regions#}" using st1(1) by (simp add: acquire_def)
    have o: "fvd_ok k (B + {#Msi#})" using ok B by (simp add: fvd_ok_def)
    have rd: "msi_ready ?st2" using ready(1) st1(3,6) by (simp add: msi_ready_def acquire_def)
    have nb: "nbars k ?st2 = nbars k st" using st1(2) by (simp add: nbars_def acquire_def)
    from probe_regions_result [OF rd ready(2) h o p] obtain H d ms pd where
      q: "st' = ?st2\<lparr>held := H, dev := d, msi := ms, pdev := pd\<rparr>" "regions_outcome k (B + {#Msi#}) ?st2 r H d ms" by blast
    have f: "dev ?st2 = dev st" "bound ?st2 = bound st" "cdev_initialized ?st2 = cdev_initialized st"
      using st1 by (simp_all add: acquire_def)
    show ?thesis
      using q f nb True by (cases r) (auto simp: regions_outcome_def ac_simps split: if_splits)
  qed
qed

lemmas probe_length = probe_interrupts_result [THEN conjunct1]
lemmas probe_kept = probe_interrupts_result [THEN conjunct2, THEN conjunct1]
lemmas probe_bound = probe_interrupts_result [THEN conjunct2, THEN conjunct2, THEN conjunct1]
lemmas probe_done = probe_interrupts_result [THEN conjunct2, THEN conjunct2, THEN conjunct2, THEN conjunct2, THEN conjunct1, rule_format]
lemmas probe_done_if = probe_interrupts_result [THEN conjunct2, THEN conjunct2, THEN conjunct2, THEN conjunct2, THEN conjunct2, THEN conjunct1, rule_format]
lemmas probe_failed = probe_interrupts_result [THEN conjunct2, THEN conjunct2, THEN conjunct2, THEN conjunct2, THEN conjunct2, THEN conjunct2, THEN conjunct1, rule_format]
lemmas probe_returns = probe_interrupts_result [THEN conjunct2, THEN conjunct2, THEN conjunct2, THEN conjunct2, THEN conjunct2, THEN conjunct2, THEN conjunct2, rule_format]

lemma probe_failed_holds:
  assumes pre: "msi_ready st1" "irqs_fit k" "fvd_ok k (held st1)" "probe_interrupts k st1 = (r, st')" "held st1 = add_mset Pci_device B"
    and "\<not> platform_fvd (k_mach k)" and fail: "r = Fail e"
  shows "held st' = B + (if \<not> pci_enable_msi k then {#Pci_device#}
           else if \<not> pci_request_regions k then {#Msi#}
           else if nbars k st1 < 2 then {#Msi#} + bar_maps (dev st')
           else if sysfs_create_group k \<or> \<not> kzalloc_ctl k then {#Msi#}
           else {#Dma_memory, Msi#} + attached (msi st'))"
proof -
  have "if \<not> pci_enable_msi k then held st' = held st1 \<and> dctl (dev st') = dctl (dev st1)
       else if \<not> pci_request_regions k then held st' = B + {#Msi#} \<and> dctl (dev st') = dctl (dev st1)
       else if nbars k st1 < 2 then held st' = B + {#Msi#} + bar_maps (dev st')
       else if sysfs_create_group k \<or> \<not> kzalloc_ctl k then held st' = B + {#Msi#}
       else \<not> platform_fvd (k_mach k) \<longrightarrow> held st' = B + {#Dma_memory, Msi#} + attached (msi st')"
    using probe_failed [OF pre] fail by blast
  then show ?thesis using assms(5,6) by (simp split: if_splits)
qed


text \<open>Attaching the message-signaled interrupts and detaching them. Every vector that has a handler
  and whose interrupt the kernel grants is attached, at the base interrupt plus its number, and
  no other is; detaching gives back exactly those and leaves the table as it was, so that it can be
  attached again.\<close>

theorem msi_attach_detach:
  assumes "msi_ready st" and "irqs_fit k"
  shows "let st1 = bifrost_attach_msis_to_irq k (pci_irq k) st; st2 = bifrost_detach_msis st1
     in (\<forall>n<32. msi_irq (msi st1 ! n) = (if n < msi_interrupts st \<and> granted k (used_table k st) n then irq_of k n else NO_IRQ))
        \<and> held st1 = held st + attached (msi st1) \<and> held st2 = held st \<and> msi_ready st2"
proof -
  obtain ms where ms: "bifrost_attach_msis_to_irq k (pci_irq k) st = st\<lparr>held := held st + attached ms, msi := ms\<rparr>"
      "attached_upto k (msi_interrupts st) (used_table k st) ms" "length ms = 32"
    using attach_result [OF assms] by blast
  then show ?thesis
    using assms(1) by (simp add: Let_def detach_result attached_upto_def msi_ready_def)
qed

section \<open>PCI Express\<close>

text \<open>A write to the configuration space is what the next read of its word gives.\<close>

definition config_reads_back :: "'s bif_kernel \<Rightarrow> bool" where
  "config_reads_back k \<longleftrightarrow> (\<forall>off v c c'. write_config_dword k off v c = (Done (), c') \<longrightarrow>
     read_config_word k off c' = Done (ucast v))"

lemma payload_128: "payload_field 128 = 0"
  by (simp add: payload_field_def ffs_def upt_rec)

lemma ucast16: "ucast (ucast (v :: u16) :: u32) = v"
  by (rule bit_word_eqI) (simp add: bit_simps)

lemma and_not_id: "(x :: u16) AND y = 0 \<Longrightarrow> x AND NOT y = x"
  by (auto simp: bit_eq_iff bit_simps)

lemma or_exp_bit: "bit (x :: u16) n \<Longrightarrow> x OR 2 ^ n = x"
  by (rule bit_word_eqI) (auto simp: bit_simps)

lemma and_or_bit: "(x :: u16) AND PCI_EXP_DEVCTL_EXT_TAG = 0 \<or> x OR PCI_EXP_DEVCTL_EXT_TAG = x"
proof -
  have e: "PCI_EXP_DEVCTL_EXT_TAG = 2 ^ 8" by (simp add: PCI_EXP_DEVCTL_EXT_TAG_def)
  show ?thesis
  proof (cases "bit x 8")
    case True
    then show ?thesis unfolding e by (intro disjI2 or_exp_bit)
  next
    case False
    then show ?thesis unfolding e by (intro disjI1) (simp only: and_exp_eq_0_iff_not_bit not_False_eq_True)
  qed
qed

text \<open>After the two configuration steps of a probe have succeeded the device control register has
  payloads of 128 bytes and extended tags, and every other bit is as before.\<close>

theorem pcie_device_control:
  assumes "config_reads_back k" and "read_config_word k (pcie_cap k + PCI_EXP_DEVCTL) c = Done ctl"
    and "pcie_set_mps k 128 c = (Done (), c1)" and "pcie_set_ext_tag k c1 = (Done (), c2)"
  shows "read_config_word k (pcie_cap k + PCI_EXP_DEVCTL) c2
     = Done ((ctl AND NOT PCI_EXP_DEVCTL_PAYLOAD) OR PCI_EXP_DEVCTL_EXT_TAG)"
proof -
  let ?off = "pcie_cap k + PCI_EXP_DEVCTL"
  let ?ctl1 = "ctl AND NOT PCI_EXP_DEVCTL_PAYLOAD"
  have w: "write_config_dword k ?off (ucast v) a = (Done (), b) \<Longrightarrow> read_config_word k ?off b = Done v" for v a b
    using assms(1) ucast16 [of v] by (simp add: config_reads_back_def)
  have "read_config_word k ?off c1 = Done ?ctl1"
  proof (cases "ctl AND PCI_EXP_DEVCTL_PAYLOAD = 0")
    case True
    then have "?ctl1 = ctl" by (rule and_not_id)
    then show ?thesis using assms(2,3) True by (auto simp: pcie_set_mps_def payload_128 Let_def split: if_splits)
  next
    case False
    then have "write_config_dword k ?off (ucast ?ctl1) c = (Done (), c1)"
      using assms(2,3) by (auto simp: pcie_set_mps_def payload_128 Let_def split: if_splits)
    then show ?thesis by (rule w)
  qed
  moreover have "?ctl1 AND PCI_EXP_DEVCTL_EXT_TAG = 0 \<or> ?ctl1 OR PCI_EXP_DEVCTL_EXT_TAG = ?ctl1"
    by (rule and_or_bit)
  ultimately show ?thesis
    using assms(4) w by (auto simp: pcie_set_ext_tag_def split: if_splits)
qed

section \<open>The properties at work\<close>

text \<open>A kernel that grants everything except perhaps the FPGA interrupts, with a PCI device whose configuration is one register.\<close>

definition demo_kernel :: "machine \<Rightarrow> errno option \<Rightarrow> u16 bif_kernel" where
  "demo_kernel mach e =
     \<lparr>k_mach = mach, k_hw = (\<lambda>_. 2), k_membus = 0, kzalloc_bdev = True, mempool_create = True, create_workqueue = True,
      pci_register_driver = None, device_present = True, pci_irq = 100, pci_enable_device = True, pcie_set_readrq = True,
      pcie_cap = 0x70, read_config_word = (\<lambda>_ c. Done c), write_config_dword = (\<lambda>_ v _. (Done (), ucast v)),
      pci_enable_msi = True, pci_request_regions = True, resource_len = (\<lambda>_. 0x1000), iomap = (\<lambda>_. True),
      request_irq = (\<lambda>_. True), kzalloc_ctl = True, sysfs_create_group = True, platform_device_alloc = True,
      gpio_is_valid = (\<lambda>_. True), gpio_request = (\<lambda>_. True), fpga_request_irq = (\<lambda>_. e),
      alloc_chrdev_region = None, cdev_add_error = None\<rparr>"

definition demo_start :: "u16 load_state" where
  "demo_start =
     \<lparr>held = {#}, dev = zero_device False, msi = msi_table, msi_interrupts = 32, cfg = 0x20, pdev = False,
      bound = False, cdev_initialized = False\<rparr>"

lemma demo_ready: "msi_ready demo_start" "irqs_fit (demo_kernel mach e)"
  by (simp_all add: msi_ready_def demo_start_def msi_table_def all_off_def MSI_ENABLE_def MSI_DISABLED_def irqs_fit_def
      demo_kernel_def)

lemma demo_config: "config_ok (demo_kernel mach e) 0x20" "config_reads_back (demo_kernel mach e)"
    "pcie_set_mps (demo_kernel mach e) 128 0x20 = (Done (), 0)" "pcie_set_ext_tag (demo_kernel mach e) 0 = (Done (), 0x100)"
proof -
  have p: "is_power_of_2 128" by (simp add: is_power_of_2_def)
  show mps: "pcie_set_mps (demo_kernel mach e) 128 0x20 = (Done (), 0)"
    by (simp add: pcie_set_mps_def p demo_kernel_def PCI_EXP_DEVCTL_PAYLOAD_def payload_128)
  show tag: "pcie_set_ext_tag (demo_kernel mach e) 0 = (Done (), 0x100)"
    by (simp add: pcie_set_ext_tag_def demo_kernel_def PCI_EXP_DEVCTL_EXT_TAG_def)
  show "config_ok (demo_kernel mach e) 0x20" by (simp add: config_ok_def mps tag)
  show "config_reads_back (demo_kernel mach e)" by (simp add: config_reads_back_def demo_kernel_def)
qed

lemma demo_bars: "nbars (demo_kernel mach e) st = 6"
  by (simp add: nbars_def setup_io_regions_pci_def Let_def map_device_memory_pci_def init_device_memory_pci_def demo_kernel_def
      upt_rec)

definition no_fvd :: machine where "no_fvd = (\<lambda>_. False)"
definition rocky :: machine where "rocky = (\<lambda>m. m = ''fsl,imx6q'')"

lemma demo_platforms: "\<not> platform_fvd no_fvd" "platform_fvd rocky"
  by (simp_all add: platform_fvd_def platform_rocky_def platform_evander_def platform_eoco_def platform_ec702_def no_fvd_def rocky_def)

lemma demo_succeeds: "cfg st = 0x20 \<Longrightarrow> probe_succeeds (demo_kernel mach e) st"
  using demo_config(1) [of mach] by (simp add: probe_succeeds_def demo_bars) (simp add: demo_kernel_def)


theorem msi_attach_detach_witness:
  "held (bifrost_detach_msis (bifrost_attach_msis_to_irq (demo_kernel no_fvd None) 100 demo_start)) = {#}
   \<and> msi_irq (msi (bifrost_attach_msis_to_irq (demo_kernel no_fvd None) 100 demo_start) ! 8) = 108"
proof -
  have "granted (demo_kernel no_fvd None) (used_table (demo_kernel no_fvd None) demo_start) 8"
    using demo_platforms(1) by (simp add: granted_def used_table_def demo_kernel_def demo_start_def msi_table_def MSI_ENABLE_def)
  then show ?thesis
    using msi_attach_detach [OF demo_ready, of no_fvd None] by (simp add: Let_def demo_kernel_def demo_start_def irq_of_def)
qed

theorem pcie_device_control_witness:
  "read_config_word (demo_kernel no_fvd None) 0x78 0x100 = Done ((0x20 AND NOT PCI_EXP_DEVCTL_PAYLOAD) OR PCI_EXP_DEVCTL_EXT_TAG)"
proof -
  have r: "read_config_word (demo_kernel no_fvd None) (pcie_cap (demo_kernel no_fvd None) + PCI_EXP_DEVCTL) 0x20 = Done 0x20"
    "pcie_cap (demo_kernel no_fvd None) + PCI_EXP_DEVCTL = 0x78"
    by (simp_all add: demo_kernel_def PCI_EXP_DEVCTL_def)
  from pcie_device_control [OF demo_config(2) r(1) demo_config(3,4)] show ?thesis unfolding r(2) .
qed

end
