(* ===== verification/BifrostLife.thy ===== *)
theory BifrostLife
  imports BifrostLoadProps
begin

text \<open>
  The life of the bifrost module: a load, a run of the driver and an unload, which balance, and what
  goes wrong when the FPGA interrupts of the FVD platforms cannot be set up.
\<close>

section \<open>Loading and unloading the module\<close>

lemma fvd_free_attached_maps: "fvd_free H \<Longrightarrow> fvd_free (H + {#Pci_device, Regions, Sysfs_group, Msi#} + bar_maps d + attached ms)"
  by simp

lemma pci_remove_result:
  assumes h: "held st = H + {#Pci_device, Regions, Sysfs_group, Msi#} + bar_maps (dev st) + attached (msi st) + F"
    and F: "fvd_part k F" and free: "fvd_free H" and len: "length (msi st) = 32"
  shows "\<exists>st'. bifrost_pci_remove k st = (Done (), st') \<and> held st' = H"
proof -
  let ?G = "H + {#Pci_device, Regions, Sysfs_group, Msi#} + bar_maps (dev st) + attached (msi st)"
  have "(if platform_fvd (k_mach k) then bifrost_fvd_exit st else (Done (), st)) = (Done (), st\<lparr>held := ?G\<rparr>)"
  proof (cases "platform_fvd (k_mach k)")
    case True
    then obtain X where X: "F = add_mset Fvd_device X" "X \<subseteq># fvd_managed" using F by (auto simp: fvd_part_def)
    have "held st = ?G + add_mset Fvd_device X" using h X(1) by simp
    from fvd_exit_result [OF this fvd_free_attached_maps [OF free] X(2)] show ?thesis using True by simp
  next
    case False
    then have "held st = ?G" using h F by (simp add: fvd_part_def)
    then have "st = st\<lparr>held := ?G\<rparr>" by (cases st) simp
    then show ?thesis using False by simp
  qed
  then show ?thesis
    using len by (simp add: bifrost_pci_remove_def release_def detach_result remove_regions_def)
qed

lemma bifrost_dma_cleanup_result:
  "bifrost_dma_cleanup st = (if dctl (dev st) = None then (Done (), st)
     else if Dma_memory \<notin># held st then (Crash Use_after_free, st) else (Done (), st\<lparr>held := held st - {#Dma_memory#}\<rparr>))"
  by (simp add: bifrost_dma_cleanup_def release_def)

lemma pci_exit_bound:
  assumes h: "held st = H + {#Pci_driver, Pci_device, Regions, Dma_memory, Sysfs_group, Msi#} + bar_maps (dev st) + attached (msi st) + F"
    and F: "fvd_part k F" and free: "fvd_free H" and len: "length (msi st) = 32"
    and "bound st" and "dctl (dev st) \<noteq> None"
  shows "\<exists>st'. bifrost_pci_exit k st = (Done (), st') \<and> held st' = H"
proof -
  let ?G = "add_mset Pci_driver H + {#Pci_device, Regions, Sysfs_group, Msi#} + bar_maps (dev st) + attached (msi st) + F"
  let ?st1 = "st\<lparr>held := ?G, bound := False\<rparr>"
  have c: "bifrost_dma_cleanup st = (Done (), st\<lparr>held := ?G\<rparr>)"
    using h assms(6) by (cases "dctl (dev st)") (simp_all add: bifrost_dma_cleanup_result)
  have "held ?st1 = add_mset Pci_driver H + {#Pci_device, Regions, Sysfs_group, Msi#} + bar_maps (dev ?st1) + attached (msi ?st1) + F"
    by simp
  from pci_remove_result [OF this F] obtain st2 where "bifrost_pci_remove k ?st1 = (Done (), st2)" "held st2 = add_mset Pci_driver H"
    using free len by auto
  then show ?thesis
    using c assms(5) by (simp add: bifrost_pci_exit_def release_def)
qed

lemma membus_init_result:
  assumes run: "bifrost_membus_init k st = (Done (), st')" and pins: "\<forall>n<3. gpio_is_valid k n" and free: "fvd_free (held st)"
  shows "\<exists>X. held st' = held st + bar_maps (dev st') + add_mset Fvd_device X \<and> X \<subseteq># fvd_managed \<and> kept (dev st) (dev st')"
proof -
  let ?r = "setup_io_regions_membus (iomap k) (dev st)"
  let ?st1 = "setup_regions ?r st"
  have m: "kept (dev st) (snd ?r)" by simp
  obtain r2 st2 where f: "bifrost_fvd_init k ?st1 = (r2, st2)" by (cases "bifrost_fvd_init k ?st1")
  have r2: "r2 = Done ()" "st2 = st'"
    using run f by (auto simp: bifrost_membus_init_def Let_def split: if_splits res.splits)
  have "fvd_free (held ?st1)" using free by (simp add: setup_regions_def)
  from fvd_init_result [OF this f pins] obtain H where H: "st2 = ?st1\<lparr>held := H\<rparr>"
      "r2 = Done () \<longrightarrow> (\<exists>X. H = held ?st1 + add_mset Fvd_device X \<and> X \<subseteq># fvd_managed)"
    by (elim exE conjE) (rule that, assumption+)
  then obtain X where "H = held ?st1 + add_mset Fvd_device X" "X \<subseteq># fvd_managed" using r2(1) by blast
  then show ?thesis using H(1) r2(2) m by (intro exI [of _ X]) (auto simp: setup_regions_def ac_simps)
qed

lemma pci_init_result:
  assumes run: "bifrost_pci_init k st = (Done (), st')" and ready: "msi_ready st" "irqs_fit k" and ok: "fvd_ok k (held st)"
    and "\<not> bound st" and "\<not> device_present k \<or> bound st'"
  shows "kept (dev st) (dev st') \<and> length (msi st') = 32 \<and>
     (if bound st' then (\<exists>F. held st' = held st + {#Pci_driver, Pci_device, Regions, Dma_memory, Sysfs_group, Msi#}
          + bar_maps (dev st') + attached (msi st') + F \<and> fvd_part k F) \<and> dctl (dev st') \<noteq> None
      else held st' = add_mset Pci_driver (held st) \<and> dev st' = dev st)"
proof (cases "device_present k")
  case False
  then show ?thesis using run assms(5) ready(1)
    by (auto simp: bifrost_pci_init_def acquire_def msi_ready_def split: option.splits)
next
  case True
  let ?st1 = "acquire Pci_driver st"
  obtain r st2 where p: "bifrost_pci_probe k ?st1 = (r, st2)" by (cases "bifrost_pci_probe k ?st1")
  from probe_config [of k ?st1] obtain c where c: "bifrost_pci_probe k ?st1 =
     (if \<not> pci_enable_device k then (Fail ENODEV, ?st1)
      else if \<not> pcie_set_readrq k \<or> \<not> config_ok k (cfg ?st1) then (Fail ENODEV, (acquire Pci_device ?st1)\<lparr>cfg := c\<rparr>)
      else probe_interrupts k ((acquire Pci_device ?st1)\<lparr>cfg := c\<rparr>))" ..
  let ?st2 = "(acquire Pci_device ?st1)\<lparr>cfg := c\<rparr>"
  have f: "msi_ready ?st2" "fvd_ok k (held ?st2)" "held ?st2 = add_mset Pci_device (held ?st1)" "bound ?st2 = bound st"
      "dev ?st2 = dev st"
    using ready(1) ok by (simp_all add: msi_ready_def fvd_ok_def acquire_def)
  have b: "bound st2 = bound st" if "bifrost_pci_probe k ?st1 = probe_interrupts k ?st2"
  proof -
    have "probe_interrupts k ?st2 = (r, st2)" using that p by simp
    from probe_bound [OF f(1) ready(2) f(2) this f(3)] show ?thesis using f(4) by simp
  qed
  have r: "r = Done ()" "st' = st2\<lparr>bound := True\<rparr>"
  proof -
    have "bound st2 = bound st" using b c p by (auto simp: acquire_def split: if_splits)
    then show "r = Done ()" "st' = st2\<lparr>bound := True\<rparr>"
      using run p True assms(5,6) by (auto simp: bifrost_pci_init_def split: option.splits res.splits)
  qed
  then have pi: "probe_interrupts k ?st2 = (Done (), st2)" using c p by (auto split: if_splits)
  note q = probe_length [OF f(1) ready(2) f(2) pi f(3)] probe_kept [OF f(1) ready(2) f(2) pi f(3)]
  from probe_done [OF f(1) ready(2) f(2) pi f(3) refl] obtain F where
    "held st2 = held ?st1 + {#Pci_device, Regions, Dma_memory, Sysfs_group, Msi#} + bar_maps (dev st2) + attached (msi st2) + F"
    "fvd_part k F" "dctl (dev st2) \<noteq> None"
    by (elim conjE exE) (rule that, assumption+)
  then show ?thesis using r(2) q f(5) by (auto simp: acquire_def)
qed

text \<open>The state at the unload after a run: the device is \<open>d\<close>, and the buffer kept for DMA may have been
  allocated.\<close>

definition after_run :: "bifrost_device \<Rightarrow> 's load_state \<Rightarrow> 's load_state" where
  "after_run d st = st\<lparr>dev := d, held := held st + (if saved_virt d \<noteq> None then {#Dma_buffer#} else {#})\<rparr>"

text \<open>A run changes neither the banks nor whether there is a DMA controller.\<close>

definition run_keeps :: "bifrost_device \<Rightarrow> bifrost_device \<Rightarrow> bool" where
  "run_keeps d0 d \<longleftrightarrow> regb d = regb d0 \<and> membus d = membus d0 \<and> (dctl d = None \<longleftrightarrow> dctl d0 = None)"

lemma run_keeps_refl [simp]: "run_keeps d d"
  by (simp add: run_keeps_def)

lemma run_keeps_trans: "run_keeps d d1 \<Longrightarrow> run_keeps d1 d2 \<Longrightarrow> run_keeps d d2"
  by (simp add: run_keeps_def)

definition load_base :: "bif_resource multiset" where
  "load_base = {#Bdev, Work_pool, Work_queue#}"

definition cdev_part :: "bif_resource multiset" where
  "cdev_part = {#Chrdev_region, Cdev, Class, Device_node#}"

lemma cdev_init_result:
  "bifrost_cdev_init k st = (Done (), st') \<Longrightarrow> st' = st\<lparr>held := held st + cdev_part, cdev_initialized := True\<rparr>"
  by (auto simp: bifrost_cdev_init_def acquire_def Let_def cdev_part_def add_mset_commute split: option.splits)

lemma cdev_exit_result:
  assumes "held st = H + cdev_part" and "cdev_initialized st"
  shows "bifrost_cdev_exit (after_run d st) = st\<lparr>dev := d, held := H\<rparr>"
  using assms by (simp add: bifrost_cdev_exit_def after_run_def release_def cdev_part_def)

text \<open>A load that succeeded, taken apart.\<close>

lemma bifrost_init_done:
  assumes "bifrost_init k st0 = (Done (), st)"
  shows "\<exists>st1 st2. held st1 = held st0 + load_base \<and> msi st1 = msi st0 \<and> msi_interrupts st1 = msi_interrupts st0
     \<and> bound st1 = bound st0 \<and> dev st1 = zero_device (k_membus k > 0)
     \<and> (if k_membus k > 0 then bifrost_membus_init k st1 else bifrost_pci_init k st1) = (Done (), st2)
     \<and> st = st2\<lparr>held := held st2 + cdev_part, cdev_initialized := True\<rparr>"
proof -
  define st1 where "st1 = acquire Work_queue (acquire Work_pool
    ((acquire Bdev st0)\<lparr>dev := zero_device (k_membus k > 0), pdev := False, cdev_initialized := False\<rparr>))"
  have m: "membus (zero_device b) = b" for b by (simp add: zero_device_def)
  obtain r st2 where i: "(if k_membus k > 0 then bifrost_membus_init k st1 else bifrost_pci_init k st1) = (r, st2)"
    by (cases "if k_membus k > 0 then bifrost_membus_init k st1 else bifrost_pci_init k st1")
  have "r = Done ()" "bifrost_cdev_init k st2 = (Done (), st)"
    using assms i by (auto simp: bifrost_init_def Let_def m acquire_def err_pci_def st1_def split: if_splits res.splits prod.splits)
  then show ?thesis
    using i cdev_init_result by (intro exI [of _ st1] exI [of _ st2]) (auto simp: st1_def acquire_def load_base_def)
qed

text \<open>The state \<open>st3\<close> after the character device is gone: what the run left of the device, and what the bus
  interface held when it was set up.\<close>

lemma unload_membus:
  assumes run: "bifrost_membus_init k st1 = (Done (), st2)" and pins: "\<forall>n<3. gpio_is_valid k n"
    and base: "held st1 = load_base" "membus (dev st1)"
    and st3: "held st3 = held st2" "bar_maps (dev st3) = bar_maps (dev st2)" "membus (dev st3) = membus (dev st2)"
  shows "membus (dev st3) \<and> (\<exists>st4. bifrost_membus_exit st3 = (Done (), st4) \<and> held st4 = load_base)"
proof -
  have "fvd_free (held st1)" using base(1) by (simp add: load_base_def)
  from membus_init_result [OF run pins this] obtain X where X: "held st2 = load_base + bar_maps (dev st2) + add_mset Fvd_device X"
      "X \<subseteq># fvd_managed" "membus (dev st2) = membus (dev st1)" using base(1) by (auto simp: kept_def)
  have "held (remove_regions st3) = load_base + add_mset Fvd_device X"
    using st3 X(1) by (simp add: remove_regions_def)
  from fvd_exit_result [OF this _ X(2)] show ?thesis
    using st3(3) X(3) base(2) by (simp add: bifrost_membus_exit_def load_base_def)
qed

lemma unload_pci:
  assumes run: "bifrost_pci_init k st1 = (Done (), st2)" and ready: "msi_ready st1" "irqs_fit k" and pins: "\<forall>n<3. gpio_is_valid k n"
    and base: "held st1 = load_base" "\<not> bound st1" "dev st1 = zero_device False" and probed: "\<not> device_present k \<or> bound st2"
    and st3: "st3 = st2\<lparr>dev := d, cdev_initialized := True\<rparr>" "bar_maps d = bar_maps (dev st2)"
      "membus d = membus (dev st2)" "dctl d = None \<longleftrightarrow> dctl (dev st2) = None"
  shows "\<not> membus (dev st3) \<and> (\<exists>st4. bifrost_pci_exit k st3 = (Done (), st4) \<and> held st4 = load_base)"
proof -
  have "fvd_ok k (held st1)" using base(1) pins by (simp add: fvd_ok_def load_base_def)
  note q = pci_init_result [OF run ready this base(2) probed]
  have nm: "\<not> membus (dev st3)" using st3 q base(3) by (auto simp: kept_def zero_device_def)
  show ?thesis
  proof (cases "bound st2")
    case True
    then obtain F where "held st2 = load_base + {#Pci_driver, Pci_device, Regions, Dma_memory, Sysfs_group, Msi#}
          + bar_maps d + attached (msi st2) + F" "fvd_part k F" "dctl (dev st2) \<noteq> None"
      using q base(1) st3(2) by auto
    then show ?thesis
      using pci_exit_bound [of st3 load_base F k] st3 q True nm by (auto simp: load_base_def)
  next
    case unbound: False
    then have h: "held st2 = add_mset Pci_driver load_base" "dctl d = None"
      using q base(1,3) st3(4) by (auto simp: zero_device_def)
    have "bifrost_pci_exit k st3 = (Done (), release Pci_driver st3)"
      using h(2) st3(1) unbound by (simp add: bifrost_pci_exit_def bifrost_dma_cleanup_result)
    then show ?thesis using h(1) st3(1) nm by (simp add: release_def)
  qed
qed

lemma load_run_unload:
  assumes "msi_ready st0" and "irqs_fit k" and "held st0 = {#}" and "\<not> bound st0" and pins: "\<forall>n<3. gpio_is_valid k n"
    and init: "bifrost_init k st0 = (Done (), st)" and probed: "k_membus k > 0 \<or> \<not> device_present k \<or> bound st"
    and run: "run_keeps (dev st) d"
  shows "\<exists>st'. bifrost_exit k (after_run d st) = (Done (), st') \<and> held st' = {#}"
proof -
  obtain st1 st2 where st1: "held st1 = load_base" "msi_ready st1" "\<not> bound st1" "dev st1 = zero_device (k_membus k > 0)"
    and st2: "(if k_membus k > 0 then bifrost_membus_init k st1 else bifrost_pci_init k st1) = (Done (), st2)"
    and st: "st = st2\<lparr>held := held st2 + cdev_part, cdev_initialized := True\<rparr>"
    using bifrost_init_done [OF init] assms(1,3,4) by (auto simp: msi_ready_def)
  have maps: "bar_maps d = bar_maps (dev st2)" "membus d = membus (dev st2)" "dctl d = None \<longleftrightarrow> dctl (dev st2) = None"
    using run st by (auto simp: run_keeps_def bar_maps_def)
  let ?st3 = "bifrost_cdev_exit (after_run d st)"
  have st3: "?st3 = st2\<lparr>dev := d, cdev_initialized := True\<rparr>" using cdev_exit_result [of st "held st2" d] st by simp
  have "\<exists>st4. (if membus (dev ?st3) then bifrost_membus_exit ?st3 else bifrost_pci_exit k ?st3) = (Done (), st4)
      \<and> held st4 = load_base"
  proof (cases "k_membus k > 0")
    case True
    then have i: "bifrost_membus_init k st1 = (Done (), st2)" "membus (dev st1)"
      using st2 st1(4) by (simp_all add: zero_device_def)
    show ?thesis using unload_membus [OF i(1) pins st1(1) i(2), of ?st3] st3 maps by simp
  next
    case False
    then have i: "bifrost_pci_init k st1 = (Done (), st2)" "dev st1 = zero_device False" "\<not> device_present k \<or> bound st2"
      using st2 st1(4) probed st by simp_all
    show ?thesis using unload_pci [OF i(1) st1(2) assms(2) pins st1(1,3) i(2,3) st3 maps] by simp
  qed
  then show ?thesis by (auto simp: bifrost_exit_def release_def load_base_def)
qed

section \<open>A run of the loaded module\<close>

lemma keeps_on_bus [simp]: "run_keeps d (snd (on_bus prog d))"
  by (simp add: on_bus_def run_keeps_def split: prod.splits)

lemma keeps_extends: "extends mach d d' \<Longrightarrow> run_keeps d d'"
  by (auto simp: extends_def run_keeps_def)

lemma keeps_prepare: "run_keeps d (snd (prepare_dma_buffer io up_down xfer d))"
  by (simp add: prepare_dma_buffer_def Let_def run_keeps_def)

lemma keeps_start_dma: "run_keeps d (snd (dev_start_dma now req d))"
  by (auto simp: dev_start_dma_def run_keeps_def split: option.splits prod.splits)

lemma keeps_do_dma_start:
  "run_keeps d (snd (do_dma_start_xfer io now xfer up_down hnd user d))"
proof (cases "req_alloc io")
  case True
  obtain req counter where rq: "alloc_dma_req (tickets d) hnd = (req, counter)" by fastforce
  let ?d = "d\<lparr>tickets := counter\<rparr>"
  obtain p d1 where p: "(if user then prepare_dma_buffer io up_down xfer ?d else (Done xfer, ?d)) = (p, d1)" by fastforce
  have "run_keeps ?d d1" using p keeps_prepare [of ?d io up_down xfer] by (auto split: if_splits)
  then have k1: "run_keeps d d1" by (simp add: run_keeps_def)
  show ?thesis
  proof (cases p)
    case (Done xfer')
    show ?thesis
    proof (cases "dma_req_for up_down xfer' (if user then req\<lparr>pwork := Some (completion io)\<rparr> else req)")
      case None
      then show ?thesis using True rq p Done k1 by (simp add: do_dma_start_xfer_def)
    next
      case (Some req')
      let ?d2 = "if user then d1\<lparr>live := completion io # live d1\<rparr> else d1"
      obtain r d3 where s: "dev_start_dma now req' ?d2 = (r, d3)" by fastforce
      have "run_keeps d ?d2" using k1 by (simp add: run_keeps_def)
      moreover have "run_keeps ?d2 d3" using keeps_start_dma [of ?d2 now req'] s by simp
      ultimately have "run_keeps d d3" using run_keeps_trans by blast
      moreover have "snd (do_dma_start_xfer io now xfer up_down hnd user d) = d3"
        using True rq p Done Some s by (cases r) (simp_all add: do_dma_start_xfer_def)
      ultimately show ?thesis by simp
    qed
  qed (use True rq p k1 in \<open>simp_all add: do_dma_start_xfer_def\<close>)
qed (simp add: do_dma_start_xfer_def)

lemma keeps_on_bus_result: "on_bus prog d = (r, d') \<Longrightarrow> run_keeps d d'"
  using keeps_on_bus [of d prog] by simp

lemma keeps_membus_xfer: "run_keeps d (snd (membus_xfer hw io xfer up_down d))"
  by (auto simp: membus_xfer_def Let_def dest: keeps_on_bus_result split: prod.splits res.splits)

lemma keeps_counted: "run_keeps (counted d) d' \<Longrightarrow> run_keeps d d'"
  by (simp add: counted_def run_keeps_def)

lemma keeps_ioctl:
  assumes run: "bifrost_ioctl hw mach io now a cmd d = (r, d')"
  shows "run_keeps d d'"
proof (rule keeps_counted, cases "register_command cmd")
  case True
  then have "extends mach (counted d) d'"
    using run by (cases cmd) (simp_all add: bifrost_ioctl_def counted_def [symmetric], (metis ioctl_register_extends snd_conv)+)
  then show "run_keeps (counted d) d'" by (rule keeps_extends)
next
  case reg: False
  show "run_keeps (counted d) d'"
  proof (cases cmd)
    case (START_DMA user up_down xfer)
    have "bifrost_do_xfer hw io now a user up_down xfer (counted d) = (r, d')"
      using run START_DMA by (simp add: bifrost_ioctl_def counted_def)
    then show ?thesis
      using keeps_membus_xfer [of "counted d" hw io xfer up_down] keeps_do_dma_start [of "counted d" io now xfer up_down a user]
      by (auto simp: bifrost_do_xfer_def split: if_splits)
  next
    case DEQUEUE_EVENT
    then show ?thesis using run
      by (auto simp: bifrost_ioctl_def counted_def [symmetric] ioctl_dequeue_def on_handle_def Let_def run_keeps_def
          split: option.splits prod.splits if_splits)
  qed (use run reg in \<open>auto simp: bifrost_ioctl_def counted_def [symmetric] Let_def on_handle_def run_keeps_def split: if_splits\<close>)
qed

lemma keeps_step: "dev_step hw mach d d' \<Longrightarrow> run_keeps d d'"
proof (induction rule: dev_step.induct)
  case (step_dma_irq now mp junk i d d')
  then show ?case
    by (auto simp: dma_msi_handler_def run_keeps_def Let_def split: option.splits prod.splits res.splits if_splits)
next
  case (step_ioctl io now a cmd d d')
  then show ?case using keeps_ioctl by blast
next
  case (step_ioctl_error io now a cmd d e d')
  then show ?case using keeps_ioctl by blast
qed (auto simp: dev_open_def dev_release_def finish_dma_buffer_def default_msi_handler_def dev_isr_def dev_work_def
    run_keeps_def Let_def split: prod.splits if_splits)

text \<open>The steps of the driver from the device that was loaded.\<close>

definition driver_run :: "'s bif_kernel \<Rightarrow> bifrost_device \<Rightarrow> bifrost_device \<Rightarrow> bool" where
  "driver_run k = (dev_step (k_hw k) (k_mach k))\<^sup>*\<^sup>*"

lemma driver_run_result: "driver_run k d d' \<Longrightarrow> run_keeps d d' \<and> (dev_inv d \<longrightarrow> dev_inv d')"
  unfolding driver_run_def
proof (induction rule: rtranclp_induct)
  case (step d1 d2)
  then show ?case using keeps_step run_keeps_trans dev_step_inv by blast
qed simp

lemma loaded_device:
  assumes "msi_ready st0" and "irqs_fit k" and "held st0 = {#}" and "\<not> bound st0" and pins: "\<forall>n<3. gpio_is_valid k n"
    and init: "bifrost_init k st0 = (Done (), st)" and probed: "k_membus k > 0 \<or> \<not> device_present k \<or> bound st"
  shows "dev_inv (dev st)"
proof -
  obtain st1 st2 where st1: "held st1 = load_base" "msi_ready st1" "\<not> bound st1" "dev st1 = zero_device (k_membus k > 0)"
    and st2: "(if k_membus k > 0 then bifrost_membus_init k st1 else bifrost_pci_init k st1) = (Done (), st2)"
    and st: "st = st2\<lparr>held := held st2 + cdev_part, cdev_initialized := True\<rparr>"
    using bifrost_init_done [OF init] assms(1,3,4) by (auto simp: msi_ready_def)
  have free: "fvd_free (held st1)" "fvd_ok k (held st1)" using st1(1) pins by (simp_all add: load_base_def fvd_ok_def)
  have "kept (dev st1) (dev st2)"
  proof (cases "k_membus k > 0")
    case True
    then show ?thesis using membus_init_result [OF _ pins free(1)] st2 by auto
  next
    case False
    then have "bifrost_pci_init k st1 = (Done (), st2)" using st2 by simp
    from pci_init_result [OF this st1(2) assms(2) free(2) st1(3)] show ?thesis using probed False st by simp
  qed
  then show ?thesis using st st1(4) by (auto simp: kept_def zero_device_def dev_inv_def)
qed


section \<open>Failures on the FVD platforms\<close>

lemma fvd_init_first_pin:
  assumes "platform_device_alloc k" and "gpio_is_valid k 0" and "fpga_request_irq k 0 = Some e"
  shows "fst (bifrost_fvd_init k st) = Fail e"
  using assms by (simp add: bifrost_fvd_init_def Let_def fvd_line_result)

lemma post_init_fvd_fails:
  assumes ready: "msi_ready st" "irqs_fit k" and free: "fvd_free (held st)" and pins: "\<forall>n<3. gpio_is_valid k n"
    and "platform_fvd (k_mach k)" "kzalloc_ctl k" "platform_device_alloc k" "fpga_request_irq k 0 = Some e"
  shows "\<exists>st'. bifrost_pci_probe_post_init k st = (Fail EPERM, st') \<and> held st' = held st \<and> bound st' = bound st
     \<and> banks_kept (dev st) (dev st') \<and> dctl (dev st') \<noteq> None"
proof -
  obtain r st' where p: "bifrost_pci_probe_post_init k st = (r, st')" by (cases "bifrost_pci_probe_post_init k st")
  have ok: "fvd_ok k (held st)" using free pins by (simp add: fvd_ok_def)
  from post_init_result [OF ready ok p] obtain H d ms where
    h: "st' = st\<lparr>held := H, dev := d, msi := ms\<rparr>" "post_outcome k st r H d ms" by blast
  have "r = Fail EPERM"
  proof -
    obtain ms where at: "bifrost_attach_msis_to_irq k (pci_irq k) st = st\<lparr>held := held st + attached ms, msi := ms\<rparr>"
      using attach_result [OF ready] by blast
    let ?st1 = "st\<lparr>held := held st + attached ms, msi := ms\<rparr>"
    from dma_init_result [of k ?st1] obtain d where "dma_init k ?st1 =
       (if kzalloc_ctl k then (Done (), acquire Dma_memory (?st1\<lparr>dev := d\<rparr>)) else (Fail ENOMEM, ?st1\<lparr>dev := d\<rparr>))
       \<and> banks_kept (dev ?st1) d \<and> (dctl d = None \<longleftrightarrow> \<not> kzalloc_ctl k)" ..
    then have d: "dma_init k ?st1 = (Done (), acquire Dma_memory (?st1\<lparr>dev := d\<rparr>))" "dctl d \<noteq> None" using assms(6) by simp_all
    let ?st2 = "acquire Dma_memory (?st1\<lparr>dev := d\<rparr>)"
    obtain r2 st3 where f: "bifrost_fvd_init k ?st2 = (r2, st3)" by (cases "bifrost_fvd_init k ?st2")
    have r2: "r2 = Fail e" using fvd_init_first_pin [OF assms(7) _ assms(8), of ?st2] pins f by simp
    have "fvd_free (held ?st2)" using free by (simp add: acquire_def)
    from fvd_init_result [OF this f pins] r2 have "Dma_memory \<in># held st3" "dev st3 = d" by (auto simp: acquire_def)
    then show ?thesis
      using p at d f r2 assms(5) by (auto simp: bifrost_pci_probe_post_init_def bifrost_dma_cleanup_result split: if_splits)
  qed
  then show ?thesis using p h assms(6) by (simp add: post_outcome_def)
qed

text \<open>C40: On the FVD platforms a probe sets up the FPGA interrupts last. When the first of them cannot be
  requested, the probe fails and frees the DMA controller, but leaves the pointer to it; the module is
  loaded all the same, and unloading it frees the controller a second time.\<close>

theorem failed_probe_then_unload:
  assumes "msi_ready st" and "irqs_fit k" and "fvd_free (held st)" and "Dma_memory \<notin># held st" and "\<not> bound st"
    and pins: "\<forall>n<3. gpio_is_valid k n"
    and "platform_fvd (k_mach k)" "kzalloc_ctl k" "platform_device_alloc k" "fpga_request_irq k 0 = Some e"
    and "pci_register_driver k = None" "device_present k" "pci_enable_device k" "pcie_set_readrq k" "config_ok k (cfg st)"
    and "pci_enable_msi k" "pci_request_regions k" "2 \<le> nbars k st"
  shows "\<exists>st'. bifrost_pci_init k st = (Done (), st') \<and> fst (bifrost_pci_exit k st') = Crash Use_after_free"
proof -
  let ?st1 = "acquire Pci_driver st"
  have c1: "config_ok k (cfg ?st1)" using assms(15) by (simp add: acquire_def)
  from probe_config [of k ?st1] obtain c where "bifrost_pci_probe k ?st1 =
     (if \<not> pci_enable_device k then (Fail ENODEV, ?st1)
      else if \<not> pcie_set_readrq k \<or> \<not> config_ok k (cfg ?st1) then (Fail ENODEV, (acquire Pci_device ?st1)\<lparr>cfg := c\<rparr>)
      else probe_interrupts k ((acquire Pci_device ?st1)\<lparr>cfg := c\<rparr>))" ..
  then have p: "bifrost_pci_probe k ?st1 = probe_interrupts k ((acquire Pci_device ?st1)\<lparr>cfg := c\<rparr>)"
    using assms(13,14) c1 by simp
  define st2 where "st2 = acquire Regions (acquire Msi (((acquire Pci_device ?st1)\<lparr>cfg := c\<rparr>)\<lparr>msi_interrupts := 1\<rparr>))"
  have i: "bifrost_pci_probe k ?st1 = probe_regions k st2"
    using p assms(7,16,17) by (simp add: probe_interrupts_def Let_def st2_def)
  let ?r = "setup_io_regions_pci (resource_len k) (iomap k) (dev st2)"
  define st3 where "st3 = (setup_regions ?r st2)\<lparr>dev := patch_bar0 (snd ?r)\<rparr>"
  have maps: "bar_maps (patch_bar0 (snd ?r)) = bar_maps (snd ?r)" using banks_kept_maps [OF patch_bar0_banks(1)] .
  have f: "held st3 = held st + {#Pci_driver, Pci_device, Regions, Msi#} + bar_maps (dev st3)" "msi_ready st3" "bound st3 = bound st"
    using assms(1) maps by (simp_all add: st3_def st2_def setup_regions_def acquire_def msi_ready_def add_mset_commute)
  have "fvd_free (held st3)" using f(1) assms(3) by simp
  from post_init_fvd_fails [OF f(2) assms(2) this pins assms(7-10)] obtain st4 where
    st4: "bifrost_pci_probe_post_init k st3 = (Fail EPERM, st4)" "held st4 = held st3" "bound st4 = bound st3"
      "banks_kept (dev st3) (dev st4)" "dctl (dev st4) \<noteq> None" by blast
  have n: "\<not> fst ?r < 2" using assms(18) by (simp add: nbars_def st2_def acquire_def)
  have pr: "probe_regions k st2 = (Fail ENODEV, err_pci_post_init st4)"
    using n st4(1) assms(7) by (simp add: probe_regions_def Let_def st3_def setup_regions_def)
  have h: "held st4 = held st + {#Pci_driver, Msi#} + {#Pci_device, Regions#} + bar_maps (dev st4) + {#}"
    using st4(2) f(1) banks_kept_maps [OF st4(4)] by (simp add: add_mset_commute)
  note e = err_post_init_result [OF h]
  have init: "bifrost_pci_init k st = (Done (), err_pci_post_init st4)"
    using i pr assms(11,12) by (simp add: bifrost_pci_init_def)
  have "Dma_memory \<notin># held (err_pci_post_init st4)" "dctl (dev (err_pci_post_init st4)) \<noteq> None"
    using e assms(4) st4(5) by simp_all
  then have "bifrost_dma_cleanup (err_pci_post_init st4) = (Crash Use_after_free, err_pci_post_init st4)"
    by (auto simp: bifrost_dma_cleanup_result)
  then show ?thesis using init by (intro exI [of _ "err_pci_post_init st4"]) (simp add: bifrost_pci_exit_def)
qed

text \<open>When the second FPGA pin is not valid the platform device is unregistered, but the value returned is the 0 of
  the first request: the driver goes on without interrupts, and its unload unregisters the device again.\<close>

theorem invalid_pin_reports_success:
  assumes "platform_device_alloc k" and "gpio_is_valid k 0" and "fpga_request_irq k 0 = None" and "\<not> gpio_is_valid k 1"
    and "fvd_free (held st)"
  shows "bifrost_fvd_init k st = (Done (), st) \<and> fst (bifrost_fvd_exit st) = Crash Use_after_free"
proof -
  let ?st1 = "st\<lparr>held := add_mset Fvd_device (held st) + got k 0\<rparr>"
  have "got k 0 \<subseteq># fvd_managed"
    unfolding fvd_managed_pins by (rule subset_mset.order_trans [OF got_sub]) simp
  then have "bifrost_fvd_exit ?st1 = (Done (), st\<lparr>held := held st\<rparr>)"
    using fvd_exit_result [of ?st1 "held st" "got k 0"] assms(5) by simp
  moreover have "Fvd_device \<notin># held st" using assms(5) by (auto simp: fvd_free_def is_fvd_def)
  ultimately show ?thesis
    using assms(1-4) by (simp add: bifrost_fvd_init_def Let_def fvd_line_result acquire_def bifrost_fvd_exit_def [of st])
qed

section \<open>The properties at work\<close>

theorem failed_probe_then_unload_witness:
  "\<exists>st. bifrost_pci_init (demo_kernel rocky (Some EBUSY)) demo_start = (Done (), st)
     \<and> fst (bifrost_pci_exit (demo_kernel rocky (Some EBUSY)) st) = Crash Use_after_free"
proof -
  let ?k = "demo_kernel rocky (Some EBUSY)"
  have "config_ok ?k (cfg demo_start)" "nbars ?k demo_start = 6" "irqs_fit ?k"
    using demo_config(1) demo_bars demo_ready(2) by (simp_all add: demo_start_def)
  then show ?thesis
    using demo_ready(1) demo_platforms(2)
    by (intro failed_probe_then_unload [where e = EBUSY]) (simp_all add: demo_start_def demo_kernel_def)
qed

lemma demo_probe:
  "\<exists>st'. bifrost_pci_init (demo_kernel no_fvd None) (demo_start\<lparr>held := H\<rparr>) = (Done (), st') \<and> bound st'"
proof -
  let ?k = "demo_kernel no_fvd None" and ?st = "acquire Pci_driver (demo_start\<lparr>held := H\<rparr>)"
  have fvd: "\<not> platform_fvd (k_mach ?k)" using demo_platforms(1) by (simp add: demo_kernel_def)
  obtain r st' where p: "bifrost_pci_probe ?k ?st = (r, st')" by (cases "bifrost_pci_probe ?k ?st")
  from probe_config [of ?k ?st] obtain c where c: "bifrost_pci_probe ?k ?st =
     (if \<not> pci_enable_device ?k then (Fail ENODEV, ?st)
      else if \<not> pcie_set_readrq ?k \<or> \<not> config_ok ?k (cfg ?st) then (Fail ENODEV, (acquire Pci_device ?st)\<lparr>cfg := c\<rparr>)
      else probe_interrupts ?k ((acquire Pci_device ?st)\<lparr>cfg := c\<rparr>))" ..
  let ?st2 = "(acquire Pci_device ?st)\<lparr>cfg := c\<rparr>"
  have g: "pci_enable_device ?k" "pcie_set_readrq ?k" "pci_enable_msi ?k" "pci_request_regions ?k" "kzalloc_ctl ?k"
      "sysfs_create_group ?k" "pci_register_driver ?k = None" "device_present ?k"
    by (simp_all add: demo_kernel_def)
  have "config_ok ?k (cfg ?st)" using demo_config(1) by (simp add: acquire_def demo_start_def)
  then have pi: "probe_interrupts ?k ?st2 = (r, st')" using c p g(1,2) by simp
  have f: "msi_ready ?st2" "fvd_ok ?k (held ?st2)" "held ?st2 = add_mset Pci_device (held ?st)"
    using demo_ready(1) fvd by (simp_all add: msi_ready_def acquire_def fvd_ok_def)
  have "r = Done ()"
    using probe_done_if [OF f(1) demo_ready(2) f(2) pi f(3)] fvd g(3-6) by (simp add: demo_bars)
  then show ?thesis using p g(7,8) by (simp add: bifrost_pci_init_def)
qed


end
