(* ===== verification/UsimSystem.thy ===== *)
theory UsimSystem
  imports UsimXfer
begin

text \<open>
  Senders and simulator at work together: the transition system of the I2C simulator, whose
  steps are the parts of a transfer and of an ioctl between which other threads may run, and the
  invariant of its reference counts. The simulator is one thread, and it puts only events it got.
\<close>

section \<open>Steps\<close>

text \<open>What the simulator is in the middle of: copying an event to user space, or its answer back.\<close>

datatype pending = Idle | Getting nat | Putting nat

text \<open>\<open>waiting\<close> are the events of the senders that have not finished yet.\<close>

record usim_sys =
  us :: usim
  waiting :: "nat set"
  pend :: pending

definition in_progress :: "usim \<Rightarrow> nat \<Rightarrow> bool" where
  "in_progress st a \<longleftrightarrow> (\<exists>e. ev_at st a = Some e \<and> ue_state e = STATE_IN_PROGRESS)"

definition send_event ::
    "bool \<Rightarrow> u32 \<Rightarrow> u32 \<Rightarrow> u32 \<Rightarrow> u32 \<Rightarrow> u8 list \<Rightarrow> usim \<Rightarrow> nat option res \<times> usim" where
  "send_event kzalloc type bus adr len bytes st =
     (case alloc_i2c_event kzalloc type bus adr len st of
        (None, st) \<Rightarrow> (Done None, st)
      | (Some a, st) \<Rightarrow>
          (case copy_to_event a 0 bytes st of
             (Done _, st) \<Rightarrow>
               (case usim_post_event a st of
                  (Done _, st) \<Rightarrow> (Done (Some a), st)
                | (Fail e, st) \<Rightarrow> (Fail e, st)
                | (Crash f, st) \<Rightarrow> (Crash f, st))
           | (Fail e, st) \<Rightarrow> (Fail e, st)
           | (Crash f, st) \<Rightarrow> (Crash f, st)))"

definition finish_wait :: "bool \<Rightarrow> nat \<Rightarrow> usim \<Rightarrow> (errno option res \<times> usim) option" where
  "finish_wait signal a st =
     (case wait_event_completion a signal st of
        None \<Rightarrow> None
      | Some (r, st) \<Rightarrow> Some (finish_xfer a r st))"

definition request_fits :: "u32 \<Rightarrow> u32 \<Rightarrow> bool" where
  "request_fits type len \<longleftrightarrow> type = I2C_USIM_I2C_READ \<or> type = I2C_USIM_SMB_READ
     \<or> (type = I2C_USIM_I2C_WRITE \<or> type = I2C_USIM_SMB_WRITE) \<and> unat len \<le> DATA_SIZE"

lemmas usim_types = I2C_USIM_I2C_READ_def I2C_USIM_SMB_READ_def I2C_USIM_I2C_WRITE_def I2C_USIM_SMB_WRITE_def
  EVENT_TYPE_def ACCESS_TYPE_def READ_ACCESS_def WRITE_ACCESS_def I2C_def SMB_def

lemma access_types [simp]:
  "ACCESS_TYPE I2C_USIM_I2C_READ AND READ_ACCESS \<noteq> 0" "ACCESS_TYPE I2C_USIM_SMB_READ AND READ_ACCESS \<noteq> 0"
  "ACCESS_TYPE I2C_USIM_I2C_WRITE AND READ_ACCESS = 0" "ACCESS_TYPE I2C_USIM_SMB_WRITE AND READ_ACCESS = 0"
  "ACCESS_TYPE I2C_USIM_I2C_READ AND WRITE_ACCESS = 0" "ACCESS_TYPE I2C_USIM_SMB_READ AND WRITE_ACCESS = 0"
  "ACCESS_TYPE I2C_USIM_I2C_WRITE AND WRITE_ACCESS \<noteq> 0" "ACCESS_TYPE I2C_USIM_SMB_WRITE AND WRITE_ACCESS \<noteq> 0"
  by (simp_all add: usim_types)

lemma request_fits_write: "request_fits type len \<Longrightarrow> ACCESS_TYPE type AND WRITE_ACCESS \<noteq> 0 \<Longrightarrow> unat len \<le> DATA_SIZE"
  by (auto simp: request_fits_def)

lemma request_fits_read: "request_fits type len \<Longrightarrow> ACCESS_TYPE type AND READ_ACCESS \<noteq> 0 \<Longrightarrow> request_fits type len'"
  by (auto simp: request_fits_def)

inductive usim_step :: "usim_sys \<Rightarrow> usim_sys \<Rightarrow> bool" where
  step_send: "send_event kz type bus adr len bytes (us s) = (Done (Some a), st) \<Longrightarrow> request_fits type len
    \<Longrightarrow> usim_step s (s\<lparr>us := st, waiting := insert a (waiting s)\<rparr>)"
| step_finish: "a \<in> waiting s \<Longrightarrow> finish_wait signal a (us s) = Some (Done v, st)
    \<Longrightarrow> usim_step s (s\<lparr>us := st, waiting := waiting s - {a}\<rparr>)"
| step_open: "i2c_usim_open (us s) = (Done (), st) \<Longrightarrow> usim_step s (s\<lparr>us := st\<rparr>)"
| step_get: "pend s = Idle \<Longrightarrow> get_1st_ready_event (us s) = (Done (Some a), st)
    \<Longrightarrow> usim_step s (s\<lparr>us := st, pend := Getting a\<rparr>)"
| step_got: "pend s = Getting a \<Longrightarrow> get_event_reply uok a (us s) = (r, st)
    \<Longrightarrow> usim_step s (s\<lparr>us := st, pend := Idle\<rparr>)"
| step_put: "pend s = Idle \<Longrightarrow> lookup_event_w_ticket ticket (us s) = Done (Some a) \<Longrightarrow> in_progress (us s) a
    \<Longrightarrow> usim_step s (s\<lparr>pend := Putting a\<rparr>)"
| step_done: "pend s = Putting a \<Longrightarrow> length data = DATA_SIZE \<Longrightarrow> put_event_answer uok len data a (us s) = (r, st)
    \<Longrightarrow> usim_step s (s\<lparr>us := st, pend := Idle\<rparr>)"
| step_release: "pend s = Idle \<Longrightarrow> i2c_usim_release (us s) = (Done (), st) \<Longrightarrow> usim_step s (s\<lparr>us := st\<rparr>)"

inductive_cases usim_stepE: "usim_step s s'"

inductive usim_reach :: "usim_sys \<Rightarrow> usim_sys \<Rightarrow> bool" where
  usim_refl: "usim_reach s s"
| usim_next: "usim_reach s s' \<Longrightarrow> usim_step s' s'' \<Longrightarrow> usim_reach s s''"

definition sys_start :: usim_sys where
  "sys_start = \<lparr>us = usim_start, waiting = {}, pend = Idle\<rparr>"

section \<open>The invariant\<close>

text \<open>An event is allocated while its sender waits or the simulator works on it, and each of
  them has one reference.\<close>

definition refs :: "nat set \<Rightarrow> nat \<Rightarrow> usim_event \<Rightarrow> nat" where
  "refs W a e = (if a \<in> W then 1 else 0) + (if ue_state e = STATE_IN_PROGRESS then 1 else 0)"

definition event_ok :: "nat set \<Rightarrow> nat \<Rightarrow> usim_event \<Rightarrow> bool" where
  "event_ok W a e \<longleftrightarrow> refcnt e = refs W a e \<and> 0 < refcnt e \<and> length (ue_data e) = DATA_SIZE
     \<and> request_fits (ue_type e) (ue_len e)"

definition usim_inv :: "nat set \<Rightarrow> usim \<Rightarrow> bool" where
  "usim_inv W st \<longleftrightarrow> distinct (eventq st) \<and> set (eventq st) = W
     \<and> (\<forall>a e. ev_at st a = Some e \<longrightarrow> event_ok W a e \<and> a < next_addr st)
     \<and> (\<forall>a\<in>W. ev_at st a \<noteq> None)"

definition sys_inv :: "usim_sys \<Rightarrow> bool" where
  "sys_inv s \<longleftrightarrow> usim_inv (waiting s) (us s)
     \<and> (case pend s of Idle \<Rightarrow> True | Getting a \<Rightarrow> in_progress (us s) a | Putting a \<Rightarrow> in_progress (us s) a)"

lemma set_event_simps [simp]:
  "ev_at (set_event a e st) b = (if b = a then e else ev_at st b)"
  "eventq (set_event a e st) = eventq st" "next_addr (set_event a e st) = next_addr st"
  "usim_users (set_event a e st) = usim_users st" "last_ticket (set_event a e st) = last_ticket st"
  by (simp_all add: set_event_def)

lemma event_ok_other [simp]:
  "b \<noteq> a \<Longrightarrow> event_ok (insert a W) b f = event_ok W b f"
  "b \<noteq> a \<Longrightarrow> event_ok (W - {a}) b f = event_ok W b f"
  by (simp_all add: event_ok_def refs_def)

text \<open>Replacing an event by one that is as good keeps the invariant.\<close>

lemma usim_inv_set:
  assumes "usim_inv W st" and "ev_at st a \<noteq> None" and "event_ok W a e"
  shows "usim_inv W (set_event a (Some e) st)"
  using assms by (auto simp: usim_inv_def)

lemma usim_inv_event:
  "usim_inv W st \<Longrightarrow> a \<in> W \<Longrightarrow> \<exists>e. ev_at st a = Some e \<and> event_ok W a e"
  by (auto simp: usim_inv_def)

text \<open>Dropping the reference of an event that is no longer in progress.\<close>

lemma put_event_result:
  assumes "ev_at st a = Some e"
  shows "put_event a st = (Done (), set_event a (if refcnt e = 1 then None else Some (e\<lparr>refcnt := refcnt e - 1\<rparr>)) st)"
  using assms by (simp add: put_event_def with_event_def)

lemma complete_event_result:
  assumes "ev_at st a = Some e"
  shows "complete_event a v st = (Done (), set_event a (if refcnt e = 1 then None
     else Some (e\<lparr>ue_status := v, ue_state := STATE_DONE, refcnt := refcnt e - 1\<rparr>)) st)"
  using assms by (simp add: complete_event_def with_event_def put_event_result set_event_def)

lemma complete_inv:
  assumes inv: "usim_inv W st" and e: "ev_at st a = Some e" "ue_state e = STATE_IN_PROGRESS"
  shows "\<exists>st'. complete_event a v st = (Done (), st') \<and> usim_inv W st'
     \<and> (\<forall>b. b \<noteq> a \<longrightarrow> ev_at st' b = ev_at st b) \<and> eventq st' = eventq st \<and> \<not> in_progress st' a
     \<and> next_addr st' = next_addr st \<and> last_ticket st' = last_ticket st \<and> usim_users st' = usim_users st
     \<and> (a \<in> W \<longrightarrow> ev_at st' a = Some (e\<lparr>ue_status := v, ue_state := STATE_DONE, refcnt := 1\<rparr>))"
proof -
  have ok: "event_ok W a e" using inv e(1) by (simp add: usim_inv_def)
  have r: "refcnt e = (if a \<in> W then 2 else 1)"
    using ok e(2) by (auto simp: event_ok_def refs_def)
  let ?e = "e\<lparr>ue_status := v, ue_state := STATE_DONE, refcnt := 1\<rparr>"
  have ok': "event_ok W a ?e" if "a \<in> W" using ok that by (simp add: event_ok_def refs_def)
  show ?thesis
  proof (cases "a \<in> W")
    case True
    have "complete_event a v st = (Done (), set_event a (Some ?e) st)"
      using r True by (simp add: complete_event_result [OF e(1)])
    then show ?thesis
      using usim_inv_set [OF inv _ ok' [OF True]] e(1) by (simp add: in_progress_def)
  next
    case False
    have "complete_event a v st = (Done (), set_event a None st)"
      using r False by (simp add: complete_event_result [OF e(1)])
    then show ?thesis
      using inv False by (auto simp: usim_inv_def in_progress_def)
  qed
qed

section \<open>Every operation keeps it\<close>

definition new_event :: "u32 \<Rightarrow> u32 \<Rightarrow> u32 \<Rightarrow> u32 \<Rightarrow> u8 list \<Rightarrow> usim \<Rightarrow> usim_event" where
  "new_event type bus adr len bytes st =
     \<lparr>refcnt = 1, ue_ticket = last_ticket st + 1, ue_status = None, ue_state = STATE_READY, ue_type = type,
       ue_bus = bus, ue_addr = adr, ue_len = len, ue_data = bytes @ replicate (DATA_SIZE - length bytes) 0\<rparr>"

definition sent :: "usim_event \<Rightarrow> usim \<Rightarrow> usim" where
  "sent e st = (set_event (next_addr st) (Some e) st)\<lparr>next_addr := next_addr st + 1,
     last_ticket := last_ticket st + 1, eventq := eventq st @ [next_addr st]\<rparr>"

lemma alloc_copy_result:
  assumes "length bytes \<le> DATA_SIZE"
  shows "\<exists>st1. alloc_i2c_event True type bus adr len st = (Some (next_addr st), st1)
     \<and> copy_to_event (next_addr st) 0 bytes st1
         = (Done (), (set_event (next_addr st) (Some (new_event type bus adr len bytes st)) st)\<lparr>
             next_addr := next_addr st + 1, last_ticket := last_ticket st + 1\<rparr>)"
  using assms
  by (simp add: alloc_i2c_event_def alloc_event_def Let_def copy_to_event_def with_event_def new_event_def set_event_def)

lemma send_event_result:
  assumes "length bytes \<le> DATA_SIZE"
  shows "send_event True type bus adr len bytes st = (Done (Some (next_addr st)), sent (new_event type bus adr len bytes st) st)"
proof -
  obtain st1 where "alloc_i2c_event True type bus adr len st = (Some (next_addr st), st1)"
      "copy_to_event (next_addr st) 0 bytes st1
         = (Done (), (set_event (next_addr st) (Some (new_event type bus adr len bytes st)) st)\<lparr>
             next_addr := next_addr st + 1, last_ticket := last_ticket st + 1\<rparr>)"
    using alloc_copy_result [OF assms] by blast
  then show ?thesis
    by (simp add: send_event_def usim_post_event_def with_event_def sent_def set_event_def new_event_def)
qed

lemma send_event_long:
  assumes "DATA_SIZE < length bytes"
  shows "fst (send_event True type bus adr len bytes st) = Crash Out_of_bounds"
  using assms
  by (simp add: send_event_def alloc_i2c_event_def alloc_event_def Let_def copy_to_event_def with_event_def set_event_def)

lemma send_event_cases:
  assumes "send_event kz type bus adr len bytes st = (Done r, st')"
  shows "r = None \<and> st' = st \<or>
     r = Some (next_addr st) \<and> length bytes \<le> DATA_SIZE \<and> st' = sent (new_event type bus adr len bytes st) st"
proof (cases kz)
  case True
  show ?thesis
  proof (cases "length bytes \<le> DATA_SIZE")
    case ok: True
    then show ?thesis using assms send_event_result [OF ok, of type bus adr len st] True by auto
  next
    case False
    then show ?thesis using assms send_event_long [of bytes type bus adr len st] True by simp
  qed
next
  case False
  then show ?thesis using assms by (simp add: send_event_def alloc_i2c_event_def alloc_event_def)
qed

lemma sent_inv:
  assumes inv: "usim_inv W st" and e: "refcnt e = 1" "ue_state e = STATE_READY" "length (ue_data e) = DATA_SIZE"
    "request_fits (ue_type e) (ue_len e)"
  shows "usim_inv (insert (next_addr st) W) (sent e st)"
proof -
  let ?a = "next_addr st"
  have fresh: "ev_at st ?a = None" using inv by (cases "ev_at st ?a") (auto simp: usim_inv_def)
  then have a: "?a \<notin> W" using inv by (auto simp: usim_inv_def)
  have "event_ok (insert ?a W) ?a e" using e by (simp add: event_ok_def refs_def)
  then show ?thesis
    using inv a fresh unfolding usim_inv_def sent_def by (auto simp: less_Suc_eq)
qed

lemma finish_inv:
  assumes inv: "usim_inv W st" and a: "a \<in> W" and run: "finish_wait signal a st = Some (r, st')"
  shows "(\<exists>v. r = Done v) \<and> usim_inv (W - {a}) st' \<and> (\<forall>b. b \<noteq> a \<longrightarrow> ev_at st' b = ev_at st b)
     \<and> (\<forall>e. ev_at st a = Some e \<longrightarrow>
          ev_at st' a = (if ue_state e = STATE_IN_PROGRESS then Some (e\<lparr>refcnt := 1\<rparr>) else None))
     \<and> next_addr st' = next_addr st"
proof -
  obtain e where e: "ev_at st a = Some e" "event_ok W a e" using usim_inv_event [OF inv a] by blast
  let ?st = "st\<lparr>eventq := remove1 a (eventq st)\<rparr>"
  have r: "refcnt e = (if ue_state e = STATE_IN_PROGRESS then 2 else 1)"
    using e(2) a by (auto simp: event_ok_def refs_def)
  obtain v where w: "wait_event_completion a signal st = Some (Done v, ?st)"
    using run e(1) by (auto simp: finish_wait_def wait_event_completion_def Let_def split: if_splits option.splits)
  have p: "put_event a ?st = (Done (), set_event a
      (if ue_state e = STATE_IN_PROGRESS then Some (e\<lparr>refcnt := 1\<rparr>) else None) ?st)"
    using e(1) r by (subst put_event_result [of ?st a e]) simp_all
  have st': "r = Done v" "st' = set_event a
      (if ue_state e = STATE_IN_PROGRESS then Some (e\<lparr>refcnt := 1\<rparr>) else None) ?st"
    using run w p by (auto simp: finish_wait_def finish_xfer_def)
  have self: "event_ok (W - {a}) a (e\<lparr>refcnt := 1\<rparr>)" if "ue_state e = STATE_IN_PROGRESS"
    using that e(2) by (simp add: event_ok_def refs_def)
  have "usim_inv (W - {a}) st'"
    using inv a e(1) self unfolding st' usim_inv_def by auto
  then show ?thesis using e(1) by (simp add: st')
qed

lemma first_ready_result:
  assumes "\<forall>a\<in>set as. ev_at st a \<noteq> None"
  shows "first_ready st as = Done (find (\<lambda>a. \<exists>e. ev_at st a = Some e \<and> ue_state e = STATE_READY) as)"
  using assms by (induction as) auto

lemma get_ready_inv:
  assumes inv: "usim_inv W st" and run: "get_1st_ready_event st = (r, st')"
  shows "r = Done None \<and> st' = st \<or>
     (\<exists>a e. r = Done (Some a) \<and> a \<in> W \<and> ev_at st a = Some e \<and> ue_state e = STATE_READY
        \<and> st' = set_event a (Some (e\<lparr>ue_state := STATE_IN_PROGRESS, refcnt := 2\<rparr>)) st
        \<and> usim_inv W st' \<and> in_progress st' a)"
proof -
  have "\<forall>a\<in>set (eventq st). ev_at st a \<noteq> None" using inv by (simp add: usim_inv_def)
  note fr = first_ready_result [OF this]
  show ?thesis
  proof (cases "find (\<lambda>a. \<exists>e. ev_at st a = Some e \<and> ue_state e = STATE_READY) (eventq st)")
    case None
    then show ?thesis using run fr by (simp add: get_1st_ready_event_def)
  next
    case (Some a)
    then obtain e where e: "a \<in> set (eventq st)" "ev_at st a = Some e" "ue_state e = STATE_READY"
      by (auto simp: find_Some_iff)
    have aW: "a \<in> W" using inv e(1) by (simp add: usim_inv_def)
    have ok: "event_ok W a e" using inv e(2) by (simp add: usim_inv_def)
    then have r: "refcnt e = 1" using e(3) aW by (simp add: event_ok_def refs_def)
    let ?e = "e\<lparr>ue_state := STATE_IN_PROGRESS, refcnt := 2\<rparr>"
    have ok': "event_ok W a ?e" using ok aW by (simp add: event_ok_def refs_def)
    have "(r, st') = (Done (Some a), set_event a (Some ?e) st)"
      using run fr Some e(2) r
      by (simp add: get_1st_ready_event_def with_event_def get_event_def set_event_def numeral_2_eq_2)
    moreover have "usim_inv W (set_event a (Some ?e) st)"
      using usim_inv_set [OF inv _ ok'] e(2) by simp
    ultimately show ?thesis using aW e by (auto simp: in_progress_def)
  qed
qed

lemma fault_inv:
  assumes "usim_inv W st" and "in_progress st a"
  shows "\<exists>st'. fault_event a st = (Fail EFAULT, st') \<and> usim_inv W st' \<and> (\<forall>b. b \<noteq> a \<longrightarrow> ev_at st' b = ev_at st b)"
proof -
  obtain e where "ev_at st a = Some e" "ue_state e = STATE_IN_PROGRESS" using assms(2) by (auto simp: in_progress_def)
  from complete_inv [OF assms(1) this, of "Some EIO"] show ?thesis by (auto simp: fault_event_def)
qed

lemma reply_inv:
  assumes inv: "usim_inv W st" and ip: "in_progress st a" and run: "get_event_reply uok a st = (r, st')"
  shows "(\<forall>f. r \<noteq> Crash f) \<and> usim_inv W st' \<and> (\<forall>b. b \<noteq> a \<longrightarrow> ev_at st' b = ev_at st b)"
proof -
  obtain e where e: "ev_at st a = Some e" "ue_state e = STATE_IN_PROGRESS" using ip by (auto simp: in_progress_def)
  have ok: "event_ok W a e" using inv e(1) by (simp add: usim_inv_def)
  have "\<not> DATA_SIZE < (if ACCESS_TYPE (ue_type e) AND WRITE_ACCESS \<noteq> 0 then unat (ue_len e) else 1)"
    using ok request_fits_write [of "ue_type e" "ue_len e"] by (auto simp: event_ok_def DATA_SIZE_def not_less)
  then have fits: "\<not> length (ue_data e) < (if ACCESS_TYPE (ue_type e) AND WRITE_ACCESS \<noteq> 0 then unat (ue_len e) else 1)"
    using ok by (simp add: event_ok_def)
  obtain st1 where "fault_event a st = (Fail EFAULT :: usim_ioc_event res, st1)" "usim_inv W st1" "\<forall>b. b \<noteq> a \<longrightarrow> ev_at st1 b = ev_at st b"
    using fault_inv [OF inv ip] by blast
  then show ?thesis
    using run inv e(1) fits unfolding get_event_reply_def with_event_def Let_def by (auto split: if_splits)
qed

text \<open>The two ends of an answer, after some change of the event in progress.\<close>

definition changed_event :: "nat set \<Rightarrow> nat \<Rightarrow> usim \<Rightarrow> usim \<Rightarrow> bool" where
  "changed_event W a st st1 \<longleftrightarrow> usim_inv W st1 \<and> in_progress st1 a \<and> (\<forall>b. b \<noteq> a \<longrightarrow> ev_at st1 b = ev_at st b)"

lemma fault_after:
  assumes "changed_event W a st st1"
  shows "\<exists>st'. fault_event a st1 = (Fail EFAULT :: unit res, st') \<and> usim_inv W st' \<and> (\<forall>b. b \<noteq> a \<longrightarrow> ev_at st' b = ev_at st b)"
  using assms fault_inv [of W st1 a] unfolding changed_event_def by metis

lemma complete_after:
  assumes "changed_event W a st st1"
  shows "\<exists>st'. complete_event a None st1 = (Done (), st') \<and> usim_inv W st' \<and> (\<forall>b. b \<noteq> a \<longrightarrow> ev_at st' b = ev_at st b)"
proof -
  obtain e1 where e1: "ev_at st1 a = Some e1" "ue_state e1 = STATE_IN_PROGRESS"
    using assms by (auto simp: changed_event_def in_progress_def)
  then show ?thesis using complete_inv [OF _ e1, of W None] assms unfolding changed_event_def by metis
qed

lemma answer_inv:
  assumes inv: "usim_inv W st" and ip: "in_progress st a" and len: "length data = DATA_SIZE"
    and run: "put_event_answer uok n data a st = (r, st')"
  shows "(\<forall>f. r \<noteq> Crash f) \<and> usim_inv W st' \<and> (\<forall>b. b \<noteq> a \<longrightarrow> ev_at st' b = ev_at st b)"
proof -
  obtain e where e: "ev_at st a = Some e" "ue_state e = STATE_IN_PROGRESS" using ip by (auto simp: in_progress_def)
  have ok: "event_ok W a e" using inv e(1) by (simp add: usim_inv_def)
  have here: "changed_event W a st st" using inv ip by (simp add: changed_event_def)
  let ?e1 = "e\<lparr>ue_len := n\<rparr>"
  let ?st1 = "set_event a (Some ?e1) st"
  let ?e2 = "?e1\<lparr>ue_data := take (unat n) data @ drop (unat n) (ue_data ?e1)\<rparr>"
  let ?st2 = "set_event a (Some ?e2) ?st1"
  show ?thesis
  proof (cases "ACCESS_TYPE (ue_type e) AND READ_ACCESS \<noteq> 0")
    case False
    then show ?thesis using run e(1) complete_after [OF here] by (auto simp: put_event_answer_def with_event_def)
  next
    case True
    show ?thesis
    proof (cases "uok 1")
      case False
      then show ?thesis using run e(1) True fault_after [OF here] by (auto simp: put_event_answer_def with_event_def)
    next
      case u1: True
      have ok1: "event_ok W a ?e1"
        using ok e(2) request_fits_read [OF _ True, of "ue_len e" n] by (simp add: event_ok_def refs_def)
      have inv1: "usim_inv W ?st1" using usim_inv_set [OF inv _ ok1] e(1) by simp
      have ch1: "changed_event W a st ?st1" using inv1 e(2) by (simp add: in_progress_def changed_event_def)
      have l: "length (ue_data e) = DATA_SIZE" using ok by (simp add: event_ok_def)
      show ?thesis
      proof (cases "unat n > DATA_SIZE \<or> \<not> uok 2")
        case True
        then show ?thesis
          using run e(1) u1 \<open>ACCESS_TYPE (ue_type e) AND READ_ACCESS \<noteq> 0\<close> l fault_after [OF ch1]
          by (auto simp: put_event_answer_def with_event_def Let_def split: if_splits)
      next
        case False
        have ok2: "event_ok W a ?e2"
          using ok1 e(2) l len False by (simp add: event_ok_def refs_def)
        have inv2: "usim_inv W ?st2" using usim_inv_set [OF inv1 _ ok2] by simp
        have ch2: "changed_event W a st ?st2" using inv2 e(2) by (simp add: in_progress_def changed_event_def)
        show ?thesis
          using run e(1) u1 \<open>ACCESS_TYPE (ue_type e) AND READ_ACCESS \<noteq> 0\<close> l False complete_after [OF ch2]
          by (auto simp: put_event_answer_def with_event_def Let_def)
      qed
    qed
  qed
qed

lemma orphans_inv:
  assumes "usim_inv W st" and "set as \<subseteq> W" and "distinct as"
  shows "\<exists>st'. complete_orphans as st = (Done (), st') \<and> usim_inv W st' \<and> eventq st' = eventq st
     \<and> next_addr st' = next_addr st \<and> last_ticket st' = last_ticket st
     \<and> (\<forall>b. ev_at st' b = (if b \<in> set as \<and> in_progress st b
            then map_option (\<lambda>e. e\<lparr>ue_status := Some EIO, ue_state := STATE_DONE, refcnt := 1\<rparr>) (ev_at st b)
            else ev_at st b))"
  using assms
proof (induction as arbitrary: st)
  case (Cons a as)
  obtain e where e: "ev_at st a = Some e" using usim_inv_event [OF Cons.prems(1)] Cons.prems(2) by auto
  show ?case
  proof (cases "ue_state e = STATE_IN_PROGRESS")
    case True
    obtain st1 where st1: "complete_event a (Some EIO) st = (Done (), st1)" "usim_inv W st1"
        "\<forall>b. b \<noteq> a \<longrightarrow> ev_at st1 b = ev_at st b" "eventq st1 = eventq st"
        "next_addr st1 = next_addr st" "last_ticket st1 = last_ticket st"
        "ev_at st1 a = Some (e\<lparr>ue_status := Some EIO, ue_state := STATE_DONE, refcnt := 1\<rparr>)"
      using complete_inv [OF Cons.prems(1) e True, of "Some EIO"] Cons.prems(2) by auto
    have ip: "in_progress st1 b = in_progress st b" if "b \<in> set as" for b
    proof -
      have "b \<noteq> a" using that Cons.prems(3) by auto
      then show ?thesis using st1(3) by (simp add: in_progress_def)
    qed
    have "in_progress st a" using e True by (simp add: in_progress_def)
    moreover obtain st' where "complete_orphans as st1 = (Done (), st')" "usim_inv W st'" "eventq st' = eventq st1"
        "next_addr st' = next_addr st1" "last_ticket st' = last_ticket st1"
        "\<forall>b. ev_at st' b = (if b \<in> set as \<and> in_progress st1 b
            then map_option (\<lambda>e. e\<lparr>ue_status := Some EIO, ue_state := STATE_DONE, refcnt := 1\<rparr>) (ev_at st1 b)
            else ev_at st1 b)"
      using Cons.IH [OF st1(2)] Cons.prems(2,3) by auto
    moreover have "ev_at st' b = (if b \<in> set (a # as) \<and> in_progress st b
            then map_option (\<lambda>e. e\<lparr>ue_status := Some EIO, ue_state := STATE_DONE, refcnt := 1\<rparr>) (ev_at st b)
            else ev_at st b)" for b
    proof (cases "b = a")
      case True
      then show ?thesis using calculation(1,7) e st1(7) Cons.prems(3) by simp
    next
      case False
      then show ?thesis using calculation(7) st1(3) ip [of b] by (cases "b \<in> set as") simp_all
    qed
    ultimately show ?thesis
      using e True st1(1,4,5,6) by (intro exI [of _ st']) simp
  next
    case False
    have "\<not> in_progress st a" using e False by (simp add: in_progress_def)
    then show ?thesis using Cons.IH [OF Cons.prems(1)] Cons.prems(2,3) e False by auto
  qed
qed auto

lemma release_inv:
  assumes "usim_inv W st"
  shows "\<exists>st'. i2c_usim_release st = (Done (), st') \<and> usim_inv W st' \<and> eventq st' = eventq st
     \<and> next_addr st' = next_addr st
     \<and> (\<forall>b. ev_at st' b = (if b \<in> W \<and> in_progress st b
            then map_option (\<lambda>e. e\<lparr>ue_status := Some EIO, ue_state := STATE_DONE, refcnt := 1\<rparr>) (ev_at st b)
            else ev_at st b))"
proof -
  have q: "distinct (eventq st)" "set (eventq st) = W" using assms by (simp_all add: usim_inv_def)
  obtain st' where "complete_orphans (eventq st) st = (Done (), st')" "usim_inv W st'" "eventq st' = eventq st"
      "next_addr st' = next_addr st"
      "\<forall>b. ev_at st' b = (if b \<in> W \<and> in_progress st b
            then map_option (\<lambda>e. e\<lparr>ue_status := Some EIO, ue_state := STATE_DONE, refcnt := 1\<rparr>) (ev_at st b)
            else ev_at st b)"
    using orphans_inv [OF assms _ q(1)] q(2) by auto
  then show ?thesis
    by (intro exI [of _ "st'\<lparr>usim_users := usim_users st' - 1\<rparr>"]) (simp add: i2c_usim_release_def usim_inv_def)
qed

lemma open_inv: "usim_inv W st \<Longrightarrow> i2c_usim_open st = (r, st') \<Longrightarrow> usim_inv W st' \<and> ev_at st' = ev_at st"
  by (auto simp: i2c_usim_open_def usim_inv_def split: if_splits)

lemma in_progress_cong: "ev_at st' a = ev_at st a \<Longrightarrow> in_progress st' a = in_progress st a"
  by (simp add: in_progress_def)

lemma sys_step_inv:
  assumes "usim_step s s'" and "sys_inv s"
  shows "sys_inv s'"
  using assms(1)
proof (cases rule: usim_step.cases)
  case (step_send kz type bus adr len bytes a st)
  have inv: "usim_inv (waiting s) (us s)" using assms(2) by (simp add: sys_inv_def)
  let ?e = "new_event type bus adr len bytes (us s)"
  have st: "a = next_addr (us s)" "length bytes \<le> DATA_SIZE" "st = sent ?e (us s)"
    using send_event_cases [OF step_send(2)] by auto
  have "usim_inv (insert a (waiting s)) st"
    unfolding st using step_send(3) st(2) by (intro sent_inv [OF inv]) (simp_all add: new_event_def)
  moreover have "in_progress st b" if "in_progress (us s) b" for b
  proof -
    have "b < a" using that inv st(1) by (auto simp: in_progress_def usim_inv_def)
    then show ?thesis using that by (simp add: st(1,3) in_progress_def sent_def)
  qed
  ultimately show ?thesis using assms(2) step_send(1) by (auto simp: sys_inv_def split: pending.splits)
next
  case (step_finish a signal v st)
  have inv: "usim_inv (waiting s) (us s)" using assms(2) by (simp add: sys_inv_def)
  have f: "usim_inv (waiting s - {a}) st" "\<forall>b. b \<noteq> a \<longrightarrow> ev_at st b = ev_at (us s) b"
      "\<forall>e. ev_at (us s) a = Some e \<longrightarrow> ev_at st a = (if ue_state e = STATE_IN_PROGRESS then Some (e\<lparr>refcnt := 1\<rparr>) else None)"
    using finish_inv [OF inv step_finish(2,3)] by blast+
  have "in_progress st b" if "in_progress (us s) b" for b
    using that f(2,3) by (cases "b = a") (auto simp: in_progress_def)
  then show ?thesis using assms(2) step_finish(1) f(1) by (auto simp: sys_inv_def split: pending.splits)
next
  case (step_open st)
  have "usim_inv (waiting s) (us s)" using assms(2) by (simp add: sys_inv_def)
  from open_inv [OF this step_open(2)] have "usim_inv (waiting s) st" "in_progress st b = in_progress (us s) b" for b
    by (simp_all add: in_progress_def)
  then show ?thesis using assms(2) step_open(1) by (simp add: sys_inv_def split: pending.splits)
next
  case (step_get a st)
  then show ?thesis
    using assms(2) get_ready_inv [of "waiting s" "us s" "Done (Some a)" st] by (auto simp: sys_inv_def)
next
  case (step_got a uok r st)
  then show ?thesis
    using assms(2) reply_inv [of "waiting s" "us s" a uok r st] by (auto simp: sys_inv_def)
next
  case (step_put ticket a)
  then show ?thesis using assms(2) by (auto simp: sys_inv_def)
next
  case (step_done a data uok len r st)
  then show ?thesis
    using assms(2) answer_inv [of "waiting s" "us s" a data uok len r st] by (auto simp: sys_inv_def)
next
  case (step_release st)
  then show ?thesis
    using assms(2) release_inv [of "waiting s" "us s"] by (auto simp: sys_inv_def)
qed

lemma sys_start_inv: "sys_inv sys_start"
  by (simp add: sys_inv_def sys_start_def usim_inv_def usim_start_def)

lemma sys_reach_inv: "usim_reach s s' \<Longrightarrow> sys_inv s \<Longrightarrow> sys_inv s'"
  by (induction rule: usim_reach.induct) (auto intro: sys_step_inv)

end
