(* ===== verification/UsimProps.thy ===== *)
theory UsimProps
  imports UsimSystem FifoInterface
begin

text \<open>
  The properties of the I2C simulator: no access to freed memory and no lost reference as long as
  the simulator puts only events it got, what happens when it does not, the order in which
  requests arrive, and what a transfer returns for an answer.
\<close>

section \<open>Reachable states\<close>

lemma usim_reach_inv: "usim_reach sys_start s \<Longrightarrow> sys_inv s"
  using sys_reach_inv sys_start_inv by blast

lemma find_ticket_no_crash:
  "\<forall>a\<in>set as. ev_at st a \<noteq> None \<Longrightarrow> \<exists>r. find_ticket st ticket as = Done r"
  by (induction as) auto


text \<open>A request is under way: one event, READY.\<close>

definition demo_sys :: usim_sys where
  "demo_sys = \<lparr>us = sent (new_event I2C_USIM_SMB_READ 3 0x20 1 [7] usim_start) usim_start,
     waiting = {0}, pend = Idle\<rparr>"

lemma demo_sys_reach: "usim_reach sys_start demo_sys"
proof -
  have "send_event True I2C_USIM_SMB_READ 3 0x20 1 [7] (us sys_start) =
      (Done (Some (next_addr usim_start)), sent (new_event I2C_USIM_SMB_READ 3 0x20 1 [7] usim_start) usim_start)"
    by (simp add: send_event_result sys_start_def DATA_SIZE_def)
  from step_send [OF this] have "usim_step sys_start demo_sys"
    by (simp add: request_fits_def demo_sys_def sys_start_def usim_start_def)
  with usim_refl show ?thesis by (rule usim_next)
qed




section \<open>Interrupted senders\<close>

definition abandoned :: "usim_sys \<Rightarrow> nat \<Rightarrow> bool" where
  "abandoned s a \<longleftrightarrow> in_progress (us s) a \<and> a \<notin> waiting s \<and> pend s \<noteq> Getting a \<and> pend s \<noteq> Putting a"

lemma find_ticket_in: "find_ticket st ticket as = Done (Some a) \<Longrightarrow> a \<in> set as"
  by (induction as) (auto split: option.splits if_splits)

lemma abandoned_step:
  assumes step: "usim_step s s'" and inv: "sys_inv s" and ab: "abandoned s a"
  shows "ev_at (us s') a = ev_at (us s) a \<and> abandoned s' a"
proof -
  have uinv: "usim_inv (waiting s) (us s)" using inv by (simp add: sys_inv_def)
  have same: "abandoned s' a" if "ev_at (us s') a = ev_at (us s) a" "a \<notin> waiting s'"
      "pend s' \<noteq> Getting a" "pend s' \<noteq> Putting a"
    using ab that by (simp add: abandoned_def in_progress_def)
  have a: "a \<notin> waiting s" "pend s \<noteq> Getting a" "pend s \<noteq> Putting a" "a \<notin> set (eventq (us s))"
    using ab uinv by (auto simp: abandoned_def usim_inv_def)
  have lt: "a < next_addr (us s)" using ab uinv by (auto simp: abandoned_def in_progress_def usim_inv_def)
  from step show ?thesis
  proof (cases rule: usim_step.cases)
    case (step_send kz type bus adr len bytes b st)
    have "b = next_addr (us s)" "st = sent (new_event type bus adr len bytes (us s)) (us s)"
      using send_event_cases [OF step_send(2)] by auto
    then show ?thesis using step_send(1) a lt same by (auto simp: sent_def)
  next
    case (step_finish b signal v st)
    have "b \<noteq> a" using step_finish(2) a(1) by auto
    then show ?thesis using finish_inv [OF uinv step_finish(2,3)] step_finish(1) a same by auto
  next
    case (step_open st)
    then show ?thesis using open_inv [OF uinv step_open(2)] a same by auto
  next
    case (step_get b st)
    obtain e where "b \<in> waiting s" "st = set_event b (Some e) (us s)"
      using get_ready_inv [OF uinv step_get(3)] by auto
    then show ?thesis using step_get(1) a same by auto
  next
    case (step_got b uok r st)
    then have "b \<noteq> a" "in_progress (us s) b" using a inv by (auto simp: sys_inv_def)
    then show ?thesis using reply_inv [OF uinv _ step_got(3)] step_got(1) a same by auto
  next
    case (step_put ticket b)
    have "b \<noteq> a" using find_ticket_in step_put(3) a(4) by (auto simp: lookup_event_w_ticket_def)
    then show ?thesis using step_put(1) a same by auto
  next
    case (step_done b data uok len r st)
    then have "b \<noteq> a" "in_progress (us s) b" using a inv by (auto simp: sys_inv_def)
    then show ?thesis using answer_inv [OF uinv _ step_done(3,4)] step_done(1) a same by auto
  next
    case (step_release st)
    then show ?thesis using release_inv [OF uinv] a same by auto
  qed
qed

lemma abandoned_reach:
  "usim_reach s s' \<Longrightarrow> sys_inv s \<Longrightarrow> abandoned s a \<Longrightarrow> ev_at (us s') a = ev_at (us s) a \<and> abandoned s' a"
proof (induction rule: usim_reach.induct)
  case (usim_next s s' s'')
  have "sys_inv s'" by (rule sys_reach_inv [OF usim_next.hyps(1) usim_next.prems(1)])
  then show ?case using usim_next.IH [OF usim_next.prems] abandoned_step [OF usim_next.hyps(2)] by simp
qed simp

text \<open>A sender interrupted while the simulator works on its event leaks the event. The event is
  off the queue, so that neither PUT nor the close of the device finds it any more, and the
  simulator's reference is never dropped: in every later state it is still allocated and in
  progress, unchanged.\<close>

theorem interrupted_event_leaks:
  assumes "usim_reach sys_start s" and "in_progress (us s) a" and "a \<notin> waiting s" and "pend s = Idle"
    and "usim_reach s s'"
  shows "ev_at (us s') a = ev_at (us s) a \<and> in_progress (us s') a
     \<and> (\<forall>ticket. lookup_event_w_ticket ticket (us s') \<noteq> Done (Some a))"
proof -
  have inv: "sys_inv s" by (rule usim_reach_inv [OF assms(1)])
  have "abandoned s a" using assms(2-4) by (simp add: abandoned_def)
  from abandoned_reach [OF assms(5) inv this] have ab: "ev_at (us s') a = ev_at (us s) a" "abandoned s' a" by auto
  have "usim_inv (waiting s') (us s')" using sys_reach_inv [OF assms(5) inv] by (simp add: sys_inv_def)
  then have "a \<notin> set (eventq (us s'))" using ab(2) by (simp add: usim_inv_def abandoned_def)
  then show ?thesis
    using ab find_ticket_in by (auto simp: abandoned_def lookup_event_w_ticket_def)
qed

lemma interrupted_state:
  "\<exists>s. usim_reach sys_start s \<and> in_progress (us s) 0 \<and> 0 \<notin> waiting s \<and> pend s = Idle"
proof -
  let ?st = "us demo_sys"
  have inv: "usim_inv {0} ?st" using usim_reach_inv [OF demo_sys_reach] by (simp add: sys_inv_def demo_sys_def)
  obtain e where e: "ev_at ?st 0 = Some e" "ue_state e = STATE_READY"
    by (simp add: demo_sys_def sent_def usim_start_def new_event_def)
  have q: "eventq ?st = [0]" by (simp add: demo_sys_def sent_def usim_start_def)
  obtain r st1 where g: "get_1st_ready_event ?st = (r, st1)" by fastforce
  have "first_ready ?st [0] = Done (Some 0)" using e by simp
  then have "r = Done (Some 0)"
    using g q e by (simp add: get_1st_ready_event_def with_event_def get_event_def)
  then have g1: "get_1st_ready_event ?st = (Done (Some 0), st1)" "in_progress st1 0" "usim_inv {0} st1"
    using get_ready_inv [OF inv g] g by auto
  let ?s1 = "demo_sys\<lparr>us := st1, pend := Getting 0\<rparr>"
  have r1: "usim_reach sys_start ?s1"
    using usim_next [OF demo_sys_reach step_get [OF _ g1(1)]] by (simp add: demo_sys_def)
  obtain e1 where e1: "ev_at st1 0 = Some e1" "ue_state e1 = STATE_IN_PROGRESS" using g1(2) by (auto simp: in_progress_def)
  obtain r2 st2 where g2: "get_event_reply (\<lambda>_. True) 0 st1 = (r2, st2)" by fastforce
  have "length (ue_data e1) = DATA_SIZE" "request_fits (ue_type e1) (ue_len e1)"
    using g1(3) e1(1) by (auto simp: usim_inv_def event_ok_def)
  then have "st2 = st1"
    using g2 e1(1) request_fits_write [of "ue_type e1" "ue_len e1"]
    by (auto simp: get_event_reply_def with_event_def Let_def DATA_SIZE_def split: if_splits)
  then have g2': "get_event_reply (\<lambda>_. True) 0 (us ?s1) = (r2, st1)" using g2 by simp
  let ?s2 = "?s1\<lparr>us := st1, pend := Idle\<rparr>"
  have r2: "usim_reach sys_start ?s2"
    using usim_next [OF r1 step_got [OF _ g2']] by simp
  have "finish_wait True 0 st1 \<noteq> None"
    using e1 by (simp add: finish_wait_def wait_event_completion_def Let_def split: prod.splits)
  then obtain r3 st3 where f: "finish_wait True 0 st1 = Some (r3, st3)" by auto
  have f1: "\<exists>v. r3 = Done v" "in_progress st3 0"
    using finish_inv [OF g1(3) _ f] e1 by (auto simp: in_progress_def)
  then obtain v where "finish_wait True 0 (us ?s2) = Some (Done v, st3)" using f by auto
  moreover have "0 \<in> waiting ?s2" by (simp add: demo_sys_def)
  ultimately have "usim_reach sys_start (?s2\<lparr>us := st3, waiting := waiting ?s2 - {0}\<rparr>)"
    using usim_next [OF r2 step_finish] by blast
  then show ?thesis using f1(2) by (intro exI [of _ "?s2\<lparr>us := st3, waiting := waiting ?s2 - {0}\<rparr>"]) simp
qed

theorem interrupted_event_leaks_witness:
  "\<exists>s. usim_reach sys_start s \<and> waiting s = waiting s - {0} \<and> (\<forall>s'. usim_reach s s' \<longrightarrow> in_progress (us s') 0)"
proof -
  obtain s where s: "usim_reach sys_start s" "in_progress (us s) 0" "0 \<notin> waiting s" "pend s = Idle"
    using interrupted_state by blast
  have "\<forall>s'. usim_reach s s' \<longrightarrow> in_progress (us s') 0" using interrupted_event_leaks [OF s] by blast
  then show ?thesis using s(1,3) by (intro exI [of _ s]) simp
qed

section \<open>A simulator that breaks the protocol\<close>

text \<open>A PUT for an event the simulator has not got, or has put before, takes the sender's
  reference: the command succeeds, the event is freed, and the sender reads and unlinks freed
  memory when it wakes up, as does every later walk over the queue.\<close>

theorem premature_put_is_use_after_free:
  assumes "usim_inv W st" and "a \<in> W" and "\<not> in_progress st a" and "\<forall>n. uok n"
    and "lookup_event_w_ticket ticket st = Done (Some a)" and "length data = DATA_SIZE" and "unat len \<le> DATA_SIZE"
  shows "\<exists>st'. handle_i2c_usim_ioctl uok (PUT_EVENT ticket len data) st = (Done No_reply, st')
     \<and> (\<forall>signal. wait_event_completion a signal st' = Some (Crash Use_after_free, st'))"
proof -
  obtain e where e: "ev_at st a = Some e" "event_ok W a e" using usim_inv_event [OF assms(1,2)] by blast
  then have r: "refcnt e = 1" "length (ue_data e) = DATA_SIZE"
    using assms(2,3) by (auto simp: event_ok_def refs_def in_progress_def)
  have c: "\<exists>st'. complete_event a None st1 = (Done (), st') \<and> ev_at st' a = None"
    if "ev_at st1 a = Some e1" "refcnt e1 = 1" for st1 e1
    using complete_event_result [OF that(1)] that(2) by simp
  have "\<exists>st'. put_event_answer uok len data a st = (Done (), st') \<and> ev_at st' a = None"
    using e(1) r assms(4,7) c
    by (auto simp: put_event_answer_def with_event_def Let_def)
  then show ?thesis
    using assms(4,5) by (auto simp: handle_i2c_usim_ioctl_def wait_event_completion_def)
qed

theorem premature_put_is_use_after_free_witness:
  "\<exists>st'. handle_i2c_usim_ioctl (\<lambda>_. True) (PUT_EVENT 1 0 (replicate DATA_SIZE 0)) (us demo_sys) = (Done No_reply, st')
     \<and> wait_event_completion 0 False st' = Some (Crash Use_after_free, st')"
proof -
  have inv: "usim_inv {0} (us demo_sys)" using usim_reach_inv [OF demo_sys_reach] by (simp add: sys_inv_def demo_sys_def)
  have l: "lookup_event_w_ticket 1 (us demo_sys) = Done (Some 0)" "\<not> in_progress (us demo_sys) 0"
    by (simp_all add: lookup_event_w_ticket_def demo_sys_def sent_def usim_start_def new_event_def in_progress_def)
  from premature_put_is_use_after_free [OF inv _ l(2) _ l(1), of "\<lambda>_. True" "replicate DATA_SIZE 0" 0]
  show ?thesis by auto
qed

section \<open>Transfers\<close>

text \<open>The simulator of the driver's documentation: it gets an event and puts the answer \<open>f\<close> gives.\<close>

definition serve :: "(usim_ioc_event \<Rightarrow> u32 \<times> u8 list) \<Rightarrow> world" where
  "serve f a st =
     (case handle_i2c_usim_ioctl (\<lambda>_. True) GET_EVENT st of
        (Done (Got ev), st) \<Rightarrow>
          (snd (handle_i2c_usim_ioctl (\<lambda>_. True) (PUT_EVENT (io_ticket ev) (fst (f ev)) (snd (f ev))) st), False)
      | (_, st) \<Rightarrow> (st, False))"

text \<open>What the simulator sees of an event: a write with its data, a read with one byte.\<close>

definition event_reply :: "usim_event \<Rightarrow> usim_ioc_event" where
  "event_reply e = \<lparr>io_ticket = ue_ticket e, io_type = ue_type e, io_bus = ue_bus e, io_addr = ue_addr e,
     io_len = ue_len e,
     io_data = take (if ACCESS_TYPE (ue_type e) AND WRITE_ACCESS \<noteq> 0 then unat (ue_len e) else 1) (ue_data e)\<rparr>"

lemma GET_result:
  assumes "find (\<lambda>a. \<exists>e. ev_at st a = Some e \<and> ue_state e = STATE_READY) (eventq st) = Some a"
    and "usim_inv W st"
  shows "\<exists>e. ev_at st a = Some e \<and> ue_state e = STATE_READY \<and> event_ok W a e
     \<and> handle_i2c_usim_ioctl (\<lambda>_. True) GET_EVENT st
         = (Done (Got (event_reply e)), set_event a (Some (e\<lparr>ue_state := STATE_IN_PROGRESS, refcnt := refcnt e + 1\<rparr>)) st)"
proof -
  have alive: "\<forall>a\<in>set (eventq st). ev_at st a \<noteq> None" using assms(2) by (simp add: usim_inv_def)
  obtain e where e: "ev_at st a = Some e" "ue_state e = STATE_READY" using assms(1) by (auto simp: find_Some_iff)
  have ok: "event_ok W a e" using assms(2) e(1) by (simp add: usim_inv_def)
  have len: "ACCESS_TYPE (ue_type e) AND WRITE_ACCESS \<noteq> 0 \<longrightarrow> \<not> length (ue_data e) < unat (ue_len e)" "ue_data e \<noteq> []"
    using ok request_fits_write [of "ue_type e" "ue_len e"] by (auto simp: event_ok_def not_less DATA_SIZE_def)
  show ?thesis
    using len e ok first_ready_result [OF alive] assms(1)
    by (simp add: handle_i2c_usim_ioctl_def get_1st_ready_event_def with_event_def get_event_def
        get_event_reply_def Let_def event_reply_def set_event_def)
qed

lemma serve_result:
  assumes idle: "eventq st = []" and inv: "usim_inv {} st" and e: "refcnt e = 1" "ue_state e = STATE_READY"
    "length (ue_data e) = DATA_SIZE" "request_fits (ue_type e) (ue_len e)" "ue_ticket e = last_ticket st + 1"
    and f: "f (event_reply e) = (n, d)" "length d = DATA_SIZE" "unat n \<le> DATA_SIZE"
  shows "serve f (next_addr st) (sent e st) = (set_event (next_addr st) (Some
      ((if ACCESS_TYPE (ue_type e) AND READ_ACCESS \<noteq> 0
        then e\<lparr>ue_len := n, ue_data := take (unat n) d @ drop (unat n) (ue_data e)\<rparr> else e)
       \<lparr>ue_status := None, ue_state := STATE_DONE, refcnt := 1\<rparr>)) (sent e st), False)"
proof -
  let ?a = "next_addr st"
  have inv1: "usim_inv {?a} (sent e st)" using sent_inv [OF inv e(1-4)] by simp
  have q: "eventq (sent e st) = [?a]" "ev_at (sent e st) ?a = Some e" using idle by (simp_all add: sent_def)
  have "find (\<lambda>a. \<exists>e'. ev_at (sent e st) a = Some e' \<and> ue_state e' = STATE_READY) (eventq (sent e st)) = Some ?a"
    using q e(2) by simp
  from GET_result [OF this inv1] q(2)
  have g: "handle_i2c_usim_ioctl (\<lambda>_. True) GET_EVENT (sent e st)
      = (Done (Got (event_reply e)), set_event ?a (Some (e\<lparr>ue_state := STATE_IN_PROGRESS, refcnt := 2\<rparr>)) (sent e st))"
    using e(1) by (simp add: numeral_2_eq_2)
  let ?e1 = "e\<lparr>ue_state := STATE_IN_PROGRESS, refcnt := 2\<rparr>"
  let ?st1 = "set_event ?a (Some ?e1) (sent e st)"
  have l: "lookup_event_w_ticket (io_ticket (event_reply e)) ?st1 = Done (Some ?a)"
    using q by (simp add: lookup_event_w_ticket_def event_reply_def)
  show ?thesis
    using g l e(3) f
    by (simp add: serve_def handle_i2c_usim_ioctl_def [of _ "PUT_EVENT _ _ _"] put_event_answer_def with_event_def Let_def
        complete_event_result set_event_def)
qed

text \<open>The state after a whole transfer: only the counters moved.\<close>

definition served :: "usim \<Rightarrow> usim" where
  "served st = st\<lparr>next_addr := next_addr st + 1, last_ticket := last_ticket st + 1\<rparr>"

lemma post_and_wait_serve:
  assumes idle: "eventq st = []" and inv: "usim_inv {} st" and len: "length bytes \<le> DATA_SIZE"
    and fits: "request_fits type l" and e: "e = new_event type bus adr l bytes st"
    and f: "f (event_reply e) = (n, d)" "length d = DATA_SIZE" "unat n \<le> DATA_SIZE"
    and st0: "st0 = (set_event (next_addr st) (Some e) st)\<lparr>next_addr := next_addr st + 1, last_ticket := last_ticket st + 1\<rparr>"
  shows "post_and_wait (serve f) (next_addr st) st0 = Some (Done None, set_event (next_addr st) (Some
      ((if ACCESS_TYPE type AND READ_ACCESS \<noteq> 0
        then e\<lparr>ue_len := n, ue_data := take (unat n) d @ drop (unat n) (ue_data e)\<rparr> else e)
       \<lparr>ue_status := None, ue_state := STATE_DONE, refcnt := 1\<rparr>)) (served st))"
proof -
  let ?a = "next_addr st"
  have e': "refcnt e = 1" "ue_state e = STATE_READY" "length (ue_data e) = DATA_SIZE"
      "request_fits (ue_type e) (ue_len e)" "ue_ticket e = last_ticket st + 1" "ue_type e = type"
    using len fits by (simp_all add: e new_event_def)
  have p: "usim_post_event ?a st0 = (Done (), sent e st)"
    using e'(2) by (simp add: st0 usim_post_event_def with_event_def sent_def set_event_def e new_event_def)
  have w: "wait_event_completion ?a False (set_event ?a (Some x) (sent e st)) = Some (Done None, set_event ?a (Some x) (served st))"
    if "ue_status x = None" "ue_state x = STATE_DONE" for x
    using that idle by (simp add: wait_event_completion_def Let_def) (simp add: sent_def served_def set_event_def)
  note sv = serve_result [where f = f, OF idle inv e'(1-5) f, unfolded e'(6)]
  show ?thesis
    by (simp only: post_and_wait_def p sv prod.case res.case) (rule w; simp)
qed

lemma finish_served:
  assumes "usim_inv {} st" and "refcnt e = 1" and "\<forall>c. r \<noteq> Crash c"
  shows "finish_xfer (next_addr st) r (set_event (next_addr st) (Some e) (served st)) = (r, served st)"
proof -
  have "ev_at st (next_addr st) = None"
    using assms(1) by (cases "ev_at st (next_addr st)") (auto simp: usim_inv_def)
  then have "(ev_at st)(next_addr st := None) = ev_at st" by auto
  then have "set_event (next_addr st) None (set_event (next_addr st) (Some e) (served st)) = served st"
    by (simp add: set_event_def served_def)
  then show ?thesis
    using assms(2,3) put_event_result [of "set_event (next_addr st) (Some e) (served st)" "next_addr st" e]
    by (cases r) (simp_all add: finish_xfer_def)
qed

text \<open>An SMBus read over the simulated bus. The simulator sees one event with the command, and
  what it answers is what the reader gets: one byte, two bytes, or a block of 1 to 32 bytes with
  its length in front, any other block length being a protocol error. An answer shorter than the
  read is not noticed: the missing bytes are what the event held before, the command or zero.
  Afterwards the event is freed and the queue is as before.\<close>

lemma usim_smb_read_serve:
  assumes idle: "eventq st = []" and inv: "usim_inv {} st" and len: "smb_read_len sz = Some l"
    and f: "f \<lparr>io_ticket = last_ticket st + 1, io_type = I2C_USIM_SMB_READ, io_bus = bus, io_addr = ucast addr,
              io_len = of_nat l, io_data = [command]\<rparr> = (n, d)" "length d = DATA_SIZE" "unat n \<le> DATA_SIZE"
  shows "usim_smb_read True (serve f) bus addr command sz st = Some (
     if sz = I2C_SMBUS_BLOCK_DATA then
       if 0 < n \<and> unat n \<le> I2C_SMBUS_BLOCK_MAX then Done (ucast n # take (unat n) d) else Fail EPROTO
     else Done (take l (take (unat n) d @ drop (unat n) (command # replicate 511 0))),
     served st)"
proof -
  let ?e = "new_event I2C_USIM_SMB_READ bus (ucast addr) (of_nat l) [command] st"
  let ?e' = "?e\<lparr>ue_len := n, ue_data := take (unat n) d @ drop (unat n) (ue_data ?e), ue_status := None,
    ue_state := STATE_DONE, refcnt := 1\<rparr>"
  obtain st1 where st1: "alloc_i2c_event True I2C_USIM_SMB_READ bus (ucast addr) (of_nat l) st = (Some (next_addr st), st1)"
      "copy_to_event (next_addr st) 0 [command] st1
         = (Done (), (set_event (next_addr st) (Some ?e) st)\<lparr>next_addr := next_addr st + 1, last_ticket := last_ticket st + 1\<rparr>)"
    using alloc_copy_result [of "[command]" I2C_USIM_SMB_READ bus "ucast addr" "of_nat l" st] by (auto simp: DATA_SIZE_def)
  have r: "event_reply ?e = \<lparr>io_ticket = last_ticket st + 1, io_type = I2C_USIM_SMB_READ, io_bus = bus, io_addr = ucast addr,
              io_len = of_nat l, io_data = [command]\<rparr>"
    by (simp add: event_reply_def new_event_def)
  have fits: "request_fits I2C_USIM_SMB_READ (of_nat l)" by (simp add: request_fits_def)
  have "length [command] \<le> DATA_SIZE" by (simp add: DATA_SIZE_def)
  from post_and_wait_serve [where f = f, OF idle inv this fits refl f(1) [folded r] f(2,3) refl]
  have pw: "post_and_wait (serve f) (next_addr st)
      ((set_event (next_addr st) (Some ?e) st)\<lparr>next_addr := next_addr st + 1, last_ticket := last_ticket st + 1\<rparr>)
      = Some (Done None, set_event (next_addr st) (Some ?e') (served st))"
    by simp
  have d: "ue_data ?e = command # replicate 511 0" by (simp add: new_event_def DATA_SIZE_def)
  have l: "l \<le> 34" using len by (auto simp: smb_read_len_def I2C_SMBUS_BLOCK_MAX_def split: if_splits)
  have "smb_read_result sz l (next_addr st) (set_event (next_addr st) (Some ?e') (served st))
      = (if sz = I2C_SMBUS_BLOCK_DATA then
           if 0 < n \<and> unat n \<le> I2C_SMBUS_BLOCK_MAX then Done (ucast n # take (unat n) d) else Fail EPROTO
         else Done (take l (take (unat n) d @ drop (unat n) (command # replicate 511 0))),
         set_event (next_addr st) (Some ?e') (served st))"
    using f(2,3) l d
    by (simp add: smb_read_result_def with_event_def copy_from_event_def DATA_SIZE_def I2C_SMBUS_BLOCK_MAX_def)
  then show ?thesis
    using st1 pw len by (simp add: usim_smb_read_def finish_served [OF inv] del: take_append)
qed

section \<open>The order of requests\<close>

text \<open>A request as its sender makes it: type, bus, address, length and data.\<close>

type_synonym request = "u32 \<times> u32 \<times> u32 \<times> u32 \<times> u8 list"

definition is_ready :: "usim \<Rightarrow> nat \<Rightarrow> bool" where
  "is_ready st a \<longleftrightarrow> (\<exists>e. ev_at st a = Some e \<and> ue_state e = STATE_READY)"

definition valid_request :: "request \<Rightarrow> bool" where
  "valid_request = (\<lambda>(type, bus, adr, len, bytes). request_fits type len \<and> length bytes \<le> DATA_SIZE
     \<and> length bytes = (if ACCESS_TYPE type AND WRITE_ACCESS \<noteq> 0 then unat len else 1))"

definition request_of :: "usim_event \<Rightarrow> request" where
  "request_of e = (ue_type e, ue_bus e, ue_addr e, ue_len e, io_data (event_reply e))"

definition ready_requests :: "usim \<Rightarrow> request list" where
  "ready_requests st = map (\<lambda>a. request_of (the (ev_at st a))) (filter (is_ready st) (eventq st))"

definition put_request :: "request \<Rightarrow> usim \<Rightarrow> usim" where
  "put_request = (\<lambda>(type, bus, adr, len, bytes) st. snd (send_event True type bus adr len bytes st))"

definition get_request :: "usim \<Rightarrow> (request \<times> usim) option" where
  "get_request st =
     (case handle_i2c_usim_ioctl (\<lambda>_. True) GET_EVENT st of
        (Done (Got ev), st) \<Rightarrow> Some ((io_type ev, io_bus ev, io_addr ev, io_len ev, io_data ev), st)
      | _ \<Rightarrow> None)"

lemma put_request_law:
  assumes "usim_inv W st" and "valid_request x"
  shows "(\<exists>W. usim_inv W (put_request x st)) \<and> ready_requests (put_request x st) = ready_requests st @ [x]"
proof -
  obtain type bus adr len bytes where x: "x = (type, bus, adr, len, bytes)" by (cases x) auto
  let ?e = "new_event type bus adr len bytes st" and ?a = "next_addr st"
  have v: "request_fits type len" "length bytes \<le> DATA_SIZE"
      "length bytes = (if ACCESS_TYPE type AND WRITE_ACCESS \<noteq> 0 then unat len else 1)"
    using assms(2) by (auto simp: x valid_request_def)
  have p: "put_request x st = sent ?e st" using send_event_result [OF v(2)] by (simp add: x put_request_def)
  have "usim_inv (insert ?a W) (sent ?e st)"
    using v by (intro sent_inv [OF assms(1)]) (simp_all add: new_event_def)
  moreover have "\<forall>a\<in>set (eventq st). ev_at (sent ?e st) a = ev_at st a"
  proof
    fix a assume "a \<in> set (eventq st)"
    then obtain e where "ev_at st a = Some e" using assms(1) by (auto simp: usim_inv_def)
    then have "a \<noteq> ?a" using assms(1) by (auto simp: usim_inv_def)
    then show "ev_at (sent ?e st) a = ev_at st a" by (simp add: sent_def)
  qed
  then have "filter (is_ready (sent ?e st)) (eventq st) = filter (is_ready st) (eventq st)"
      "map (\<lambda>a. request_of (the (ev_at (sent ?e st) a))) (filter (is_ready st) (eventq st))
       = map (\<lambda>a. request_of (the (ev_at st a))) (filter (is_ready st) (eventq st))"
    by (auto simp: is_ready_def intro!: filter_cong)
  moreover have "eventq (sent ?e st) = eventq st @ [?a]" "ev_at (sent ?e st) ?a = Some ?e"
    by (simp_all add: sent_def)
  moreover have "request_of ?e = x"
    using v(3) by (simp add: x request_of_def event_reply_def new_event_def)
  moreover have "ue_state ?e = STATE_READY" by (simp add: new_event_def)
  ultimately show ?thesis by (auto simp: p ready_requests_def is_ready_def)
qed

lemma filter_find:
  "find P xs = Some a \<Longrightarrow> distinct xs \<Longrightarrow> filter P xs = a # filter (\<lambda>x. P x \<and> x \<noteq> a) xs"
proof (induction xs)
  case (Cons x xs)
  show ?case
  proof (cases "P x")
    case True
    then have "a = x" "x \<notin> set xs" using Cons.prems by auto
    then show ?thesis using True by (auto intro!: filter_cong)
  qed (use Cons in auto)
qed simp

lemma get_request_law:
  assumes inv: "usim_inv W st"
  shows "case get_request st of None \<Rightarrow> ready_requests st = []
     | Some (x, st') \<Rightarrow> (\<exists>W. usim_inv W st') \<and> ready_requests st = x # ready_requests st'"
proof (cases "find (is_ready st) (eventq st)")
  case None
  have alive: "\<forall>a\<in>set (eventq st). ev_at st a \<noteq> None" using inv by (simp add: usim_inv_def)
  have "first_ready st (eventq st) = Done None"
    using None first_ready_result [OF alive] by (simp add: is_ready_def [abs_def])
  moreover have "filter (is_ready st) (eventq st) = []" using None by (simp add: find_None_iff filter_empty_conv)
  ultimately show ?thesis
    by (simp add: get_request_def handle_i2c_usim_ioctl_def get_1st_ready_event_def ready_requests_def)
next
  case (Some a)
  have fa: "find (\<lambda>a. \<exists>e. ev_at st a = Some e \<and> ue_state e = STATE_READY) (eventq st) = Some a"
    using Some by (simp add: is_ready_def [abs_def])
  obtain e where e: "ev_at st a = Some e" "ue_state e = STATE_READY" "event_ok W a e"
      "handle_i2c_usim_ioctl (\<lambda>_. True) GET_EVENT st
         = (Done (Got (event_reply e)), set_event a (Some (e\<lparr>ue_state := STATE_IN_PROGRESS, refcnt := refcnt e + 1\<rparr>)) st)"
    using GET_result [OF fa inv] by blast
  let ?e = "e\<lparr>ue_state := STATE_IN_PROGRESS, refcnt := refcnt e + 1\<rparr>"
  let ?st = "set_event a (Some ?e) st"
  have "event_ok W a ?e" using e(2,3) by (simp add: event_ok_def refs_def)
  then have "usim_inv W ?st" using usim_inv_set [OF inv] e(1) by simp
  moreover have "ready_requests st = request_of e # ready_requests ?st"
  proof -
    have d: "distinct (eventq st)" using inv by (simp add: usim_inv_def)
    have r: "is_ready ?st = (\<lambda>x. is_ready st x \<and> x \<noteq> a)" by (auto simp: is_ready_def fun_eq_iff)
    have "map (\<lambda>a. request_of (the (ev_at st a))) (filter (\<lambda>x. is_ready st x \<and> x \<noteq> a) (eventq st))
        = map (\<lambda>a. request_of (the (ev_at ?st a))) (filter (\<lambda>x. is_ready st x \<and> x \<noteq> a) (eventq st))"
      by simp
    then show ?thesis
      unfolding ready_requests_def r set_event_simps(2) filter_find [OF Some d] using e(1) by simp
  qed
  ultimately show ?thesis
    using e(4) by (auto simp: get_request_def request_of_def event_reply_def)
qed

interpretation bus: fifo "\<lambda>st. \<exists>W. usim_inv W st" valid_request ready_requests put_request get_request
proof
  show "(\<exists>W. usim_inv W (put_request x s)) \<and> ready_requests (put_request x s) = ready_requests s @ [x]"
    if "\<exists>W. usim_inv W s" "valid_request x" for s x
    using that put_request_law by blast
  show "case get_request s of None \<Rightarrow> ready_requests s = []
     | Some (x, s') \<Rightarrow> (\<exists>W. usim_inv W s') \<and> ready_requests s = x # ready_requests s'"
    if "\<exists>W. usim_inv W s" for s
    using that get_request_law by blast
qed

text \<open>The requests a simulator gets by \<open>n\<close> GET commands.\<close>

fun get_requests :: "nat \<Rightarrow> usim \<Rightarrow> request list" where
  "get_requests 0 st = []"
| "get_requests (Suc n) st =
     (case get_request st of
        None \<Rightarrow> []
      | Some (x, st) \<Rightarrow> x # get_requests n st)"

lemma get_requests_bus: "get_requests n st = fst (bus.get_n n st)"
  by (induction n arbitrary: st) (auto split: option.splits prod.splits)

text \<open>C32: Requests reach the simulator in the order in which their senders posted them, each once and
  unchanged: type, bus, address, length and, for a write, every byte of its data, for a read its
  command byte.\<close>

theorem usim_requests_in_order:
  assumes "usim_inv W st" and "ready_requests st = []" and "\<forall>x\<in>set xs. valid_request x"
  shows "get_requests (length xs) (fold put_request xs st) = xs"
  unfolding get_requests_bus using assms by (intro bus.burst) auto

theorem usim_requests_in_order_witness:
  "get_requests 2 (fold put_request [(I2C_USIM_SMB_WRITE, 1, 0x20, 3, [7, 8, 9]), (I2C_USIM_SMB_READ, 1, 0x21, 2, [5])] usim_start)
     = [(I2C_USIM_SMB_WRITE, 1, 0x20, 3, [7, 8, 9]), (I2C_USIM_SMB_READ, 1, 0x21, 2, [5])]"
proof -
  have inv: "usim_inv {} usim_start" using sys_start_inv by (simp add: sys_inv_def sys_start_def)
  have r: "ready_requests usim_start = []" by (simp add: ready_requests_def usim_start_def)
  have v: "\<forall>x\<in>set [(I2C_USIM_SMB_WRITE, 1, 0x20, 3, [7, 8, 9]), (I2C_USIM_SMB_READ, 1, 0x21, 2, [5])]. valid_request x"
    by (simp add: valid_request_def request_fits_def DATA_SIZE_def)
  from usim_requests_in_order [OF inv r v] show ?thesis by (simp add: numeral_2_eq_2 del: get_requests.simps)
qed

section \<open>Long messages\<close>

lemma usim_i2c_write_long:
  assumes "DATA_SIZE < unat (m_len msg)" and "unat (m_len msg) \<le> length (m_buf msg)"
  shows "\<exists>st'. usim_i2c_write True w bus msg st = Some (Crash Out_of_bounds, st')"
  using assms
  by (simp add: usim_i2c_write_def alloc_i2c_event_def alloc_event_def Let_def copy_to_event_def with_event_def set_event_def)

end
