(* ===== verification/AnimalProps.thy ===== *)
theory AnimalProps
  imports AnimalI2c UsimProps
begin

text \<open>
  The properties of the I2C driver for user space: the bracket around every transfer, the GPIO of a
  handle, the replies of the I2C commands, and loading and unloading.
\<close>

section \<open>Transfers\<close>

definition bracket :: "animal_handle \<Rightarrow> action list" where
  "bracket hnd =
     (let sel = (\<lambda>v. if gpio hnd \<ge> 0 then [Set_gpio (gpio hnd) v] else [])
      in [Lock (hnd_adapter hnd)] @ sel True @ [Core (client_adapter hnd)] @ sel False @ [Unlock (hnd_adapter hnd)])"

lemma locked_xfer_kernel:
  "locked_xfer (animal_gpio_ops k) hnd f bs
     = (fst (f (core bs)), bs\<lparr>core := snd (f (core bs)), actions := actions bs @ bracket hnd\<rparr>)"
  by (simp add: locked_xfer_def Let_def animal_i2c_xfer_begin_def animal_i2c_xfer_done_def animal_gpio_ops_def
      bracket_def split: prod.splits)

definition driver_ops :: "'s gpio_operations \<Rightarrow> bool" where
  "driver_ops ops \<longleftrightarrow> ops = simulator_gpio_ops \<or> (\<exists>k. ops = animal_gpio_ops k)"

lemma driver_opsI [simp]: "driver_ops simulator_gpio_ops" "driver_ops (animal_gpio_ops k)"
  by (auto simp: driver_ops_def)

text \<open>Neither way of selecting the chip touches the core.\<close>

lemma locked_xfer_core:
  assumes "driver_ops ops" and "f (core bs) = (r, s')"
  shows "\<exists>bs'. locked_xfer ops hnd f bs = (r, bs') \<and> core bs' = s'"
  using assms
  by (auto simp: driver_ops_def locked_xfer_def Let_def animal_i2c_xfer_begin_def animal_i2c_xfer_done_def
      animal_gpio_ops_def simulator_gpio_ops_def)

text \<open>Nothing happened, or one call of the core.\<close>

definition calls_core :: "animal_handle \<Rightarrow> 's bus_state \<Rightarrow> 's bus_state \<Rightarrow> bool" where
  "calls_core hnd bs bs' \<longleftrightarrow> bs' = bs \<or> (\<exists>c. bs' = bs\<lparr>core := c, actions := actions bs @ bracket hnd\<rparr>)"

lemma calls_coreI [simp]:
  "calls_core hnd bs bs" "calls_core hnd bs (bs\<lparr>core := c, actions := actions bs @ bracket hnd\<rparr>)"
  by (auto simp: calls_core_def)

lemma block_commands:
  "calls_core hnd bs (snd (animal_read_block c (animal_gpio_ops k) io command sz hnd bs))"
  "calls_core hnd bs (snd (animal_i2c_write c (animal_gpio_ops k) io command sz data hnd bs))"
  "calls_core hnd bs (snd (animal_i2c_writeread c (animal_gpio_ops k) io command sz hnd bs))"
  "calls_core hnd bs (snd (animal_smb_write_block c (animal_gpio_ops k) command sz data hnd bs))"
  by (simp_all add: animal_read_block_def animal_smb_write_block_def animal_i2c_write_def animal_i2c_writeread_def Let_def locked_xfer_kernel
      split: res.splits)

lemma ioctl_calls_core:
  assumes "\<forall>g. cmd \<noteq> ANIMAL_IOCTL_SET_GPIO g"
  shows "calls_core hnd bs (snd (snd (do_animal_ioctl c (animal_gpio_ops k) dev io cmd hnd bs)))
     \<and> gpio (fst (snd (do_animal_ioctl c (animal_gpio_ops k) dev io cmd hnd bs))) = gpio hnd"
proof (cases cmd)
  case (ANIMAL_IOCTL_SET_ADAPTER i)
  then show ?thesis by (simp add: do_animal_ioctl_def animal_set_adapter_def split: option.splits)
next
  case (ANIMAL_IOCTL_SMB_READ_BLOCK command sz)
  then show ?thesis
    using block_commands(1) [of hnd bs c k io command sz] 
    by (cases "animal_read_block c (animal_gpio_ops k) io command sz hnd bs") (simp add: do_animal_ioctl_def)
next
  case (ANIMAL_IOCTL_SMB_WRITE_BLOCK command sz data)
  then show ?thesis
    using block_commands(4) [of hnd bs c k command sz data]
    by (cases "animal_smb_write_block c (animal_gpio_ops k) command sz data hnd bs") (simp add: do_animal_ioctl_def)
next
  case (ANIMAL_IOCTL_I2C_WRITE command sz data)
  then show ?thesis
    using block_commands(2) [of hnd bs c k io command sz data] 
    by (cases "animal_i2c_write c (animal_gpio_ops k) io command sz data hnd bs") (simp add: do_animal_ioctl_def)
next
  case (ANIMAL_IOCTL_I2C_WRITEREAD command sz)
  then show ?thesis
    using block_commands(3) [of hnd bs c k io command sz] 
    by (cases "animal_i2c_writeread c (animal_gpio_ops k) io command sz hnd bs") (simp add: do_animal_ioctl_def)
qed (use assms in \<open>simp_all add: do_animal_ioctl_def locked_xfer_kernel split: res.splits\<close>)

lemma set_gpio_actions:
  "actions (snd (snd (animal_set_gpio (animal_gpio_ops k) g hnd bs))) = actions bs"
  by (auto simp: animal_set_gpio_def Let_def animal_gpio_init_def animal_gpio_ops_def
      split: res.splits option.splits prod.splits if_splits)


section \<open>The GPIO of a handle\<close>

text \<open>A sequence of commands on one open file.\<close>

fun run_ioctls ::
    "'s i2c_core \<Rightarrow> 's gpio_operations \<Rightarrow> animal_device \<Rightarrow> (animal_io \<times> animal_cmd) list \<Rightarrow> animal_handle
      \<Rightarrow> 's bus_state \<Rightarrow> animal_handle \<times> 's bus_state" where
  "run_ioctls c ops dev [] hnd bs = (hnd, bs)"
| "run_ioctls c ops dev ((io, cmd) # cmds) hnd bs =
     (case do_animal_ioctl c ops dev io cmd hnd bs of (_, hnd, bs) \<Rightarrow> run_ioctls c ops dev cmds hnd bs)"

text \<open>The handle owns its pin, besides those \<open>R\<close> of others.\<close>

definition owns :: "int set \<Rightarrow> animal_handle \<Rightarrow> 's bus_state \<Rightarrow> bool" where
  "owns R hnd bs \<longleftrightarrow> (if gpio hnd \<ge> 0 then gpio hnd \<notin> R \<and> requested bs = insert (gpio hnd) R else requested bs = R)"

definition good_gpio :: "gpio_kernel \<Rightarrow> animal_cmd \<Rightarrow> bool" where
  "good_gpio k cmd \<longleftrightarrow> (case cmd of
     ANIMAL_IOCTL_SET_GPIO g \<Rightarrow> 0 \<le> g \<and> k_is_valid k g \<and> k_direction k g = None
   | _ \<Rightarrow> True)"

lemma free_owns:
  assumes "owns R hnd bs" and "0 \<le> gpio hnd"
  shows "op_free (animal_gpio_ops k) (gpio hnd) bs = (Done (), bs\<lparr>requested := R\<rparr>)"
  using assms by (simp add: owns_def animal_gpio_ops_def)

lemma init_owns:
  assumes "requested bs = R" and "k_is_valid k g" "k_direction k g = None"
  shows "(animal_gpio_init (animal_gpio_ops k) g False False bs = (None, bs\<lparr>requested := insert g R\<rparr>) \<and> g \<notin> R)
     \<or> (\<exists>e. animal_gpio_init (animal_gpio_ops k) g False False bs = (Some e, bs))"
  using assms by (cases "g \<in> R"; cases "k_request k g") (simp_all add: animal_gpio_init_def animal_gpio_ops_def)

lemma set_gpio_owns:
  assumes own: "owns R hnd bs" and g: "0 \<le> g" "k_is_valid k g" "k_direction k g = None"
    and run: "animal_set_gpio (animal_gpio_ops k) g hnd bs = (r, hnd', bs')"
  shows "owns R hnd' bs' \<and> open_handles bs' = open_handles bs"
proof (cases "g = gpio hnd")
  case True
  then show ?thesis using own run by (simp add: animal_set_gpio_def)
next
  case False
  obtain bs1 where bs1: "(if gpio hnd \<ge> 0 then op_free (animal_gpio_ops k) (gpio hnd) bs else (Done (), bs)) = (Done (), bs1)"
    and req: "requested bs1 = R" "open_handles bs1 = open_handles bs"
    using free_owns [OF own, of k] own by (cases "0 \<le> gpio hnd") (auto simp: owns_def)
  from init_owns [OF req(1) g(2,3)] show ?thesis
  proof (elim disjE conjE exE)
    assume "animal_gpio_init (animal_gpio_ops k) g False False bs1 = (None, bs1\<lparr>requested := insert g R\<rparr>)" "g \<notin> R"
    then show ?thesis using run False bs1 req g(1) by (auto simp: animal_set_gpio_def owns_def)
  next
    fix e
    assume "animal_gpio_init (animal_gpio_ops k) g False False bs1 = (Some e, bs1)"
    then show ?thesis using run False bs1 req g(1) by (auto simp: animal_set_gpio_def owns_def)
  qed
qed

lemma ioctl_owns:
  assumes "owns R hnd bs" and "good_gpio k cmd"
    and run: "do_animal_ioctl c (animal_gpio_ops k) dev io cmd hnd bs = (r, hnd', bs')"
  shows "owns R hnd' bs' \<and> open_handles bs' = open_handles bs"
proof (cases "\<exists>g. cmd = ANIMAL_IOCTL_SET_GPIO g")
  case True
  then obtain g where g: "cmd = ANIMAL_IOCTL_SET_GPIO g" by blast
  show ?thesis
  proof (cases "a_user io 0")
    case True
    then show ?thesis
      using run assms(2) g set_gpio_owns [OF assms(1), of g k r hnd' bs'] by (simp add: do_animal_ioctl_def good_gpio_def)
  next
    case False
    then show ?thesis using run assms(1) g by (simp add: do_animal_ioctl_def)
  qed
next
  case False
  then have "calls_core hnd bs bs'" "gpio hnd' = gpio hnd"
    using ioctl_calls_core [of cmd hnd bs c k dev io] run by auto
  then show ?thesis using assms(1) by (auto simp: calls_core_def owns_def)
qed

lemma run_owns:
  assumes "owns R hnd bs" and "\<forall>(io, cmd)\<in>set cmds. good_gpio k cmd"
    and "run_ioctls c (animal_gpio_ops k) dev cmds hnd bs = (hnd', bs')"
  shows "owns R hnd' bs' \<and> open_handles bs' = open_handles bs"
  using assms
proof (induction cmds arbitrary: hnd bs)
  case (Cons x cmds)
  obtain io cmd where x: "x = (io, cmd)" by (cases x)
  obtain r h1 b1 where d: "do_animal_ioctl c (animal_gpio_ops k) dev io cmd hnd bs = (r, h1, b1)"
    by (cases "do_animal_ioctl c (animal_gpio_ops k) dev io cmd hnd bs") auto
  have "owns R h1 b1" "open_handles b1 = open_handles bs"
    using ioctl_owns [OF Cons.prems(1) _ d] Cons.prems(2) x by auto
  then show ?case using Cons.IH [of h1 b1] Cons.prems(2,3) x d by auto
qed simp

lemma open_result:
  "animal_open kz dev bs = (Done hnd, dev', bs') \<Longrightarrow>
     gpio hnd = -1 \<and> bs' = bs\<lparr>open_handles := open_handles bs + 1\<rparr>"
  by (auto simp: animal_open_def Let_def split: if_splits option.splits)


text \<open>Deselecting the GPIO with -1 gives the pin back but leaves its number in the handle, so that
  the next command that frees it, or the close, frees a pin the driver does not have.\<close>

theorem deselected_gpio_is_freed_twice:
  assumes "0 \<le> gpio hnd" and "gpio hnd \<in> requested bs" and "a_user io 0"
    and "do_animal_ioctl c (animal_gpio_ops k) dev io (ANIMAL_IOCTL_SET_GPIO (-1)) hnd bs = (r, hnd', bs')"
  shows "r = Done (Rc 0) \<and> requested bs' = requested bs - {gpio hnd}
     \<and> fst (animal_release (animal_gpio_ops k) hnd' bs') = Crash Not_requested"
  using assms by (auto simp: do_animal_ioctl_def animal_set_gpio_def animal_gpio_ops_def animal_release_def)

text \<open>The adapter of a handle is one the driver has.\<close>

definition hnd_ok :: "animal_device \<Rightarrow> animal_handle \<Rightarrow> bool" where
  "hnd_ok dev hnd \<longleftrightarrow> hnd_adapter hnd < length (animal_adapter dev)
     \<and> animal_adapter dev ! hnd_adapter hnd = Some (client_adapter hnd)"

lemma first_adapter_sound:
  "first_adapter i as = Some (j, nr) \<Longrightarrow> i \<le> j \<and> j - i < length as \<and> as ! (j - i) = Some nr"
proof (induction as arbitrary: i)
  case (Cons x as)
  show ?case
  proof (cases x)
    case None
    then have h: "i + 1 \<le> j" "j - (i + 1) < length as" "as ! (j - (i + 1)) = Some nr"
      using Cons by auto
    moreover have "j - i = Suc (j - (i + 1))" using h(1) by simp
    ultimately show ?thesis by simp
  qed (use Cons.prems in auto)
qed simp

lemma set_adapter_ok:
  assumes "hnd_ok dev hnd" and "animal_set_adapter dev i hnd = (r, hnd')"
  shows "hnd_ok dev hnd'"
  using assms by (auto simp: animal_set_adapter_def hnd_ok_def split: if_splits option.splits)

lemma set_gpio_adapter:
  assumes "animal_set_gpio ops g hnd bs = (r, hnd', bs')"
  shows "hnd_adapter hnd' = hnd_adapter hnd \<and> client_adapter hnd' = client_adapter hnd"
  using assms by (auto simp: animal_set_gpio_def Let_def split: if_splits res.splits option.splits prod.splits)

lemma ioctl_ok:
  assumes "hnd_ok dev hnd" and run: "do_animal_ioctl c ops dev io cmd hnd bs = (r, hnd', bs')"
  shows "hnd_ok dev hnd'"
proof (cases cmd)
  case (ANIMAL_IOCTL_SET_GPIO g)
  then show ?thesis
    using assms set_gpio_adapter [of ops g hnd bs r hnd' bs']
    by (auto simp: do_animal_ioctl_def hnd_ok_def split: if_splits)
next
  case (ANIMAL_IOCTL_SET_ADAPTER i)
  then show ?thesis
    using assms set_adapter_ok [OF assms(1), of i]
    by (auto simp: do_animal_ioctl_def split: if_splits prod.splits)
qed (use assms in \<open>auto simp: do_animal_ioctl_def hnd_ok_def split: if_splits prod.splits res.splits\<close>)


section \<open>The replies of the read commands\<close>

text \<open>A write of the command byte followed by a read. When the core returns without an error,
  which the simulated adapter does also when no message succeeded, a read of up to 32 bytes
  gives the program what the core left in the message's buffer. A longer read, up to the 2048 bytes
  the command allows, is received into allocated memory and then not copied from there: the copy
  runs from the 32 bytes on the stack past their end.\<close>

theorem writeread_reply:
  assumes "driver_ops ops" and "user_gets io 3" and "length (a_stack io) = unat ANIMAL_SMB_BUFFER_MAX_SIZE"
    and "a_kmalloc io" and "sz \<le> ANIMAL_I2C_BUFFER_MAX_SIZE"
    and "i2c_transfer c (client_adapter hnd) (writeread_msgs io command sz hnd) (core bs) = (Done (n, [m0, m1]), s')"
    and "length (m_buf m1) = unat sz"
  shows "fst (do_animal_ioctl c ops dev io (ANIMAL_IOCTL_I2C_WRITEREAD command sz) hnd bs)
     = (if sz \<le> ANIMAL_SMB_BUFFER_MAX_SIZE then Done (Block (m_buf m1)) else Crash Out_of_bounds)"
proof -
  have u: "user_gets io 2" "a_user io 2" using assms(2) by (auto simp: user_gets_def)
  obtain bs' where x: "locked_xfer ops hnd (i2c_transfer c (client_adapter hnd) (writeread_msgs io command sz hnd)) bs
      = (Done (n, [m0, m1]), bs')"
    using locked_xfer_core [where f = "i2c_transfer c (client_adapter hnd) (writeread_msgs io command sz hnd)", OF assms(1,6)]
    by blast
  have sz: "\<not> ANIMAL_I2C_BUFFER_MAX_SIZE < sz" using assms(5) by simp
  show ?thesis
  proof (cases "sz \<le> ANIMAL_SMB_BUFFER_MAX_SIZE")
    case True
    then have "\<not> ANIMAL_SMB_BUFFER_MAX_SIZE < sz" by simp
    with True sz u x assms(7) show ?thesis
      by (simp add: do_animal_ioctl_def animal_i2c_writeread_def Let_def stored_def)
  next
    case False
    then have "ANIMAL_SMB_BUFFER_MAX_SIZE < sz" "unat ANIMAL_SMB_BUFFER_MAX_SIZE < unat sz"
      by (simp_all add: not_le word_less_nat_alt)
    with False sz u x assms(3,4) show ?thesis
      by (simp add: do_animal_ioctl_def animal_i2c_writeread_def Let_def)
  qed
qed

section \<open>Loading and unloading\<close>

lemma remove1_refs:
  "fold remove1 xs (xs @ ys) = ys"
  "y \<notin> set xs \<Longrightarrow> fold remove1 xs (y # ys) = y # fold remove1 xs ys"
  by (induction xs arbitrary: ys) auto

lemma put_adapters_refs [simp]:
  "put_adapters as (adapter_refs as @ ys) = ys"
  "put_adapters as (I2c_driver # ys) = I2c_driver # put_adapters as ys"
  by (simp add: put_adapters_def remove1_refs, simp add: put_adapters_def, rule remove1_refs) (auto simp: adapter_refs_def)

lemma adapter_refs_none [simp]: "put_adapters (replicate n None) ys = ys"
  by (simp add: put_adapters_def adapter_refs_def) (induction n; simp)

text \<open>Loading the driver and unloading it balance. A load that fails, at whichever step, leaves
  nothing behind; after one that succeeds the driver has its two allocations, a reference to every
  adapter the kernel had, its I2C driver and its character device, and unloading gives all of it
  back.\<close>

theorem animal_module_balanced:
  "case animal_init p k of
     (Done dev, held) \<Rightarrow> length (animal_adapter dev) = adapters p
        \<and> held = [Cdev, Chrdev_region, I2c_driver] @ adapter_refs (animal_adapter dev) @ [Adapter_array, Animal_dev]
        \<and> animal_exit dev held = []
   | (Fail _, held) \<Rightarrow> held = []
   | (Crash _, _) \<Rightarrow> False"
  by (simp add: animal_init_def animal_exit_def install_adapters_def Let_def)

section \<open>The properties at work\<close>

text \<open>A program, a simulated bus, and a kernel with 32 GPIOs.\<close>

definition demo_hnd :: animal_handle where
  "demo_hnd = \<lparr>gpio = -1, hnd_adapter = 0, client_addr = 0x20, client_adapter = 3\<rparr>"

definition demo_bus :: "usim bus_state" where
  "demo_bus = \<lparr>core = usim_start, requested = {}, actions = [], open_handles = 1\<rparr>"

definition demo_io :: animal_io where
  "demo_io = \<lparr>a_user = (\<lambda>_. True), a_kmalloc = True, a_stack = replicate 32 0, a_heap = replicate 2048 0\<rparr>"

definition demo_dev :: animal_device where
  "demo_dev = \<lparr>animal_adapter = [Some 3], info_simulator = True, dev_users = 1\<rparr>"

definition demo_gpios :: gpio_kernel where
  "demo_gpios = \<lparr>k_is_valid = (\<lambda>g. 0 \<le> g \<and> g < 32), k_request = (\<lambda>_. None), k_direction = (\<lambda>_. None)\<rparr>"

definition demo_core :: "unit i2c_core" where
  "demo_core =
     \<lparr>smbus_read_byte_data = (\<lambda>_ _ _ st. (Fail EINVAL, st)),
      smbus_write_byte_data = (\<lambda>_ _ _ _ st. (Fail EINVAL, st)),
      smbus_read_word_data = (\<lambda>_ _ _ st. (Fail EINVAL, st)),
      smbus_write_word_data = (\<lambda>_ _ _ _ st. (Fail EINVAL, st)),
      smbus_read_block_data = (\<lambda>_ _ _ st. (Fail EINVAL, st)),
      smbus_write_block_data = (\<lambda>_ _ _ _ st. (Fail EINVAL, st)),
      i2c_transfer = (\<lambda>_ msgs st. (Done (2, msgs), st))\<rparr>"

definition demo_pins :: "unit bus_state" where
  "demo_pins = \<lparr>core = (), requested = {9}, actions = [], open_handles = 0\<rparr>"

text \<open>Two GPIOs one after the other, a pin that is taken, and a transfer that fails.\<close>

definition demo_cmds :: "(animal_io \<times> animal_cmd) list" where
  "demo_cmds = map (\<lambda>cmd. (demo_io, cmd))
     [ANIMAL_IOCTL_SET_GPIO 4, ANIMAL_IOCTL_SMB_READ8 1, ANIMAL_IOCTL_SET_GPIO 5, ANIMAL_IOCTL_SET_ADAPTER 0,
      ANIMAL_IOCTL_SET_GPIO 9, ANIMAL_IOCTL_SET_GPIO 6]"

lemma demo_open:
  "animal_open True demo_dev demo_pins = (Done \<lparr>gpio = -1, hnd_adapter = 0, client_addr = 0, client_adapter = 3\<rparr>,
     demo_dev\<lparr>dev_users := 2\<rparr>, demo_pins\<lparr>open_handles := 1\<rparr>)"
  by (simp add: animal_open_def demo_dev_def demo_pins_def)


theorem deselected_gpio_is_freed_twice_witness:
  "\<exists>bs'. do_animal_ioctl demo_core (animal_gpio_ops demo_gpios) demo_dev demo_io (ANIMAL_IOCTL_SET_GPIO (-1))
       (demo_hnd\<lparr>gpio := 9\<rparr>) demo_pins = (Done (Rc 0), demo_hnd\<lparr>gpio := 9\<rparr>, bs')
     \<and> fst (animal_release (animal_gpio_ops demo_gpios) (demo_hnd\<lparr>gpio := 9\<rparr>) bs') = Crash Not_requested"
proof -
  have run: "do_animal_ioctl demo_core (animal_gpio_ops demo_gpios) demo_dev demo_io (ANIMAL_IOCTL_SET_GPIO (-1))
       (demo_hnd\<lparr>gpio := 9\<rparr>) demo_pins = (Done (Rc 0), demo_hnd\<lparr>gpio := 9\<rparr>, demo_pins\<lparr>requested := {}\<rparr>)"
    by (simp add: do_animal_ioctl_def demo_io_def animal_set_gpio_def animal_gpio_ops_def demo_pins_def)
  from deselected_gpio_is_freed_twice [OF _ _ _ run] show ?thesis
    unfolding run by (simp add: demo_pins_def demo_io_def)
qed


theorem writeread_reply_witness:
  "fst (do_animal_ioctl demo_core simulator_gpio_ops demo_dev demo_io (ANIMAL_IOCTL_I2C_WRITEREAD 1 33) demo_hnd demo_pins)
     = Crash Out_of_bounds"
proof -
  have x: "i2c_transfer demo_core (client_adapter demo_hnd) (writeread_msgs demo_io 1 33 demo_hnd) (core demo_pins)
      = (Done (2, [\<lparr>m_addr = 0x20, m_flags = 0, m_len = 1, m_buf = [1]\<rparr>,
           \<lparr>m_addr = 0x20, m_flags = I2C_M_RD, m_len = 33, m_buf = replicate 33 0\<rparr>]), ())"
    by (simp add: demo_core_def writeread_msgs_def demo_io_def demo_hnd_def ANIMAL_SMB_BUFFER_MAX_SIZE_def)
  have "user_gets demo_io 3" "length (a_stack demo_io) = unat ANIMAL_SMB_BUFFER_MAX_SIZE" "a_kmalloc demo_io"
      "(33 :: u32) \<le> ANIMAL_I2C_BUFFER_MAX_SIZE" "\<not> (33 :: u32) \<le> ANIMAL_SMB_BUFFER_MAX_SIZE"
    by (simp_all add: user_gets_def demo_io_def ANIMAL_SMB_BUFFER_MAX_SIZE_def ANIMAL_I2C_BUFFER_MAX_SIZE_def)
  from writeread_reply [OF driver_opsI(1) this(1-4) x] this(5) show ?thesis by simp
qed

end
