(* ===== verification/AnimalSim.thy ===== *)
theory AnimalSim
  imports AnimalProps
begin

text \<open>
  The two I2C drivers together: a program on the character device of \<open>i2c_main.c\<close> whose adapter
  is the one \<open>i2c_usim.c\<close> registers. The I2C core of the kernel in between is a parameter;
  what is used of it is that it hands a transfer to the adapter's \<open>master_xfer\<close> and an SMBus
  access to its \<open>smbus_xfer\<close>, and returns what they return.
\<close>

definition runs_on_usim :: "usim i2c_core \<Rightarrow> (nat \<Rightarrow> bool) \<Rightarrow> world \<Rightarrow> bool" where
  "runs_on_usim c kz w \<longleftrightarrow>
     (\<forall>nr msgs st. i2c_transfer c nr msgs st =
        (case i2c_usim_xfer kz w (of_nat nr) 0 msgs st of None \<Rightarrow> (Crash Endless_loop, st) | Some x \<Rightarrow> x))
   \<and> (\<forall>nr adr command st. smbus_read_byte_data c nr adr command st =
        (case smb_usim_xfer (kz 0) w (of_nat nr) adr I2C_SMBUS_READ command I2C_SMBUS_BYTE_DATA [] st of
           None \<Rightarrow> (Crash Endless_loop, st)
         | Some (Done bytes, st) \<Rightarrow> (Done (ucast (bytes ! 0)), st)
         | Some (Fail e, st) \<Rightarrow> (Fail e, st)
         | Some (Crash f, st) \<Rightarrow> (Crash f, st)))"

text \<open>A core with these two functions, the others failing.\<close>

definition usim_core :: "(nat \<Rightarrow> bool) \<Rightarrow> world \<Rightarrow> usim i2c_core" where
  "usim_core kz w =
     \<lparr>smbus_read_byte_data = (\<lambda>nr adr command st.
        case smb_usim_xfer (kz 0) w (of_nat nr) adr I2C_SMBUS_READ command I2C_SMBUS_BYTE_DATA [] st of
           None \<Rightarrow> (Crash Endless_loop, st)
         | Some (Done bytes, st) \<Rightarrow> (Done (ucast (bytes ! 0)), st)
         | Some (Fail e, st) \<Rightarrow> (Fail e, st)
         | Some (Crash f, st) \<Rightarrow> (Crash f, st)),
      smbus_write_byte_data = (\<lambda>_ _ _ _ st. (Fail EINVAL, st)),
      smbus_read_word_data = (\<lambda>_ _ _ st. (Fail EINVAL, st)),
      smbus_write_word_data = (\<lambda>_ _ _ _ st. (Fail EINVAL, st)),
      smbus_read_block_data = (\<lambda>_ _ _ st. (Fail EINVAL, st)),
      smbus_write_block_data = (\<lambda>_ _ _ _ st. (Fail EINVAL, st)),
      i2c_transfer = (\<lambda>nr msgs st.
        case i2c_usim_xfer kz w (of_nat nr) 0 msgs st of None \<Rightarrow> (Crash Endless_loop, st) | Some x \<Rightarrow> x)\<rparr>"

lemma usim_core_runs: "runs_on_usim (usim_core kz w) kz w"
  by (simp add: runs_on_usim_def usim_core_def)

lemma smb_types [simp]:
  "smb_read_len I2C_SMBUS_BYTE_DATA = Some 1" "I2C_SMBUS_BYTE_DATA \<noteq> I2C_SMBUS_BLOCK_DATA"
  by (simp_all add: smb_read_len_def I2C_SMBUS_BYTE_DATA_def I2C_SMBUS_BYTE_def I2C_SMBUS_BLOCK_DATA_def)

lemma short_answer:
  "length d = DATA_SIZE \<Longrightarrow>
     (take (unat n) d @ drop (unat n) (command # replicate 511 0)) ! 0 = (if n = 0 then command else d ! 0)"
  by (cases "unat n"; cases d) (auto simp: unat_eq_0 DATA_SIZE_def)

text \<open>C37: A program reads a byte of a register of the simulated bus. The simulator sees one event, with
  the number of the adapter, the slave address and the register the program named, and the first byte
  of its answer is the byte the program gets. The event is gone afterwards. To an answer without data
  the program gets the number of the register.\<close>

theorem simulated_register_read:
  assumes core: "runs_on_usim c (\<lambda>_. True) (serve f)" and ops: "driver_ops ops" and u: "user_gets io 2"
    and idle: "eventq (core bs) = []" and inv: "usim_inv {} (core bs)"
    and f: "f \<lparr>io_ticket = last_ticket (core bs) + 1, io_type = I2C_USIM_SMB_READ, io_bus = of_nat (client_adapter hnd),
              io_addr = ucast (client_addr hnd), io_len = 1, io_data = [command]\<rparr> = (n, d)"
      "length d = DATA_SIZE" "unat n \<le> DATA_SIZE"
    and run: "do_animal_ioctl c ops dev io (ANIMAL_IOCTL_SMB_READ8 command) hnd bs = (r, hnd', bs')"
  shows "r = Done (Byte (if n = 0 then command else d ! 0)) \<and> core bs' = served (core bs)"
proof -
  have ok: "a_user io 0" "a_user io 1" "user_gets io 1" using u by (auto simp: user_gets_def)
  have "usim_smb_read True (serve f) (of_nat (client_adapter hnd)) (client_addr hnd) command I2C_SMBUS_BYTE_DATA (core bs)
      = Some (Done (take 1 (take (unat n) d @ drop (unat n) (command # replicate 511 0))), served (core bs))"
    using usim_smb_read_serve [OF idle inv smb_types(1), where f = f and bus = "of_nat (client_adapter hnd)"
        and addr = "client_addr hnd" and command = command and n = n and d = d] f
    by simp
  then have "smbus_read_byte_data c (client_adapter hnd) (client_addr hnd) command (core bs)
      = (Done (ucast (if n = 0 then command else d ! 0)), served (core bs))"
    using core by (simp add: runs_on_usim_def smb_usim_xfer_def short_answer [OF f(2)] del: take_append)
  from locked_xfer_core [where f = "smbus_read_byte_data c (client_adapter hnd) (client_addr hnd) command", OF ops this]
  obtain bs1 where "locked_xfer ops hnd (smbus_read_byte_data c (client_adapter hnd) (client_addr hnd) command) bs
      = (Done (ucast (if n = 0 then command else d ! 0)), bs1)" "core bs1 = served (core bs)"
    by blast
  moreover have "ucast ((ucast (x :: u8) :: u32) AND mask 8) = x" for x
    by (rule bit_word_eqI) (simp add: bit_simps)
  moreover have "mask 8 = (0xff :: u32)" by (simp add: mask_eq_exp_minus_1)
  ultimately show ?thesis
    using run ok by (simp add: do_animal_ioctl_def del: ucast_up_ucast_id)
qed

text \<open>C38: The two drivers disagree on the size of a message: a program may write 2048 bytes, an event
  of the simulator holds 512. Every write of 512 bytes or more, one for the register included,
  overruns the event in kernel memory.\<close>

theorem simulated_long_write_overruns:
  assumes core: "runs_on_usim c kz w" and kz: "kz 0" and ops: "driver_ops ops"
    and u: "user_gets io 3" "a_kmalloc io"
    and sz: "512 \<le> sz" "sz \<le> ANIMAL_I2C_BUFFER_MAX_SIZE" "unat sz \<le> length data"
  shows "fst (do_animal_ioctl c ops dev io (ANIMAL_IOCTL_I2C_WRITE command sz data) hnd bs) = Crash Out_of_bounds"
proof -
  define msg where "msg = \<lparr>m_addr = client_addr hnd, m_flags = 0, m_len = ucast (sz + 1), m_buf = command # take (unat sz) data\<rparr>"
  have b: "512 \<le> unat sz" "unat sz \<le> 2048"
    using sz by (simp_all add: word_le_nat_alt ANIMAL_I2C_BUFFER_MAX_SIZE_def)
  from b have "unat (m_len msg) = unat sz + 1" by (simp add: msg_def unsigned_ucast_eq unat_word_ariths take_bit_nat_eq_self)
  moreover have "unat sz + 1 \<le> length (m_buf msg)" using sz(3) by (simp add: msg_def)
  ultimately have "DATA_SIZE < unat (m_len msg)" "unat (m_len msg) \<le> length (m_buf msg)"
    using b by (simp_all add: DATA_SIZE_def)
  then obtain st' where "usim_i2c_write True w (of_nat (client_adapter hnd)) msg (core bs) = Some (Crash Out_of_bounds, st')"
    using usim_i2c_write_long by blast
  moreover have "m_flags msg AND I2C_M_RD = 0" by (simp add: msg_def)
  ultimately have "i2c_transfer c (client_adapter hnd) [msg] (core bs) = (Crash Out_of_bounds, st')"
    using core kz by (simp add: runs_on_usim_def)
  from locked_xfer_core [where f = "i2c_transfer c (client_adapter hnd) [msg]", OF ops this]
  obtain bs1 where "locked_xfer ops hnd (i2c_transfer c (client_adapter hnd) [msg]) bs = (Crash Out_of_bounds, bs1)"
    by blast
  then show ?thesis
    using u sz by (simp add: do_animal_ioctl_def animal_i2c_write_def Let_def user_gets_def msg_def not_less [symmetric])
qed

theorem simulated_register_read_witness:
  "fst (do_animal_ioctl (usim_core (\<lambda>_. True) (serve (\<lambda>_. (1, replicate 512 0x5A)))) simulator_gpio_ops demo_dev demo_io
     (ANIMAL_IOCTL_SMB_READ8 7) demo_hnd demo_bus) = Done (Byte 0x5A)"
proof -
  let ?run = "do_animal_ioctl (usim_core (\<lambda>_. True) (serve (\<lambda>_. (1, replicate 512 0x5A)))) simulator_gpio_ops demo_dev
    demo_io (ANIMAL_IOCTL_SMB_READ8 7) demo_hnd demo_bus"
  obtain r hnd bs where run: "?run = (r, hnd, bs)" by (cases ?run) auto
  have inv: "usim_inv {} (core demo_bus)"
    using sys_start_inv by (simp add: sys_inv_def sys_start_def demo_bus_def)
  have idle: "eventq (core demo_bus) = []" "user_gets demo_io 2"
    by (simp_all add: demo_bus_def usim_start_def user_gets_def demo_io_def)
  have "r = Done (Byte (if (1 :: u32) = 0 then 7 else replicate 512 0x5A ! 0))"
    using simulated_register_read [OF usim_core_runs driver_opsI(1) idle(2,1) inv refl _ _ run] by (simp add: DATA_SIZE_def)
  then show ?thesis using run by simp
qed

theorem simulated_long_write_overruns_witness:
  "fst (do_animal_ioctl (usim_core (\<lambda>_. True) (serve (\<lambda>_. (0, [])))) simulator_gpio_ops demo_dev demo_io
     (ANIMAL_IOCTL_I2C_WRITE 7 600 (replicate 2048 1)) demo_hnd demo_bus) = Crash Out_of_bounds"
  by (rule simulated_long_write_overruns [OF usim_core_runs])
    (simp_all add: user_gets_def demo_io_def ANIMAL_I2C_BUFFER_MAX_SIZE_def)

end
