(* ===== verification/Spec2Isabelle.thy ===== *)
theory Spec2Isabelle
  imports HeapProps CmemProps CmemLife CmemSeq CmemCache CmemSim UserInterface DriverText FpgaIds BifrostProps BifrostIrqProps BifrostLife AnimalSim
begin

text \<open>
  A verification development for the kernel modules of the repository. The sources are C for the Linux
  kernel; every part of them with program logic is modelled, function by function, under the name it has in
  the code, and each section names the functions it holds.

  \<^bold>\<open>The program.\<close> Four modules.
  \<^item> \<open>cmemk\<close> (\<open>src/cmemk/\<close>) manages physically contiguous memory. When it is loaded it cuts up to two blocks
    of memory into pools of equal buffers and gives the rest of each block to a heap; programs get buffers,
    map them and share them through ioctl commands, and \<open>/proc/cmem\<close> lists them.
  \<^item> \<open>bifrost\<close> (\<open>src/bifrost/\<close>) drives an FPGA over PCI or over a memory bus. Programs read and write its
    registers, start DMA transfers and read events; interrupts produce the events.
  \<^item> \<open>animal-i2c\<close> (\<open>src/animal-i2c/i2c_main.c\<close>) gives programs the I2C adapters of the system and selects
    chips by a GPIO.
  \<^item> the I2C simulator (\<open>src/animal-i2c/i2c_usim.c\<close>) is an I2C adapter whose chips are a program: each transfer
    is an event the program gets, answers and puts back.
  The last two meet in the kernel's I2C core: the adapter of \<open>animal-i2c\<close> may be the simulated one.

  \<^bold>\<open>How the C is modelled.\<close> Configuration: 32-bit ARM, without \<open>__DEBUG\<close> and udev, \<open>cmemk\<close> for kernels
  before 4.3 (its cache routines for those before 2.6.34) and \<open>bifrost\<close> for 5.10 and later; the \<open>__SIM\<close> build of
  \<open>cmemk\<close> has a theory of its own. Unsigned C integers are words of their width, so additions
  wrap as in C; signed ones are integers where the code cannot overflow. A call of a driver is a function from the
  state to a result and the state (\<open>Prelude\<close>): \<open>Done\<close> a value, \<open>Fail\<close> an error number, \<open>Crash\<close> a \<open>fault\<close>, which
  is the model's value for what C leaves undefined: a NULL dereference, an index outside an array, a use after free.
  A loop that may not end is an option (\<open>partial_function\<close>), and None means that it does not; no model uses fuel.
  What the kernel decides (allocations that fail, copies from and to user space, clocks, hardware registers,
  the I2C core, GPIOs) is an argument of the definitions, a record of functions or answers.

  \<^bold>\<open>Theories, from the bottom up.\<close>
  \<^item> \<open>Prelude\<close>: words, results, lists. \<open>Numerals\<close>: numbers as text, read and printed. Interfaces as locales: \<open>AllocInterface\<close> (an allocator of byte ranges,
    interpreted in \<open>HeapRefine\<close> on \<open>HeapMem_alloc\<close> and \<open>HeapMem_free\<close>), \<open>FifoInterface\<close> (a queue; its bounded
    form is interpreted in \<open>BifrostEvents\<close> on the event queue of a handle, the other in \<open>UsimProps\<close> on the request
    queue of the simulator), \<open>RegisterInterface\<close> (the access functions of a register bank, interpreted there on
    the PCI and on the memory-bus functions and on the bank that selects between them).
  \<^item> \<open>HeapMem\<close>: the heap of \<open>cmemk.c\<close> as a store of headers; \<open>FreeList\<close>: what it promises, without
    pointers; \<open>HeapRefine\<close>: the first implements the second; \<open>HeapProps\<close>: first fit, completeness, joining,
    round trip, and the request that destroys a heap.
  \<^item> \<open>CmemState\<close>, \<open>CmemIoctl\<close>: buffers, pools, blocks and every ioctl command, \<open>mmap\<close>, open and
    release; \<open>CmemInv\<close>, \<open>CmemSafe\<close>, \<open>CmemSystem\<close>, \<open>CmemPools\<close>: the invariant of the driver, its
    preservation, the transition system and the conservation of pool buffers; \<open>CmemProps\<close>: what the commands do.
  \<^item> \<open>CmemInit\<close>: \<open>cmem_init\<close> and \<open>cmem_exit\<close>; \<open>CmemInitProps\<close>, \<open>CmemLoad\<close>, \<open>CmemUnload\<close>,
    \<open>CmemLife\<close>: what a load establishes, what every run after it keeps, what failed loads and unloads give back.
    \<open>CmemSeq\<close>: \<open>find_buffer_n\<close> and the sequence file. \<open>CmemCache\<close>: the cache routines, line by line, and
    that they end (its locale \<open>line_operation\<close> is interpreted on invalidating, cleaning and flushing a line).
    \<open>CmemSim\<close>: the simulation build, which takes its memory from \<open>vmalloc\<close> and maps it page by page.
  \<^item> \<open>BifrostBus\<close>: banks and register access (\<open>bifrost_pci.c\<close>, \<open>bifrost_membus.c\<close>) as programs over the
    trace of hardware accesses; \<open>BifrostEvents\<close>: handles, event queues and their work (\<open>bifrost_cdev.c\<close>);
    \<open>BifrostDma\<close>: the channels and the request queue (\<open>bifrost_dma.c\<close>); \<open>BifrostDevice\<close>: the device that
    holds all three, the platforms and the setup of DMA; \<open>BifrostIrq\<close>: the interrupt services of the memory bus;
    \<open>BifrostIoctl\<close>: the ioctl commands and the start and end of transfers; \<open>BifrostLoad\<close>: interrupt
    table, PCI Express configuration, probe and remove, FPGA interrupts, and the load and unload of the module.
  \<^item> \<open>BifrostDmaProps\<close>, \<open>BifrostAccess\<close>, \<open>BifrostAccessProps\<close>, \<open>BifrostIrqProps\<close>: order and conservation of
    DMA requests, the confinement of register access, the events of an interrupt. \<open>BifrostSystem\<close> composes them
    to a transition system of system calls, interrupts and work; \<open>BifrostProps\<close> and \<open>BifrostLife\<close> hold the
    properties across parts: a transfer from its command to its event, and the life of the module
    from load to unload. \<open>BifrostLoadProps\<close>: the resources of a probe on every path.
  \<^item> \<open>UsimEvents\<close>, \<open>UsimXfer\<close>: the event queue of the simulator, its device, its transfers and its module;
    \<open>UsimSystem\<close>: senders and simulator as a transition system; \<open>UsimProps\<close>: reference counts,
    absence of crashes, order. \<open>AnimalI2c\<close>, \<open>AnimalProps\<close>: the I2C driver; \<open>AnimalSim\<close>: both drivers
    composed, from the ioctl of one program to the answer of the other.
  \<^item> \<open>UserInterface\<close>: the command numbers and argument structures of the API headers, and how the bytes of a
    program become the commands the other theories take; \<open>DriverText\<close>: what the drivers show and read as text
    (sysfs, the state of the DMA controller, the adapter number of the simulator, the lines of \<open>/proc/cmem\<close>, the
    lists of a pool); \<open>FpgaIds\<close>: the register map and the unit identifiers of the FPGA headers.

  \<^bold>\<open>What a step is.\<close> In \<open>CmemSystem\<close> a whole call is one step: the driver holds its mutex while it works on its lists. In
  \<open>BifrostSystem\<close> the wait of a user transfer splits a call in two (start and end of the wait), and interrupts
  and the work queue run between any two steps; the spin locks of the code make the parts atomic. In
  \<open>UsimSystem\<close> a transfer is posting, waiting and collecting, and an ioctl the parts between the locks. Its
  simulator is one thread which puts only events it got; that without this rule memory is used after its release
  is the lemma \<open>premature_put_is_use_after_free\<close>.

  \<^bold>\<open>What is assumed.\<close> The theorems name their hypotheses: kernel addresses of blocks do not wrap, the pins
  of the FVD platforms are valid, the interrupt numbers are distinct and fit their type, the simulator follows its
  protocol. Each is discharged on a concrete state by the witness that follows the theorem.

  \<^bold>\<open>Not modelled.\<close> Log messages; the variants for other configurations and kernels (\<open>__DEBUG\<close>,
  udev, older and newer interfaces), which repeat the modelled code; the mapping attributes of pages, of which
  the model has the choice the code makes (\<open>set_cached\<close>, \<open>set_noncached\<close>); the DMA engine and the page
  tables themselves; weak memory and preemption inside a locked region.

  \<^bold>\<open>Possible extensions.\<close> Several simulators on one device, and the release of a bifrost handle during a blocked
  transfer of another thread of the same file.
\<close>

end
